(* ===== verification/Prelude.thy ===== *)
theory Prelude
  imports Main "HOL-Library.Word" "HOL-Library.List_Lexorder" "HOL-Library.Char_ord"
    "HOL-Library.Sublist" "HOL-Library.Multiset"
begin

text \<open>
  The types and generic lemmas every component shares.

  \<^item> A Go \<open>string\<close> and a Go \<open>[]byte\<close> are both sequences of bytes: \<open>string\<close>, a list of
    8-bit \<open>char\<close>s, compared bytewise (\<open>List_Lexorder\<close>, \<open>Char_ord\<close>) as Go compares strings.
  \<^item> A \<open>uint64\<close> is a \<open>64 word\<close>; \<open>+\<close> and \<open>-\<close> wrap, \<open>sint\<close> is Go's conversion to \<open>int\<close>.
  \<^item> An \<open>error\<close> is its message; a nil error is \<open>None\<close>, a pair \<open>(value, error)\<close> is a sum.
  \<^item> A \<open>time.Time\<close> and a \<open>time.Duration\<close> count nanoseconds (\<open>int\<close>); \<open>Time.Sub\<close>
    saturates at the limits of \<open>int64\<close>, as the standard library documents.
  \<^item> A Go map is an association list with strictly ascending keys (\<open>gm_wf\<close>). This
    representation is canonical: two such lists that answer every lookup alike are equal
    (\<open>gm_ext\<close>), so equality of states is equality of maps. Where the code ranges over a
    map, the order is an explicit parameter.
\<close>

section \<open>Types\<close>

type_synonym bytes = string
type_synonym gerror = string
type_synonym uint64 = "64 word"
type_synonym time = int
type_synonym duration = int

type_synonym ('k, 'v) gomap = "('k \<times> 'v) list"

named_theorems gomap_simps "lookups after updates of a Go map"
named_theorems gomap_intros "well-formedness of updated Go maps"

section \<open>Time\<close>

definition max_duration :: duration where
  "max_duration = 2 ^ 63 - 1"

definition min_duration :: duration where
  "min_duration = - (2 ^ 63)"

definition time_sub :: "time \<Rightarrow> time \<Rightarrow> duration" where
  "time_sub t u = max min_duration (min max_duration (t - u))"

text \<open>The zero \<open>time.Time\<close> is January 1 of year 1, counted here from the Unix epoch.\<close>

definition zero_time :: time where
  "zero_time = - 62135596800 * 10 ^ 9"

abbreviation millisecond :: duration where
  "millisecond \<equiv> 1000000"

abbreviation second :: duration where
  "second \<equiv> 1000000000"

lemma time_sub_self [simp]: "time_sub t t = 0"
  by (simp add: time_sub_def max_duration_def min_duration_def)

lemma time_sub_zero_time:
  assumes "0 \<le> t"
  shows "time_sub t zero_time = max_duration"
  using assms by (simp add: time_sub_def zero_time_def max_duration_def min_duration_def)

section \<open>Go maps\<close>

abbreviation gm_get :: "('k, 'v) gomap \<Rightarrow> 'k \<Rightarrow> 'v option" where
  "gm_get \<equiv> map_of"

definition gm_wf :: "('k::linorder, 'v) gomap \<Rightarrow> bool" where
  "gm_wf m \<longleftrightarrow> sorted_wrt (<) (map fst m)"

fun gm_put :: "'k::linorder \<Rightarrow> 'v \<Rightarrow> ('k, 'v) gomap \<Rightarrow> ('k, 'v) gomap" where
  "gm_put k v [] = [(k, v)]"
| "gm_put k v ((k', v') # m) =
     (if k < k' then (k, v) # (k', v') # m
      else if k = k' then (k, v) # m
      else (k', v') # gm_put k v m)"

definition gm_del :: "'k \<Rightarrow> ('k, 'v) gomap \<Rightarrow> ('k, 'v) gomap" where
  "gm_del k m = filter (\<lambda>p. fst p \<noteq> k) m"

text \<open>Reading a missing key of a \<open>map[string]uint64\<close> gives the zero value.\<close>

definition gm_val :: "('k, 'v::zero) gomap \<Rightarrow> 'k \<Rightarrow> 'v" where
  "gm_val m k = (case gm_get m k of None \<Rightarrow> 0 | Some v \<Rightarrow> v)"

text \<open>Building a map by inserting pairs in order: a later pair overwrites an earlier one.\<close>

definition gm_of :: "('k::linorder \<times> 'v) list \<Rightarrow> ('k, 'v) gomap" where
  "gm_of ps = fold (\<lambda>(k, v). gm_put k v) ps []"

lemma gm_wf_Nil [simp, gomap_intros]: "gm_wf []"
  by (simp add: gm_wf_def)

lemma gm_wf_Cons [simp]:
  "gm_wf ((k, v) # m) \<longleftrightarrow> gm_wf m \<and> (\<forall>k' \<in> fst ` set m. k < k')"
  by (auto simp: gm_wf_def)

lemma gm_wf_distinct: "gm_wf m \<Longrightarrow> distinct (map fst m)"
  by (simp add: gm_wf_def strict_sorted_iff)

lemma keys_gm_put [simp]: "fst ` set (gm_put k v m) = insert k (fst ` set m)"
  by (induction k v m rule: gm_put.induct) auto

lemma gm_put_not_Nil [simp]: "gm_put k v m \<noteq> []"
  by (cases m) (auto split: if_splits)

lemma gm_wf_put [simp, gomap_intros]: "gm_wf m \<Longrightarrow> gm_wf (gm_put k v m)"
  by (induction k v m rule: gm_put.induct) auto

lemma gm_get_put [simp, gomap_simps]: "gm_get (gm_put k v m) = (gm_get m)(k \<mapsto> v)"
  by (induction k v m rule: gm_put.induct) auto

lemma keys_gm_del [simp]: "fst ` set (gm_del k m) = fst ` set m - {k}"
  by (auto simp: gm_del_def)

lemma gm_wf_del [simp, gomap_intros]: "gm_wf m \<Longrightarrow> gm_wf (gm_del k m)"
  by (induction m) (auto simp: gm_del_def)

lemma gm_get_del [simp, gomap_simps]: "gm_get (gm_del k m) = (gm_get m)(k := None)"
  by (induction m) (auto simp: gm_del_def fun_eq_iff)

lemma gm_get_eq_None: "gm_get m k = None \<longleftrightarrow> k \<notin> fst ` set m"
  by (rule map_of_eq_None_iff)

lemma gm_get_in: "gm_get m k = Some v \<Longrightarrow> (k, v) \<in> set m"
  by (rule map_of_SomeD)

lemma gm_get_iff: "gm_wf m \<Longrightarrow> gm_get m k = Some v \<longleftrightarrow> (k, v) \<in> set m"
  by (simp add: gm_wf_distinct)

lemma gm_ext_dom:
  assumes "gm_wf m" and "gm_wf m'" and "gm_get m = gm_get m'"
  shows "set m = set m'"
  using assms by (metis (no_types, lifting) gm_get_iff subsetI subset_antisym surj_pair)

lemma gm_ext:
  assumes "gm_wf m" and "gm_wf m'" and "gm_get m = gm_get m'"
  shows "m = m'"
proof (rule map_sorted_distinct_set_unique [of fst])
  have s: "set m = set m'" using assms by (rule gm_ext_dom)
  show "inj_on fst (set m \<union> set m')"
    using s assms(1) gm_wf_distinct by (fastforce simp: distinct_map)
  show "sorted (map fst m)" "distinct (map fst m)" "sorted (map fst m')" "distinct (map fst m')"
    using assms(1,2) by (simp_all add: gm_wf_def strict_sorted_iff)
  show "set m = set m'" by (rule s)
qed

lemma gm_put_get_same: "gm_wf m \<Longrightarrow> gm_get m k = Some v \<Longrightarrow> gm_put k v m = m"
  by (rule gm_ext) (auto simp: fun_upd_idem)

lemma gm_del_fresh: "k \<notin> fst ` set m \<Longrightarrow> gm_del k m = m"
  by (auto simp: gm_del_def filter_id_conv)

lemma gm_val_put [simp, gomap_simps]:
  "gm_val (gm_put k v m) k' = (if k' = k then v else gm_val m k')"
  by (simp add: gm_val_def)

lemma gm_val_Nil [simp]: "gm_val [] k = 0"
  by (simp add: gm_val_def)

text \<open>A lookup in a well-formed map does not depend on the order the pairs are listed in.\<close>

lemma map_of_perm:
  assumes "distinct (map fst xs)" and "mset xs = mset ys"
  shows "map_of xs = map_of ys"
proof -
  have "distinct (map fst ys)"
    using assms by (metis mset_eq_imp_distinct_iff mset_map)
  then show ?thesis
    using assms by (intro map_of_eqI) (auto dest: mset_eq_setD)
qed

section \<open>Go maps as an interface\<close>

text \<open>
  What the rest of the development relies on of a map implementation, and the fact it
  needs most: inserting a list of pairs answers a lookup with the last pair for that key.
\<close>

locale go_map =
  fixes empty :: "'m"
    and get :: "'m \<Rightarrow> 'k \<Rightarrow> 'v option"
    and put :: "'k \<Rightarrow> 'v \<Rightarrow> 'm \<Rightarrow> 'm"
    and del :: "'k \<Rightarrow> 'm \<Rightarrow> 'm"
    and wf :: "'m \<Rightarrow> bool"
  assumes get_empty: "get empty k = None"
    and get_put: "wf m \<Longrightarrow> get (put k v m) k' = (if k' = k then Some v else get m k')"
    and get_del: "wf m \<Longrightarrow> get (del k m) k' = (if k' = k then None else get m k')"
    and wf_empty: "wf empty"
    and wf_put: "wf m \<Longrightarrow> wf (put k v m)"
    and wf_del: "wf m \<Longrightarrow> wf (del k m)"
    and ext: "wf m \<Longrightarrow> wf m' \<Longrightarrow> (\<And>k. get m k = get m' k) \<Longrightarrow> m = m'"
begin

lemma wf_fold_put: "wf m \<Longrightarrow> wf (fold (\<lambda>(k, v). put k v) ps m)"
  by (induction ps arbitrary: m) (auto simp: wf_put)

lemma get_fold_put:
  "wf m \<Longrightarrow> get (fold (\<lambda>(k, v). put k v) ps m) k =
     (case map_of (rev ps) k of None \<Rightarrow> get m k | Some v \<Rightarrow> Some v)"
proof (induction ps arbitrary: m)
  case Nil
  then show ?case by simp
next
  case (Cons p ps)
  then show ?case
    by (auto simp: wf_put get_put map_add_def split: option.splits prod.splits)
qed

lemma fold_put_perm:
  assumes "wf m" and "distinct (map fst ps)" and "mset ps = mset qs"
  shows "fold (\<lambda>(k, v). put k v) ps m = fold (\<lambda>(k, v). put k v) qs m"
proof (rule ext)
  show "wf (fold (\<lambda>(k, v). put k v) ps m)" "wf (fold (\<lambda>(k, v). put k v) qs m)"
    using assms(1) by (auto intro: wf_fold_put)
  have "map_of (rev ps) = map_of (rev qs)"
    using assms(2,3) by (intro map_of_perm) (auto simp: rev_map [symmetric])
  then show "get (fold (\<lambda>(k, v). put k v) ps m) k = get (fold (\<lambda>(k, v). put k v) qs m) k" for k
    using assms(1) by (simp add: get_fold_put)
qed

lemma put_del_commute: "wf m \<Longrightarrow> k \<noteq> k' \<Longrightarrow> put k v (del k' m) = del k' (put k v m)"
  by (rule ext) (auto simp: wf_put wf_del get_put get_del)

lemma put_put: "wf m \<Longrightarrow> put k v (put k v' m) = put k v m"
  by (rule ext) (auto simp: wf_put get_put)

lemma del_put: "wf m \<Longrightarrow> del k (put k v m) = del k m"
  by (rule ext) (auto simp: wf_put wf_del get_put get_del)

end

interpretation gm: go_map "[]" gm_get gm_put gm_del gm_wf
  by unfold_locales (auto intro: gm_ext)

lemma gm_wf_of [simp, gomap_intros]: "gm_wf (gm_of ps)"
  unfolding gm_of_def by (rule gm.wf_fold_put) simp

lemma gm_get_of [gomap_simps]: "gm_get (gm_of ps) k = map_of (rev ps) k"
  unfolding gm_of_def by (subst gm.get_fold_put) (auto split: option.splits)

lemma gm_of_perm: "distinct (map fst ps) \<Longrightarrow> mset ps = mset qs \<Longrightarrow> gm_of ps = gm_of qs"
  unfolding gm_of_def by (rule gm.fold_put_perm) auto

lemma gm_of_self: "gm_wf m \<Longrightarrow> gm_of m = m"
proof (rule gm_ext)
  assume "gm_wf m"
  then have "map_of (rev m) = map_of m"
    by (intro map_of_perm) (auto simp: gm_wf_distinct rev_map [symmetric])
  then show "gm_get (gm_of m) = gm_get m" by (simp add: fun_eq_iff gm_get_of)
qed auto

lemma count_list_distinct: "distinct xs \<Longrightarrow> x \<in> set xs \<Longrightarrow> count_list xs x = 1"
  by (induction xs) auto

section \<open>Bounded channels\<close>

text \<open>
  A buffered Go channel is the list of queued values, oldest first, with its capacity. A
  send inside a \<open>select\<close> with a \<open>default\<close> branch never blocks: it drops the value when
  the buffer is full.
\<close>

definition try_send :: "nat \<Rightarrow> 'a \<Rightarrow> 'a list \<Rightarrow> 'a list" where
  "try_send cap v q = (if length q < cap then q @ [v] else q)"

lemma try_send_bound: "length q \<le> cap \<Longrightarrow> length (try_send cap v q) \<le> cap"
  by (simp add: try_send_def)

lemma try_send_prefix: "prefix q (try_send cap v q)"
  by (simp add: try_send_def)

lemma fold_try_send:
  assumes "length q \<le> cap"
  shows "fold (try_send cap) vs q = take cap (q @ vs)"
  using assms
proof (induction vs arbitrary: q)
  case (Cons v vs)
  then show ?case
    by (cases "length q < cap") (auto simp: try_send_def take_Cons' Suc_diff_Suc)
qed simp

end
