(* ===== verification/GoStrings.thy ===== *)
theory GoStrings
  imports Prelude
begin

text \<open>
  The parts of Go's \<open>strings\<close>, \<open>strconv\<close>, \<open>bufio\<close> and \<open>net\<close> packages the program calls,
  on byte strings: prefixes and suffixes, splitting, trimming of Unicode white space,
  decimal numbers, scanning lines, and joining and splitting \<open>host:port\<close>.
\<close>

section \<open>Prefixes, suffixes, substrings\<close>

definition HasPrefix :: "string \<Rightarrow> string \<Rightarrow> bool" where
  "HasPrefix s p \<longleftrightarrow> prefix p s"

definition HasSuffix :: "string \<Rightarrow> string \<Rightarrow> bool" where
  "HasSuffix s p \<longleftrightarrow> suffix p s"

definition TrimPrefix :: "string \<Rightarrow> string \<Rightarrow> string" where
  "TrimPrefix s p = (if HasPrefix s p then drop (length p) s else s)"

definition TrimSuffix :: "string \<Rightarrow> string \<Rightarrow> string" where
  "TrimSuffix s p = (if HasSuffix s p then take (length s - length p) s else s)"

fun Contains :: "string \<Rightarrow> string \<Rightarrow> bool" where
  "Contains [] sub = (sub = [])"
| "Contains (c # s) sub = (prefix sub (c # s) \<or> Contains s sub)"

lemma TrimSuffix_append [simp]: "TrimSuffix (s @ p) p = s"
  by (simp add: TrimSuffix_def HasSuffix_def suffix_def)

lemma HasSuffix_append [simp]: "HasSuffix (s @ p) p"
  by (simp add: HasSuffix_def suffix_def)

lemma Contains_iff_sublist: "Contains s sub \<longleftrightarrow> sublist sub s"
proof (induction s)
  case (Cons c s)
  then show ?case by (simp add: sublist_Cons_right)
qed simp

section \<open>Splitting\<close>

text \<open>\<open>strings.Split\<close> with a one-byte separator: one more field than separators.\<close>

fun Split :: "string \<Rightarrow> char \<Rightarrow> string list" where
  "Split [] c = [[]]"
| "Split (x # xs) c =
     (if x = c then [] # Split xs c
      else (case Split xs c of [] \<Rightarrow> [[x]] | y # ys \<Rightarrow> (x # y) # ys))"

text \<open>\<open>strings.SplitN\<close> for a positive limit: the last field takes the rest unsplit.\<close>

fun SplitN :: "string \<Rightarrow> char \<Rightarrow> nat \<Rightarrow> string list" where
  "SplitN s c 0 = []"
| "SplitN s c (Suc 0) = [s]"
| "SplitN s c (Suc (Suc n)) =
     (case dropWhile (\<lambda>x. x \<noteq> c) s of
        [] \<Rightarrow> [s]
      | _ # rest \<Rightarrow> takeWhile (\<lambda>x. x \<noteq> c) s # SplitN rest c (Suc n))"

fun join_with :: "char \<Rightarrow> string list \<Rightarrow> string" where
  "join_with c [] = []"
| "join_with c [s] = s"
| "join_with c (s # ss) = s @ c # join_with c ss"

lemma Split_not_Nil [simp]: "Split s c \<noteq> []"
  by (cases s) (auto split: list.splits)

lemma Split_no_sep [simp]: "c \<notin> set s \<Longrightarrow> Split s c = [s]"
  by (induction s) auto

lemma Split_append_sep: "c \<notin> set s \<Longrightarrow> Split (s @ c # t) c = s # Split t c"
  by (induction s) auto

lemma Split_join_with:
  "ss \<noteq> [] \<Longrightarrow> \<forall>s \<in> set ss. c \<notin> set s \<Longrightarrow> Split (join_with c ss) c = ss"
  by (induction c ss rule: join_with.induct) (auto simp: Split_append_sep)

lemma join_with_Split: "join_with c (Split s c) = s"
proof (induction s)
  case (Cons x xs)
  obtain y ys where "Split xs c = y # ys" by (metis Split_not_Nil neq_Nil_conv)
  then show ?case using Cons by (cases ys) auto
qed simp

lemma Split_fields: "f \<in> set (Split s c) \<Longrightarrow> c \<notin> set f"
proof (induction s arbitrary: f)
  case (Cons x xs)
  obtain y ys where "Split xs c = y # ys" by (metis Split_not_Nil neq_Nil_conv)
  then show ?case using Cons by (auto split: if_splits)
qed simp

section \<open>Trimming white space\<close>

text \<open>
  The UTF-8 encodings of the code points \<open>unicode.IsSpace\<close> accepts: tab, newline, vertical
  tab, form feed, carriage return, space, U+0085, U+00A0, U+1680, U+2000 to U+200A, U+2028,
  U+2029, U+202F, U+205F and U+3000.
\<close>

definition space_seqs :: "string list" where
  "space_seqs =
     [[CHR 0x09], [CHR 0x0A], [CHR 0x0B], [CHR 0x0C], [CHR 0x0D], [CHR 0x20],
      [CHR 0xC2, CHR 0x85], [CHR 0xC2, CHR 0xA0], [CHR 0xE1, CHR 0x9A, CHR 0x80]]
     @ map (\<lambda>n. [CHR 0xE2, CHR 0x80, char_of (0x80 + n)]) [0 ..< 11]
     @ [[CHR 0xE2, CHR 0x80, CHR 0xA8], [CHR 0xE2, CHR 0x80, CHR 0xA9],
        [CHR 0xE2, CHR 0x80, CHR 0xAF], [CHR 0xE2, CHR 0x81, CHR 0x9F],
        [CHR 0xE3, CHR 0x80, CHR 0x80]]"

function trim_left :: "string list \<Rightarrow> string \<Rightarrow> string" where
  "trim_left seqs s =
     (case find (\<lambda>p. p \<noteq> [] \<and> prefix p s) seqs of
        None \<Rightarrow> s
      | Some p \<Rightarrow> trim_left seqs (drop (length p) s))"
  by pat_completeness auto
termination
  by (relation "measure (\<lambda>(seqs, s). length s)") (auto simp: find_Some_iff prefix_def)

declare trim_left.simps [simp del]

definition TrimSpace :: "string \<Rightarrow> string" where
  "TrimSpace s = rev (trim_left (map rev space_seqs) (rev (trim_left space_seqs s)))"

definition trimmed :: "string \<Rightarrow> bool" where
  "trimmed s \<longleftrightarrow> (\<forall>p \<in> set space_seqs. \<not> prefix p s \<and> \<not> suffix p s)"

lemma trim_left_suffix: "suffix (trim_left seqs s) s"
proof (induction seqs s rule: trim_left.induct)
  case (1 seqs s)
  show ?case
  proof (cases "find (\<lambda>p. p \<noteq> [] \<and> prefix p s) seqs")
    case None
    then show ?thesis by (subst trim_left.simps) simp
  next
    case (Some p)
    then have "suffix (trim_left seqs (drop (length p) s)) (drop (length p) s)" by (rule 1)
    then show ?thesis using Some
      by (subst trim_left.simps) (auto intro: suffix_order.trans suffix_drop)
  qed
qed

lemma trim_left_no_prefix: "p \<in> set seqs \<Longrightarrow> p \<noteq> [] \<Longrightarrow> \<not> prefix p (trim_left seqs s)"
proof (induction seqs s rule: trim_left.induct)
  case (1 seqs s)
  then show ?case
    by (subst trim_left.simps) (auto simp: find_None_iff split: option.splits)
qed

lemma trim_left_id: "(\<And>p. p \<in> set seqs \<Longrightarrow> \<not> prefix p s) \<Longrightarrow> trim_left seqs s = s"
  by (subst trim_left.simps) (auto simp: find_None_iff split: option.splits dest!: find_Some_iff [THEN iffD1])

lemma space_seqs_not_Nil: "p \<in> set space_seqs \<Longrightarrow> p \<noteq> []"
  by (auto simp: space_seqs_def)

lemma TrimSpace_trimmed: "trimmed (TrimSpace s)"
  unfolding trimmed_def
proof (intro ballI conjI)
  fix p assume p: "p \<in> set space_seqs"
  let ?l = "trim_left space_seqs s"
  have "suffix (trim_left (map rev space_seqs) (rev ?l)) (rev ?l)" by (rule trim_left_suffix)
  then have pre: "prefix (TrimSpace s) ?l"
    by (simp add: TrimSpace_def suffix_to_prefix)
  have "\<not> prefix p ?l" using p by (intro trim_left_no_prefix) (auto simp: space_seqs_not_Nil)
  then show "\<not> prefix p (TrimSpace s)" using pre by (auto dest: prefix_order.trans)
  have "\<not> prefix (rev p) (trim_left (map rev space_seqs) (rev ?l))"
    using p by (intro trim_left_no_prefix) (auto simp: space_seqs_not_Nil)
  then show "\<not> suffix p (TrimSpace s)"
    by (simp add: TrimSpace_def suffix_to_prefix)
qed

lemma TrimSpace_id: "trimmed s \<Longrightarrow> TrimSpace s = s"
proof -
  assume t: "trimmed s"
  then have "trim_left space_seqs s = s" by (intro trim_left_id) (simp add: trimmed_def)
  moreover have "trim_left (map rev space_seqs) (rev s) = rev s"
    using t by (intro trim_left_id) (auto simp: trimmed_def suffix_to_prefix)
  ultimately show ?thesis by (simp add: TrimSpace_def)
qed

text \<open>A string whose first and last byte are visible ASCII is trimmed.\<close>

definition visible :: "char \<Rightarrow> bool" where
  "visible c \<longleftrightarrow> 32 < (of_char c :: nat) \<and> (of_char c :: nat) < 128"

lemma space_seqs_invisible: "p \<in> set space_seqs \<Longrightarrow> \<not> visible (hd p) \<and> \<not> visible (last p)"
  by (auto simp: space_seqs_def visible_def)

lemma trimmed_visible: "s \<noteq> [] \<Longrightarrow> visible (hd s) \<Longrightarrow> visible (last s) \<Longrightarrow> trimmed s"
  by (metis hd_append2 last_appendR prefix_def space_seqs_invisible space_seqs_not_Nil suffix_def trimmed_def)

lemma TrimSpace_visible: "visible c \<Longrightarrow> visible (last (c # s)) \<Longrightarrow> TrimSpace (c # s) = c # s"
  by (intro TrimSpace_id trimmed_visible) auto

lemma TrimSpace_idem [simp]: "TrimSpace (TrimSpace s) = TrimSpace s"
  by (simp add: TrimSpace_id TrimSpace_trimmed)

lemma TrimSpace_sublist: "sublist (TrimSpace s) s"
proof -
  have "prefix (TrimSpace s) (trim_left space_seqs s)"
    using trim_left_suffix [of "map rev space_seqs" "rev (trim_left space_seqs s)"]
    by (simp add: TrimSpace_def suffix_to_prefix)
  then show ?thesis
    using trim_left_suffix by (meson prefix_imp_sublist sublist_order.order_trans suffix_imp_sublist)
qed

section \<open>Decimal numbers\<close>

definition digit :: "nat \<Rightarrow> char" where
  "digit n = char_of (48 + n)"

definition is_digit :: "char \<Rightarrow> bool" where
  "is_digit c \<longleftrightarrow> 48 \<le> (of_char c :: nat) \<and> (of_char c :: nat) \<le> 57"

definition digit_val :: "char \<Rightarrow> nat" where
  "digit_val c = of_char c - 48"

fun show_nat :: "nat \<Rightarrow> string" where
  "show_nat n = (if n < 10 then [digit n] else show_nat (n div 10) @ [digit (n mod 10)])"

declare show_nat.simps [simp del]

definition read_nat :: "string \<Rightarrow> nat" where
  "read_nat s = foldl (\<lambda>a c. a * 10 + digit_val c) 0 s"

text \<open>\<open>strconv.FormatUint(n, 10)\<close>, \<open>strconv.Itoa\<close>, and \<open>strconv.ParseUint(s, 10, 64)\<close>.\<close>

definition FormatUint :: "uint64 \<Rightarrow> string" where
  "FormatUint w = show_nat (unat w)"

definition Itoa :: "int \<Rightarrow> string" where
  "Itoa i = (if i < 0 then CHR ''-'' # show_nat (nat (- i)) else show_nat (nat i))"

definition ParseUint :: "string \<Rightarrow> uint64 option" where
  "ParseUint s =
     (if s = [] \<or> \<not> list_all is_digit s then None
      else if 2 ^ 64 \<le> read_nat s then None
      else Some (word_of_nat (read_nat s)))"

lemma of_char_digit: "n < 10 \<Longrightarrow> of_char (digit n) = 48 + n"
  by (simp add: digit_def)

lemma digits:
  "digit 0 = CHR ''0''" "digit 1 = CHR ''1''" "digit 2 = CHR ''2''" "digit 3 = CHR ''3''"
  "digit 4 = CHR ''4''" "digit 5 = CHR ''5''" "digit 6 = CHR ''6''" "digit 7 = CHR ''7''"
  "digit 8 = CHR ''8''" "digit 9 = CHR ''9''"
  by (simp_all add: digit_def char_of_def bit_0)

lemma is_digit_digit [simp]: "n < 10 \<Longrightarrow> is_digit (digit n)"
  by (simp add: is_digit_def of_char_digit)

lemma digit_val_digit [simp]: "n < 10 \<Longrightarrow> digit_val (digit n) = n"
  by (simp add: digit_val_def of_char_digit)

lemma show_nat_not_Nil [simp]: "show_nat n \<noteq> []"
  by (subst show_nat.simps) simp

lemma show_nat_digits: "c \<in> set (show_nat n) \<Longrightarrow> is_digit c"
proof (induction n rule: show_nat.induct)
  case (1 n)
  then show ?case by (subst (asm) show_nat.simps) (auto split: if_splits)
qed

lemma read_nat_snoc [simp]: "read_nat (s @ [c]) = read_nat s * 10 + digit_val c"
  by (simp add: read_nat_def)

lemma read_show_nat [simp]: "read_nat (show_nat n) = n"
proof (induction n rule: show_nat.induct)
  case (1 n)
  then show ?case
    by (subst show_nat.simps) (auto simp: read_nat_def [of "[_]"])
qed

lemma show_nat_inject [simp]: "show_nat m = show_nat n \<longleftrightarrow> m = n"
  by (metis read_show_nat)

lemma ParseUint_FormatUint [simp]: "ParseUint (FormatUint w) = Some w"
  using unsigned_less [of w, where ?'a = nat]
  by (auto simp: ParseUint_def FormatUint_def list_all_iff show_nat_digits)

lemma FormatUint_inject [simp]: "FormatUint v = FormatUint w \<longleftrightarrow> v = w"
  by (metis ParseUint_FormatUint option.inject)

lemma FormatUint_digits: "c \<in> set (FormatUint w) \<Longrightarrow> is_digit c"
  by (simp add: FormatUint_def show_nat_digits)

lemma is_digit_neq [simp]:
  "is_digit c \<Longrightarrow> c \<noteq> CHR ''_''" "is_digit c \<Longrightarrow> c \<noteq> CHR '':''"
  "is_digit c \<Longrightarrow> c \<noteq> CHR ''[''" "is_digit c \<Longrightarrow> c \<noteq> CHR '']''"
  by (auto simp: is_digit_def)

section \<open>Searching for a byte\<close>

text \<open>\<open>strings.Index\<close> and \<open>strings.LastIndex\<close> of a one-byte string; \<open>-1\<close> when absent.\<close>

definition Index :: "string \<Rightarrow> char \<Rightarrow> int" where
  "Index s c = (if c \<in> set s then int (length (takeWhile (\<lambda>x. x \<noteq> c) s)) else - 1)"

definition LastIndex :: "string \<Rightarrow> char \<Rightarrow> int" where
  "LastIndex s c =
     (if c \<in> set s then int (length s) - 1 - int (length (takeWhile (\<lambda>x. x \<noteq> c) (rev s)))
      else - 1)"

lemma LastIndex_append: "c \<notin> set t \<Longrightarrow> LastIndex (s @ c # t) c = int (length s)"
proof -
  assume "c \<notin> set t"
  then have "takeWhile (\<lambda>x. x \<noteq> c) (rev t @ c # rev s) = rev t"
    by (subst takeWhile_append2) auto
  then show ?thesis by (simp add: LastIndex_def)
qed

lemma LastIndex_absent: "LastIndex s c < 0 \<longleftrightarrow> c \<notin> set s"
proof (cases "c \<in> set s")
  case True
  then obtain xs ys where "s = xs @ c # ys" "c \<notin> set ys"
    using split_list_last [of c s] by blast
  then show ?thesis by (simp add: LastIndex_append)
qed (simp add: LastIndex_def)

section \<open>Scanning lines\<close>

text \<open>
  \<open>bufio.Scanner\<close> with its default split function and buffer limit: fields between newlines,
  each without one trailing carriage return, no empty last line; a line that does not fit the
  65536-byte buffer stops the scan with an error (\<open>None\<close>).
\<close>

definition dropCR :: "string \<Rightarrow> string" where
  "dropCR l = (if l \<noteq> [] \<and> last l = CHR 0x0D then butlast l else l)"

definition scan_lines :: "bytes \<Rightarrow> string list option" where
  "scan_lines b =
     (let raw = Split b (CHR 0x0A);
          ls = (if last raw = [] then butlast raw else raw)
      in if list_all (\<lambda>l. length l < 65536) ls then Some (map dropCR ls) else None)"

section \<open>Host and port\<close>

text \<open>\<open>net.JoinHostPort\<close>: a host with a colon in it is bracketed.\<close>

definition JoinHostPort :: "string \<Rightarrow> string \<Rightarrow> string" where
  "JoinHostPort host port =
     (if CHR '':'' \<in> set host then ''['' @ host @ '']:'' @ port else host @ '':'' @ port)"

text \<open>
  \<open>net.SplitHostPort\<close>; the error carries the address and the reason, as
  \<open>net.AddrError\<close> prints them.
\<close>

definition addrErr :: "string \<Rightarrow> string \<Rightarrow> gerror" where
  "addrErr addr why = (if addr = [] then why else ''address '' @ addr @ '': '' @ why)"

definition SplitHostPort :: "string \<Rightarrow> gerror + (string \<times> string)" where
  "SplitHostPort hp =
    (let i = LastIndex hp (CHR '':'');
         missingPort = Inl (addrErr hp ''missing port in address'');
         tooMany = Inl (addrErr hp ''too many colons in address'');
         rest = (\<lambda>host j k.
           if CHR ''['' \<in> set (drop j hp) then Inl (addrErr hp ''unexpected '[' in address'')
           else if CHR '']'' \<in> set (drop k hp) then Inl (addrErr hp ''unexpected ']' in address'')
           else Inr (host, drop (nat (i + 1)) hp))
     in if i < 0 then missingPort
        else if hd hp = CHR ''['' then
          (let e = Index hp (CHR '']'')
           in if e < 0 then Inl (addrErr hp ''missing ']' in address'')
              else if e + 1 = int (length hp) then missingPort
              else if e + 1 = i then rest (take (nat e - 1) (drop 1 hp)) 1 (nat (e + 1))
              else if hp ! nat (e + 1) = CHR '':'' then tooMany
              else missingPort)
        else (let host = take (nat i) hp
              in if CHR '':'' \<in> set host then tooMany else rest host 0 0))"

lemma JoinHostPort_not_Nil [simp]: "JoinHostPort h p \<noteq> []"
  by (simp add: JoinHostPort_def)

lemma SplitHostPort_JoinHostPort:
  assumes "CHR ''['' \<notin> set h" and "CHR '']'' \<notin> set h"
    and "CHR '':'' \<notin> set p" and "CHR ''['' \<notin> set p" and "CHR '']'' \<notin> set p"
  shows "SplitHostPort (JoinHostPort h p) = Inr (h, p)"
proof (cases "CHR '':'' \<in> set h")
  case True
  let ?hp = "''['' @ h @ '']:'' @ p"
  have l: "LastIndex ?hp (CHR '':'') = int (length h) + 2"
    using LastIndex_append [of "CHR '':''" p "''['' @ h @ '']''"] assms(3) by simp
  have "takeWhile (\<lambda>x. x \<noteq> CHR '']'') (h @ CHR '']'' # CHR '':'' # p) = h"
    by (subst takeWhile_append2) (use assms(2) in auto)
  then have i: "Index ?hp (CHR '']'') = int (length h) + 1" by (simp add: Index_def)
  show ?thesis
    using True assms l i
    by (simp add: JoinHostPort_def SplitHostPort_def Let_def nat_add_distrib numeral_3_eq_3)
next
  case False
  have l: "LastIndex (h @ '':'' @ p) (CHR '':'') = int (length h)"
    using LastIndex_append [of "CHR '':''" p h] assms(3) by simp
  have "hd (h @ '':'' @ p) \<noteq> CHR ''[''" using assms(1) by (cases h) auto
  then show ?thesis
    using False assms l by (simp add: JoinHostPort_def SplitHostPort_def Let_def nat_add_distrib)
qed

section \<open>Scanning an integer\<close>

text \<open>
  \<open>fmt.Sscanf(s, "%d", &p)\<close> for a 64-bit \<open>int\<close>: white space except newlines is skipped, then a
  sign and the longest run of digits are read; what follows is not looked at.
\<close>

definition blank_seqs :: "string list" where
  "blank_seqs = filter (\<lambda>p. p \<noteq> [CHR 0x0A]) space_seqs"

definition scan_sign :: "string \<Rightarrow> bool \<times> string" where
  "scan_sign s =
     (if s \<noteq> [] \<and> hd s = CHR ''-'' then (True, tl s)
      else if s \<noteq> [] \<and> hd s = CHR ''+'' then (False, tl s) else (False, s))"

definition Sscanf_d :: "string \<Rightarrow> int option" where
  "Sscanf_d s =
     (let (neg, r) = scan_sign (trim_left blank_seqs s);
          tok = takeWhile is_digit r;
          v = (if neg then - int (read_nat tok) else int (read_nat tok))
      in if tok = [] \<or> v < - (2 ^ 63) \<or> 2 ^ 63 \<le> v then None else Some v)"

lemma trim_left_visible:
  assumes "s \<noteq> []" and "visible (hd s)" and "set seqs \<subseteq> set space_seqs"
  shows "trim_left seqs s = s"
proof -
  have "\<not> prefix p s" if "p \<in> set seqs" for p
    using that assms space_seqs_invisible [of p] space_seqs_not_Nil [of p] by (auto simp: prefix_def)
  then have "find (\<lambda>p. p \<noteq> [] \<and> prefix p s) seqs = None" by (auto simp: find_None_iff)
  then show ?thesis by (subst trim_left.simps) simp
qed

lemma is_digit_visible: "is_digit c \<Longrightarrow> visible c"
  by (simp add: is_digit_def visible_def)

lemma Sscanf_d_show:
  assumes "n < 2 ^ 63" and "rest = [] \<or> \<not> is_digit (hd rest)"
  shows "Sscanf_d (show_nat n @ rest) = Some (int n)"
proof -
  have d: "list_all is_digit (show_nat n)" by (simp add: list_all_iff show_nat_digits)
  then have h: "is_digit (hd (show_nat n))" by (cases "show_nat n") auto
  then have "trim_left blank_seqs (show_nat n @ rest) = show_nat n @ rest"
    by (intro trim_left_visible) (auto simp: is_digit_visible blank_seqs_def)
  moreover have "scan_sign (show_nat n @ rest) = (False, show_nat n @ rest)"
    using h by (auto simp: scan_sign_def is_digit_def)
  moreover have "takeWhile is_digit (show_nat n @ rest) = show_nat n"
    using d assms(2) by (cases rest) (auto simp: list_all_iff takeWhile_append takeWhile_eq_all_conv [THEN iffD2])
  moreover have "int n < 2 ^ 63" using assms(1) by (metis of_nat_less_numeral_power_cancel_iff)
  ultimately show ?thesis by (simp add: Sscanf_d_def)
qed

end
