(* ===== verification/GoBase64.thy ===== *)
theory GoBase64
  imports Prelude
begin

text \<open>
  \<open>base64.StdEncoding\<close>, the form in which \<open>encoding/json\<close> carries a \<open>[]byte\<close>: the
  64-character alphabet with padding. As in Go, the decoder skips newlines and carriage
  returns, refuses data after padding and ignores the unused low bits of a last group. The
  round trip (\<open>b64_round_trip\<close>) holds for every byte sequence.
\<close>

definition enc6 :: "nat \<Rightarrow> char" where
  "enc6 n =
     (if n < 26 then char_of (65 + n)
      else if n < 52 then char_of (71 + n)
      else if n < 62 then char_of (n - 4)
      else if n = 62 then CHR ''+'' else CHR ''/'')"

definition dec6 :: "char \<Rightarrow> nat option" where
  "dec6 c =
     (let n = (of_char c :: nat) in
      if 65 \<le> n \<and> n \<le> 90 then Some (n - 65)
      else if 97 \<le> n \<and> n \<le> 122 then Some (n - 71)
      else if 48 \<le> n \<and> n \<le> 57 then Some (n + 4)
      else if n = 43 then Some 62
      else if n = 47 then Some 63
      else None)"

abbreviation byte :: "char \<Rightarrow> nat" where
  "byte c \<equiv> of_char c"

fun b64_encode :: "bytes \<Rightarrow> string" where
  "b64_encode [] = []"
| "b64_encode [a] = [enc6 (byte a div 4), enc6 (byte a mod 4 * 16), CHR ''='', CHR ''='']"
| "b64_encode [a, b] =
     [enc6 (byte a div 4), enc6 (byte a mod 4 * 16 + byte b div 16),
      enc6 (byte b mod 16 * 4), CHR ''='']"
| "b64_encode (a # b # c # r) =
     enc6 (byte a div 4) # enc6 (byte a mod 4 * 16 + byte b div 16)
     # enc6 (byte b mod 16 * 4 + byte c div 64) # enc6 (byte c mod 64) # b64_encode r"

fun b64_groups :: "string \<Rightarrow> bytes option" where
  "b64_groups [] = Some []"
| "b64_groups (w # x # y # z # r) =
     (case (dec6 w, dec6 x) of
        (Some p, Some q) \<Rightarrow>
          if y = CHR ''='' then
            (if z = CHR ''='' \<and> r = [] then Some [char_of (p * 4 + q div 16)] else None)
          else (case dec6 y of
              None \<Rightarrow> None
            | Some s \<Rightarrow>
                if z = CHR ''='' then
                  (if r = [] then
                     Some [char_of (p * 4 + q div 16), char_of (q mod 16 * 16 + s div 4)]
                   else None)
                else (case dec6 z of
                    None \<Rightarrow> None
                  | Some t \<Rightarrow>
                      map_option (\<lambda>b. char_of (p * 4 + q div 16)
                        # char_of (q mod 16 * 16 + s div 4)
                        # char_of (s mod 4 * 64 + t) # b) (b64_groups r)))
      | _ \<Rightarrow> None)"
| "b64_groups _ = None"

definition b64_decode :: "string \<Rightarrow> bytes option" where
  "b64_decode s = b64_groups (filter (\<lambda>c. c \<noteq> CHR 0x0A \<and> c \<noteq> CHR 0x0D) s)"

lemma byte_enc6:
  "n < 64 \<Longrightarrow> byte (enc6 n) =
     (if n < 26 then 65 + n else if n < 52 then 71 + n else if n < 62 then n - 4
      else if n = 62 then 43 else 47)"
  by (simp add: enc6_def)

lemma enc6_facts:
  assumes "n < 64"
  shows "dec6 (enc6 n) = Some n" and "enc6 n \<noteq> CHR ''=''"
    and "enc6 n \<noteq> CHR 0x0A" and "enc6 n \<noteq> CHR 0x0D" and "byte (enc6 n) < 128"
proof -
  show "dec6 (enc6 n) = Some n" using assms by (auto simp: dec6_def byte_enc6 Let_def)
  show "byte (enc6 n) < 128" using assms by (auto simp: byte_enc6)
  have "byte (enc6 n) \<notin> {61, 10, 13}" using assms by (auto simp: byte_enc6)
  then show "enc6 n \<noteq> CHR ''=''" "enc6 n \<noteq> CHR 0x0A" "enc6 n \<noteq> CHR 0x0D" by auto
qed

lemma byte_lt: "byte c < 256"
  by simp

lemma sixbit_bounds [simp]:
  "byte a div 4 < 64" "byte a mod 4 * 16 < 64" "byte a mod 4 * 16 + byte b div 16 < 64"
  "byte b mod 16 * 4 < 64" "byte b mod 16 * 4 + byte c div 64 < 64"
  using byte_lt [of a] byte_lt [of b] byte_lt [of c] by linarith+

lemma b64_encode_no_newline:
  "c \<in> set (b64_encode b) \<Longrightarrow> c \<noteq> CHR 0x0A \<and> c \<noteq> CHR 0x0D \<and> byte c < 128"
  by (induction b rule: b64_encode.induct) (auto simp: enc6_facts)

lemma nibble_bytes:
  fixes b :: nat
  assumes "b < 256"
  shows "b div 16 div 16 = 0" and "b div 16 mod 16 * 16 + b mod 16 = b"
    and "b div 64 div 4 = 0" and "b div 64 mod 4 * 64 + b mod 64 = b"
  using assms by (simp_all add: div_less)

lemma b64_groups_encode: "b64_groups (b64_encode b) = Some b"
  by (induction b rule: b64_encode.induct) (simp_all add: enc6_facts nibble_bytes byte_lt)

lemma b64_round_trip [simp]: "b64_decode (b64_encode b) = Some b"
proof -
  have "filter (\<lambda>c. c \<noteq> CHR 0x0A \<and> c \<noteq> CHR 0x0D) (b64_encode b) = b64_encode b"
    by (rule filter_True) (auto dest: b64_encode_no_newline)
  then show ?thesis by (simp add: b64_decode_def b64_groups_encode)
qed

end
