(* ===== verification/GoJson.thy ===== *)
theory GoJson
  imports GoStrings GoBase64
begin

text \<open>
  \<open>encoding/json\<close> as the program uses it. The text layer: JSON values, the compact text
  \<open>Marshal\<close> writes (with Go's escapes, its HTML escapes and its replacement of invalid UTF-8),
  and the parser \<open>Unmarshal\<close> runs first. The value layer: decoders into Go types with Go's
  rules (keys match fields up to case, unknown keys are skipped, \<open>null\<close> leaves a field alone,
  a type mismatch is reported but decoding goes on). The main facts are the round trips
  \<open>parse_str_quote\<close> and \<open>json_parse_show\<close>.
\<close>

section \<open>UTF-8\<close>

text \<open>
  The length of the well-formed UTF-8 sequence at the head of a byte string, by the table of
  \<open>unicode/utf8\<close>; \<open>None\<close> where \<open>DecodeRune\<close> reports an invalid byte.
\<close>

definition cont :: "char \<Rightarrow> bool" where
  "cont c \<longleftrightarrow> 0x80 \<le> byte c \<and> byte c \<le> 0xBF"

fun utf8_size :: "bytes \<Rightarrow> nat option" where
  "utf8_size [] = None"
| "utf8_size (a # s) =
     (let n = byte a in
      if n < 0x80 then Some 1
      else if 0xC2 \<le> n \<and> n \<le> 0xDF then
        (case s of b # _ \<Rightarrow> if cont b then Some 2 else None | _ \<Rightarrow> None)
      else if 0xE0 \<le> n \<and> n \<le> 0xEF then
        (case s of
           b # c # _ \<Rightarrow>
             if cont b \<and> cont c \<and> (n = 0xE0 \<longrightarrow> 0xA0 \<le> byte b) \<and> (n = 0xED \<longrightarrow> byte b \<le> 0x9F)
             then Some 3 else None
         | _ \<Rightarrow> None)
      else if 0xF0 \<le> n \<and> n \<le> 0xF4 then
        (case s of
           b # c # d # _ \<Rightarrow>
             if cont b \<and> cont c \<and> cont d
                \<and> (n = 0xF0 \<longrightarrow> 0x90 \<le> byte b) \<and> (n = 0xF4 \<longrightarrow> byte b \<le> 0x8F)
             then Some 4 else None
         | _ \<Rightarrow> None)
      else None)"

lemma utf8_size_bounds: "utf8_size s = Some n \<Longrightarrow> 1 \<le> n \<and> n \<le> length s"
  by (cases s) (auto simp: Let_def split: if_splits list.splits)

lemma utf8_size_ascii [simp]: "byte a < 0x80 \<Longrightarrow> utf8_size (a # s) = Some 1"
  by simp

lemma utf8_size_append: "utf8_size s = Some n \<Longrightarrow> utf8_size (s @ t) = Some n"
  by (cases s) (auto simp: Let_def split: if_splits list.splits)

declare utf8_size.simps(2) [simp del]

function valid_utf8 :: "bytes \<Rightarrow> bool" where
  "valid_utf8 s =
     (s = [] \<or> (case utf8_size s of None \<Rightarrow> False | Some n \<Rightarrow> valid_utf8 (drop n s)))"
  by pat_completeness auto
termination
  by (relation "measure length") (auto dest!: utf8_size_bounds)

declare valid_utf8.simps [simp del]

lemma valid_utf8_Nil [simp]: "valid_utf8 []"
  by (subst valid_utf8.simps) simp

lemma valid_utf8_ascii [simp]: "byte a < 0x80 \<Longrightarrow> valid_utf8 (a # s) \<longleftrightarrow> valid_utf8 s"
  by (subst valid_utf8.simps) simp

lemma valid_utf8_all_ascii: "\<forall>c \<in> set s. byte c < 0x80 \<Longrightarrow> valid_utf8 s"
  by (induction s) auto

text \<open>\<open>utf8.EncodeRune\<close> for the code points a \<open>\u\<close> escape can denote.\<close>

definition replacement :: bytes where
  "replacement = [CHR 0xEF, CHR 0xBF, CHR 0xBD]"

definition encode_rune :: "nat \<Rightarrow> bytes" where
  "encode_rune n =
     (if n < 0x80 then [char_of n]
      else if n < 0x800 then [char_of (0xC0 + n div 64), char_of (0x80 + n mod 64)]
      else if (0xD800 \<le> n \<and> n < 0xE000) \<or> 0x10FFFF < n then replacement
      else if n < 0x10000 then
        [char_of (0xE0 + n div 4096), char_of (0x80 + n div 64 mod 64), char_of (0x80 + n mod 64)]
      else
        [char_of (0xF0 + n div 262144), char_of (0x80 + n div 4096 mod 64),
         char_of (0x80 + n div 64 mod 64), char_of (0x80 + n mod 64)])"

section \<open>String literals\<close>

definition hex :: "nat \<Rightarrow> char" where
  "hex n = (if n < 10 then char_of (48 + n) else char_of (87 + n))"

definition hex_val :: "char \<Rightarrow> nat option" where
  "hex_val c =
     (let n = byte c in
      if 48 \<le> n \<and> n \<le> 57 then Some (n - 48)
      else if 97 \<le> n \<and> n \<le> 102 then Some (n - 87)
      else if 65 \<le> n \<and> n \<le> 70 then Some (n - 55)
      else None)"

text \<open>How \<open>Marshal\<close> writes one ASCII byte.\<close>

definition esc :: "char \<Rightarrow> string" where
  "esc c =
     (if c = CHR 0x22 \<or> c = CHR 0x5C then [CHR 0x5C, c]
      else if c = CHR 0x08 then [CHR 0x5C, CHR ''b'']
      else if c = CHR 0x0C then [CHR 0x5C, CHR ''f'']
      else if c = CHR 0x0A then [CHR 0x5C, CHR ''n'']
      else if c = CHR 0x0D then [CHR 0x5C, CHR ''r'']
      else if c = CHR 0x09 then [CHR 0x5C, CHR ''t'']
      else if byte c < 0x20 \<or> c = CHR ''<'' \<or> c = CHR ''>'' \<or> c = CHR ''&'' then
        [CHR 0x5C, CHR ''u'', CHR ''0'', CHR ''0'', hex (byte c div 16), hex (byte c mod 16)]
      else [c])"

function quote_body :: "string \<Rightarrow> string" where
  "quote_body [] = []"
| "quote_body (c # s) =
     (if byte c < 0x80 then esc c @ quote_body s
      else (case utf8_size (c # s) of
          None \<Rightarrow> [CHR 0x5C] @ ''ufffd'' @ quote_body s
        | Some n \<Rightarrow>
            (if take n (c # s) = [CHR 0xE2, CHR 0x80, CHR 0xA8] then [CHR 0x5C] @ ''u2028''
             else if take n (c # s) = [CHR 0xE2, CHR 0x80, CHR 0xA9] then [CHR 0x5C] @ ''u2029''
             else take n (c # s)) @ quote_body (drop n (c # s))))"
  by pat_completeness auto
termination
  by (relation "measure length") (auto dest!: utf8_size_bounds)

definition quote :: "string \<Rightarrow> string" where
  "quote s = CHR 0x22 # quote_body s @ [CHR 0x22]"

text \<open>
  Reading a literal after its opening quote: the decoded string and the text after the
  closing quote. Control bytes and unknown escapes are syntax errors.
\<close>

fun u4 :: "string \<Rightarrow> (nat \<times> string) option" where
  "u4 (a # b # c # d # s) =
     (case (hex_val a, hex_val b, hex_val c, hex_val d) of
        (Some w, Some x, Some y, Some z) \<Rightarrow> Some (((w * 16 + x) * 16 + y) * 16 + z, s)
      | _ \<Rightarrow> None)"
| "u4 _ = None"

text \<open>A \<open>\u\<close> escape, with the second half of a surrogate pair when it follows.\<close>

definition read_u :: "string \<Rightarrow> (bytes \<times> string) option" where
  "read_u s =
     (case u4 s of
        None \<Rightarrow> None
      | Some (r, t) \<Rightarrow>
          if 0xD800 \<le> r \<and> r < 0xDC00 then
            (case t of
               p # q # t' \<Rightarrow>
                 if p = CHR 0x5C \<and> q = CHR ''u'' then
                   (case u4 t' of
                      Some (r2, t'') \<Rightarrow>
                        if 0xDC00 \<le> r2 \<and> r2 < 0xE000
                        then Some (encode_rune ((r - 0xD800) * 1024 + (r2 - 0xDC00) + 0x10000), t'')
                        else Some (replacement, t)
                    | None \<Rightarrow> Some (replacement, t))
                 else Some (replacement, t)
             | _ \<Rightarrow> Some (replacement, t))
          else Some (encode_rune r, t))"

definition unesc :: "char \<Rightarrow> char option" where
  "unesc c =
     (if c = CHR 0x22 \<or> c = CHR 0x5C \<or> c = CHR ''/'' then Some c
      else if c = CHR ''b'' then Some (CHR 0x08)
      else if c = CHR ''f'' then Some (CHR 0x0C)
      else if c = CHR ''n'' then Some (CHR 0x0A)
      else if c = CHR ''r'' then Some (CHR 0x0D)
      else if c = CHR ''t'' then Some (CHR 0x09)
      else None)"

lemma u4_shorter: "u4 s = Some (n, t) \<Longrightarrow> length t < length s"
  by (induction s rule: u4.induct) (auto split: option.splits)

lemma read_u_shorter: "read_u s = Some (b, t) \<Longrightarrow> length t < length s"
  by (auto simp: read_u_def split: option.splits prod.splits if_splits list.splits dest!: u4_shorter)

function parse_str :: "string \<Rightarrow> (string \<times> string) option" where
  "parse_str [] = None"
| "parse_str (c # s) =
     (if c = CHR 0x22 then Some ([], s)
      else if c = CHR 0x5C then
        (case s of
           [] \<Rightarrow> None
         | e # s' \<Rightarrow>
             if e = CHR ''u'' then
               (case read_u s' of
                  None \<Rightarrow> None
                | Some (b, t) \<Rightarrow> map_option (apfst (append b)) (parse_str t))
             else (case unesc e of
                 None \<Rightarrow> None
               | Some b \<Rightarrow> map_option (apfst (Cons b)) (parse_str s')))
      else if byte c < 0x20 then None
      else (case utf8_size (c # s) of
          None \<Rightarrow> map_option (apfst (append replacement)) (parse_str s)
        | Some n \<Rightarrow> map_option (apfst (append (take n (c # s)))) (parse_str (drop n (c # s)))))"
  by pat_completeness auto
termination
  by (relation "measure length") (auto dest!: utf8_size_bounds read_u_shorter)

subsection \<open>Round trip of string literals\<close>

lemma utf8_size_take: "utf8_size s = Some n \<Longrightarrow> utf8_size (take n s @ t) = Some n"
  by (cases s)
    (auto simp: utf8_size.simps Let_def numeral_eq_Suc split: if_splits list.splits)

lemma hex_val_hex: "n < 16 \<Longrightarrow> hex_val (hex n) = Some n"
  by (auto simp: hex_val_def hex_def Let_def)

lemma char_of_byte_split: "byte c < 0x80 \<Longrightarrow> char_of (byte c div 16 * 16 + byte c mod 16) = c"
  by simp

lemma parse_str_ascii:
  "0x20 \<le> byte c \<Longrightarrow> byte c < 0x80 \<Longrightarrow> c \<noteq> CHR 0x22 \<Longrightarrow> c \<noteq> CHR 0x5C \<Longrightarrow>
   parse_str (c # t) = map_option (apfst (Cons c)) (parse_str t)"
  by (simp add: apfst_def map_prod_def)

lemma read_u_ascii:
  assumes "byte c < 0x80"
  shows "read_u (CHR ''0'' # CHR ''0'' # hex (byte c div 16) # hex (byte c mod 16) # t) = Some ([c], t)"
proof -
  have h: "hex_val (CHR ''0'') = Some 0" by (simp add: hex_val_def)
  have "hex_val (hex (byte c div 16)) = Some (byte c div 16)"
    using assms by (intro hex_val_hex) simp
  moreover have "hex_val (hex (byte c mod 16)) = Some (byte c mod 16)"
    by (intro hex_val_hex) simp
  ultimately show ?thesis using assms h
    by (simp add: read_u_def encode_rune_def)
qed

lemma parse_str_esc:
  assumes "byte c < 0x80"
  shows "parse_str (esc c @ t) = map_option (apfst (Cons c)) (parse_str t)"
proof (cases "esc c = [c]")
  case True
  then show ?thesis
    using assms by (auto simp: esc_def parse_str_ascii simp del: parse_str.simps split: if_splits)
next
  case False
  then show ?thesis
    using assms read_u_ascii [OF assms, of t]
    by (auto simp: esc_def unesc_def apfst_def map_prod_def split: if_splits)
qed

lemma read_u_line_sep:
  "read_u (''2028'' @ t) = Some ([CHR 0xE2, CHR 0x80, CHR 0xA8], t)"
  "read_u (''2029'' @ t) = Some ([CHR 0xE2, CHR 0x80, CHR 0xA9], t)"
  by (simp_all add: read_u_def hex_val_def encode_rune_def char_of_eq_iff)

lemma parse_str_seq:
  assumes "utf8_size (c # s) = Some n" and "0x80 \<le> byte c"
  shows "parse_str (take n (c # s) @ t) = map_option (apfst (append (take n (c # s)))) (parse_str t)"
proof -
  have n: "1 \<le> n" "n \<le> length (c # s)" using utf8_size_bounds [OF assms(1)] by auto
  then obtain m where m: "n = Suc m" by (cases n) auto
  have sz: "utf8_size (c # take m s @ t) = Some n"
    using utf8_size_take [OF assms(1), of t] m by simp
  have "c \<noteq> CHR 0x22" "c \<noteq> CHR 0x5C" using assms(2) by auto
  then show ?thesis using assms(2) sz m n by simp
qed

lemma parse_str_quote_body:
  "valid_utf8 s \<Longrightarrow> parse_str (quote_body s @ CHR 0x22 # rest) = Some (s, rest)"
proof (induction s rule: quote_body.induct)
  case 1
  then show ?case by simp
next
  case (2 c s)
  show ?case
  proof (cases "byte c < 0x80")
    case True
    with 2 show ?thesis by (simp add: parse_str_esc)
  next
    case False
    from 2(4) obtain n where n: "utf8_size (c # s) = Some n" "valid_utf8 (drop n (c # s))"
      by (subst (asm) valid_utf8.simps) (auto split: option.splits)
    have IH: "parse_str (quote_body (drop n (c # s)) @ CHR 0x22 # rest) = Some (drop n (c # s), rest)"
      using 2(3) [OF False n(1) n(2)] .
    have cat: "take n (c # s) @ drop n (c # s) = c # s" by (rule append_take_drop_id)
    consider (ls) "take n (c # s) = [CHR 0xE2, CHR 0x80, CHR 0xA8]"
      | (ps) "take n (c # s) = [CHR 0xE2, CHR 0x80, CHR 0xA9]"
      | (other) "take n (c # s) \<noteq> [CHR 0xE2, CHR 0x80, CHR 0xA8]"
          "take n (c # s) \<noteq> [CHR 0xE2, CHR 0x80, CHR 0xA9]" by blast
    then show ?thesis
    proof cases
      case ls
      then show ?thesis using False n IH cat read_u_line_sep(1) by (simp del: drop.simps take.simps)
    next
      case ps
      then show ?thesis using False n IH cat read_u_line_sep(2) by (simp del: drop.simps take.simps)
    next
      case other
      have "quote_body (c # s) = take n (c # s) @ quote_body (drop n (c # s))"
        using False n other by simp
      then show ?thesis
        using parse_str_seq [OF n(1)] False IH cat by simp
    qed
  qed
qed

lemma parse_str_quote:
  assumes "valid_utf8 s"
  shows "parse_str (tl (quote s) @ rest) = Some (s, rest)"
  using parse_str_quote_body [OF assms, of rest] by (simp add: quote_def)

section \<open>Values and their text\<close>

text \<open>A number is kept as its literal text, as \<open>encoding/json\<close> does until it is stored.\<close>

datatype json =
    JNull
  | JBool bool
  | JNum string
  | JStr string
  | JArr "json list"
  | JObj "(string \<times> json) list"

text \<open>\<open>json.Marshal\<close> writes no white space; object keys are quoted like strings.\<close>

fun show_json :: "json \<Rightarrow> string" where
  "show_json JNull = ''null''"
| "show_json (JBool b) = (if b then ''true'' else ''false'')"
| "show_json (JNum s) = s"
| "show_json (JStr s) = quote s"
| "show_json (JArr js) = ''['' @ join_with (CHR '','') (map show_json js) @ '']''"
| "show_json (JObj kvs) =
     ''{'' @ join_with (CHR '','') (map (\<lambda>(k, v). quote k @ '':'' @ show_json v) kvs) @ ''}''"

definition is_ws :: "char \<Rightarrow> bool" where
  "is_ws c \<longleftrightarrow> c = CHR 0x20 \<or> c = CHR 0x09 \<or> c = CHR 0x0A \<or> c = CHR 0x0D"

abbreviation skip_ws :: "string \<Rightarrow> string" where
  "skip_ws s \<equiv> dropWhile is_ws s"

text \<open>A number literal: sign, integer part without leading zeros, fraction, exponent.\<close>

definition num_sign :: "string \<Rightarrow> string \<times> string" where
  "num_sign s = (case s of c # t \<Rightarrow> if c = CHR ''-'' then ([c], t) else ([], s) | [] \<Rightarrow> ([], s))"

definition num_int :: "string \<Rightarrow> (string \<times> string) option" where
  "num_int s =
     (case s of
        [] \<Rightarrow> None
      | c # t \<Rightarrow>
          if c = CHR ''0'' then Some ([c], t)
          else if is_digit c then Some (takeWhile is_digit s, dropWhile is_digit s)
          else None)"

definition num_frac :: "string \<Rightarrow> (string \<times> string) option" where
  "num_frac s =
     (case s of
        c # t \<Rightarrow>
          if c = CHR ''.'' then
            (if takeWhile is_digit t = [] then None
             else Some (c # takeWhile is_digit t, dropWhile is_digit t))
          else Some ([], s)
      | [] \<Rightarrow> Some ([], s))"

definition num_exp :: "string \<Rightarrow> (string \<times> string) option" where
  "num_exp s =
     (case s of
        c # t \<Rightarrow>
          if c = CHR ''e'' \<or> c = CHR ''E'' then
            (let (sg, u) = (case t of
                 d # t' \<Rightarrow> if d = CHR ''+'' \<or> d = CHR ''-'' then ([d], t') else ([], t)
               | [] \<Rightarrow> ([], t))
             in if takeWhile is_digit u = [] then None
                else Some (c # sg @ takeWhile is_digit u, dropWhile is_digit u))
          else Some ([], s)
      | [] \<Rightarrow> Some ([], s))"

definition parse_num :: "string \<Rightarrow> (string \<times> string) option" where
  "parse_num s =
     (let (sg, t) = num_sign s in
      case num_int t of
        None \<Rightarrow> None
      | Some (i, u) \<Rightarrow>
          (case num_frac u of
             None \<Rightarrow> None
           | Some (f, v) \<Rightarrow>
               (case num_exp v of
                  None \<Rightarrow> None
                | Some (e, w) \<Rightarrow> Some (sg @ i @ f @ e, w))))"

lemma skip_ws_shorter: "skip_ws s = c # t \<Longrightarrow> length t < length s"
  using length_dropWhile_le [of is_ws s] by simp

text \<open>
  The parser. Every recursive call is on a shorter text; the two tests \<open>length _ < length _\<close>
  hold whenever they are reached (\<open>parse_shorter\<close>) and make the termination plain.
\<close>

function parse_value :: "string \<Rightarrow> (json \<times> string) option"
  and parse_elems :: "string \<Rightarrow> (json list \<times> string) option"
  and parse_members :: "string \<Rightarrow> ((string \<times> json) list \<times> string) option" where
  "parse_value s =
     (case skip_ws s of
        [] \<Rightarrow> None
      | c # t \<Rightarrow>
          if c = CHR 0x22 then map_option (\<lambda>(x, r). (JStr x, r)) (parse_str t)
          else if c = CHR ''['' then
            (case skip_ws t of
               [] \<Rightarrow> None
             | d # r \<Rightarrow>
                 if d = CHR '']'' then Some (JArr [], r)
                 else map_option (\<lambda>(xs, r). (JArr xs, r)) (parse_elems t))
          else if c = CHR ''{'' then
            (case skip_ws t of
               [] \<Rightarrow> None
             | d # r \<Rightarrow>
                 if d = CHR ''}'' then Some (JObj [], r)
                 else map_option (\<lambda>(xs, r). (JObj xs, r)) (parse_members t))
          else if c = CHR ''-'' \<or> is_digit c then
            map_option (\<lambda>(x, r). (JNum x, r)) (parse_num (c # t))
          else if prefix ''true'' (c # t) then Some (JBool True, drop 4 (c # t))
          else if prefix ''false'' (c # t) then Some (JBool False, drop 5 (c # t))
          else if prefix ''null'' (c # t) then Some (JNull, drop 4 (c # t))
          else None)"
| "parse_elems s =
     (case parse_value s of
        None \<Rightarrow> None
      | Some (v, r) \<Rightarrow>
          (case skip_ws r of
             [] \<Rightarrow> None
           | c # r' \<Rightarrow>
               if c = CHR '']'' then Some ([v], r')
               else if c = CHR '','' \<and> length r' < length s then
                 map_option (apfst (Cons v)) (parse_elems r')
               else None))"
| "parse_members s =
     (case skip_ws s of
        [] \<Rightarrow> None
      | q # t \<Rightarrow>
          if q \<noteq> CHR 0x22 then None
          else (case parse_str t of
              None \<Rightarrow> None
            | Some (k, r) \<Rightarrow>
                (case skip_ws r of
                   [] \<Rightarrow> None
                 | c # r' \<Rightarrow>
                     if c \<noteq> CHR '':'' \<or> \<not> length r' < length s then None
                     else (case parse_value r' of
                         None \<Rightarrow> None
                       | Some (v, u) \<Rightarrow>
                           (case skip_ws u of
                              [] \<Rightarrow> None
                            | d # u' \<Rightarrow>
                                if d = CHR ''}'' then Some ([(k, v)], u')
                                else if d = CHR '','' \<and> length u' < length s then
                                  map_option (apfst (Cons (k, v))) (parse_members u')
                                else None)))))"
  by pat_completeness auto
termination
  by (relation "measure (case_sum (\<lambda>s. 2 * length s)
        (case_sum (\<lambda>s. 2 * length s + 1) (\<lambda>s. 2 * length s + 1)))")
    (auto dest!: skip_ws_shorter)

definition json_parse :: "bytes \<Rightarrow> json option" where
  "json_parse b =
     (case parse_value b of
        None \<Rightarrow> None
      | Some (v, r) \<Rightarrow> if skip_ws r = [] then Some v else None)"

declare parse_value.simps [simp del] parse_elems.simps [simp del] parse_members.simps [simp del]

subsection \<open>The remaining text is always shorter\<close>

lemma parse_str_shorter: "parse_str s = Some (x, r) \<Longrightarrow> length r < length s"
proof (induction s arbitrary: x r rule: parse_str.induct)
  case (2 c s)
  then show ?case
    by (fastforce split: if_splits list.splits option.splits
        dest!: utf8_size_bounds dest: read_u_shorter simp: numeral_eq_Suc)
qed simp

lemma parse_num_shorter: "parse_num s = Some (x, r) \<Longrightarrow> length r < length s"
proof -
  assume a: "parse_num s = Some (x, r)"
  obtain sg t where 1: "num_sign s = (sg, t)" by (cases "num_sign s")
  from a 1 obtain i u f v e where 2: "num_int t = Some (i, u)" "num_frac u = Some (f, v)"
      "num_exp v = Some (e, r)"
    by (auto simp: parse_num_def split: option.splits)
  have "length t \<le> length s" using 1 by (auto simp: num_sign_def split: list.splits if_splits)
  moreover have "length u < length t"
    using 2(1) by (auto simp: num_int_def less_Suc_eq_le length_dropWhile_le
        split: list.splits if_splits)
  moreover have "length v \<le> length u"
    using 2(2) by (auto simp: num_frac_def le_SucI length_dropWhile_le split: list.splits if_splits)
  moreover have "length r \<le> length v"
    using 2(3) by (auto simp: num_exp_def Let_def le_SucI length_dropWhile_le
        split: list.splits if_splits)
  ultimately show ?thesis by simp
qed

lemma parse_shorter:
  "parse_value s = Some (v, r) \<Longrightarrow> length r < length s"
  "parse_elems s1 = Some (vs, r1) \<Longrightarrow> length r1 < length s1"
  "parse_members s2 = Some (ms, r2) \<Longrightarrow> length r2 < length s2"
proof (induction s and s1 and s2 arbitrary: v r and vs r1 and ms r2
    rule: parse_value_parse_elems_parse_members.induct)
  case (1 s)
  show ?case
  proof (cases "skip_ws s")
    case (Cons c t)
    have "length (c # t) \<le> length s" using Cons length_dropWhile_le [of is_ws s] by simp
    moreover have "length r < length (c # t)"
    proof -
      note eq = 1(3) [unfolded parse_value.simps [of s] Cons]
      consider "c = CHR 0x22" | "c = CHR ''[''" | "c = CHR ''{''"
        | "c \<noteq> CHR 0x22" "c \<noteq> CHR ''[''" "c \<noteq> CHR ''{''" by blast
      then show ?thesis
      proof cases
        case 1
        then show ?thesis using eq by (auto dest: parse_str_shorter)
      next
        case 2
        then show ?thesis using eq "1.IH"(1) [OF Cons]
          by (auto split: list.splits if_splits dest!: skip_ws_shorter intro: less_SucI)
      next
        case 3
        then show ?thesis using eq "1.IH"(2) [OF Cons]
          by (auto split: list.splits if_splits dest!: skip_ws_shorter intro: less_SucI)
      next
        case 4
        show ?thesis
        proof (cases "c = CHR ''-'' \<or> is_digit c")
          case True
          then have "\<exists>x. parse_num (c # t) = Some (x, r)" using 4 eq by auto
          then show ?thesis using parse_num_shorter by blast
        next
          case False
          then have "r = drop 4 (c # t) \<or> r = drop 5 (c # t)"
            using 4 eq by (simp only: list.case if_False simp_thms option.inject prod.inject
                option.distinct split: if_split_asm)
          then show ?thesis by auto
        qed
      qed
    qed
    ultimately show ?thesis by simp
  next
    case Nil
    from 1(3) [unfolded parse_value.simps [of s] Nil] show ?thesis by simp
  qed
next
  case (2 s)
  then show ?case unfolding parse_elems.simps [of s]
    by (fastforce split: if_splits list.splits option.splits dest!: skip_ws_shorter)
next
  case (3 s)
  from 3(3) [unfolded parse_members.simps [of s]] obtain q t k r0 c r' v u d u' where
    eqs: "skip_ws s = q # t" "q = CHR 0x22" "parse_str t = Some (k, r0)" "skip_ws r0 = c # r'"
      "c = CHR '':''" "parse_value r' = Some (v, u)" "skip_ws u = d # u'"
    and r: "r2 = u' \<or> d = CHR '','' \<and> d \<noteq> CHR ''}'' \<and> (\<exists>ms'. parse_members u' = Some (ms', r2))"
    by (auto split: list.splits if_splits option.splits)
  have len: "length r' < length s"
    using skip_ws_shorter [OF eqs(1)] parse_str_shorter [OF eqs(3)] skip_ws_shorter [OF eqs(4)] by simp
  have u: "length u < length r'" using 3(1) eqs len by simp
  then have u': "length u' < length s" using skip_ws_shorter [OF eqs(7)] len by simp
  from r show ?case
  proof
    assume "d = CHR '','' \<and> d \<noteq> CHR ''}'' \<and> (\<exists>ms'. parse_members u' = Some (ms', r2))"
    then have "length r2 < length u'" using 3(2) eqs len u' by fastforce
    then show ?thesis using u' by simp
  qed (use u' in simp)
qed

subsection \<open>Round trip of values\<close>

text \<open>
  The values the program marshals: strings and keys in valid UTF-8 (Go replaces other bytes)
  and numbers that are unsigned decimal integers.
\<close>

fun json_ok :: "json \<Rightarrow> bool" where
  "json_ok JNull = True"
| "json_ok (JBool b) = True"
| "json_ok (JNum s) = (s = show_nat (read_nat s))"
| "json_ok (JStr s) = valid_utf8 s"
| "json_ok (JArr js) = list_all json_ok js"
| "json_ok (JObj kvs) = list_all (\<lambda>(k, v). valid_utf8 k \<and> json_ok v) kvs"

definition num_end :: "string \<Rightarrow> bool" where
  "num_end s \<longleftrightarrow> (case s of [] \<Rightarrow> True | c # _ \<Rightarrow>
     \<not> is_digit c \<and> c \<noteq> CHR ''.'' \<and> c \<noteq> CHR ''e'' \<and> c \<noteq> CHR ''E'')"

lemma digit_eq_zero: "n < 10 \<Longrightarrow> digit n = CHR ''0'' \<longleftrightarrow> n = 0"
proof -
  assume "n < 10"
  moreover have "digit_val (CHR ''0'') = 0" by (simp add: digit_val_def)
  moreover have "digit 0 = CHR ''0''" by (simp add: digit_def char_of_eq_iff)
  ultimately show ?thesis by (metis digit_val_digit)
qed

lemma is_digit_plain: "is_digit c \<Longrightarrow> \<not> is_ws c \<and> c \<noteq> CHR '']'' \<and> c \<noteq> CHR ''}''"
  by (auto simp: is_digit_def is_ws_def)

lemma show_nat_hd:
  "\<exists>c t. show_nat n = c # t \<and> is_digit c \<and> (c = CHR ''0'' \<longrightarrow> t = [] \<and> n = 0)"
proof -
  have z: "hd (show_nat n) = CHR ''0'' \<longrightarrow> n = 0"
  proof (induction n rule: show_nat.induct)
    case (1 n)
    show ?case
    proof (cases "n < 10")
      case True
      then show ?thesis
        by (subst show_nat.simps) (simp add: digit_eq_zero)
    next
      case False
      with 1 have "hd (show_nat (n div 10)) \<noteq> CHR ''0''" by auto
      then show ?thesis using False by (subst show_nat.simps) simp
    qed
  qed
  obtain c t where ct: "show_nat n = c # t" by (cases "show_nat n") auto
  have "c = CHR ''0'' \<longrightarrow> t = [] \<and> n = 0" using ct z by (auto simp: show_nat.simps [of 0])
  moreover have "is_digit c" using ct show_nat_digits [of c n] by simp
  ultimately show ?thesis using ct by blast
qed

lemma parse_num_show_nat:
  assumes "num_end rest"
  shows "parse_num (show_nat n @ rest) = Some (show_nat n, rest)"
proof -
  obtain c t where ct: "show_nat n = c # t" "is_digit c" "c = CHR ''0'' \<Longrightarrow> t = [] \<and> n = 0"
    using show_nat_hd [of n] by blast
  have dig: "\<forall>d \<in> set (c # t). is_digit d" using ct(1) show_nat_digits by metis
  have rest: "takeWhile is_digit rest = []" "dropWhile is_digit rest = rest"
    using assms by (auto simp: num_end_def split: list.splits)
  have "num_sign (c # t @ rest) = ([], c # t @ rest)"
    using ct(2) by (auto simp: num_sign_def is_digit_def)
  moreover have "num_int (c # t @ rest) = Some (c # t, rest)"
    using ct dig rest by (auto simp: num_int_def takeWhile_append2 dropWhile_append2)
  moreover have "num_frac rest = Some ([], rest)" "num_exp rest = Some ([], rest)"
    using assms by (auto simp: num_frac_def num_exp_def num_end_def split: list.splits)
  ultimately show ?thesis using ct(1) by (simp add: parse_num_def)
qed

lemma show_json_hd:
  assumes "json_ok j"
  shows "\<exists>c t. show_json j = c # t \<and> \<not> is_ws c \<and> c \<noteq> CHR '']''"
proof (cases j)
  case (JNum s)
  obtain c t where ct: "show_nat (read_nat s) = c # t" "is_digit c"
    using show_nat_hd [of "read_nat s"] by blast
  moreover have "show_json j = c # t" using JNum assms ct(1) by simp
  ultimately show ?thesis using is_digit_plain by blast
qed (auto simp: quote_def is_ws_def)

lemma parse_value_str:
  assumes "valid_utf8 s"
  shows "parse_value (quote s @ rest) = Some (JStr s, rest)"
  using parse_str_quote [OF assms, of rest]
  by (subst parse_value.simps) (simp add: quote_def is_ws_def)

lemma parse_value_num:
  assumes "num_end rest"
  shows "parse_value (show_nat n @ rest) = Some (JNum (show_nat n), rest)"
proof -
  obtain c t where ct: "show_nat n = c # t" "is_digit c" using show_nat_hd [of n] by blast
  then have "c \<noteq> CHR 0x22" "c \<noteq> CHR ''[''" "c \<noteq> CHR ''{''" "\<not> is_ws c"
    by (auto simp: is_digit_def is_ws_def)
  then show ?thesis
    using ct parse_num_show_nat [OF assms, of n]
    by (subst parse_value.simps) simp
qed

lemma num_end_sep [simp]: "num_end (CHR '','' # s)" "num_end (CHR '']'' # s)" "num_end (CHR ''}'' # s)"
  by (simp_all add: num_end_def is_digit_def)

lemma parse_elems_show:
  assumes "js \<noteq> []" and "list_all json_ok js"
    and "\<And>j rest. j \<in> set js \<Longrightarrow> num_end rest \<Longrightarrow> parse_value (show_json j @ rest) = Some (j, rest)"
  shows "parse_elems (join_with (CHR '','') (map show_json js) @ CHR '']'' # rest) = Some (js, rest)"
  using assms
proof (induction js)
  case (Cons j js)
  show ?case
  proof (cases js)
    case Nil
    then show ?thesis using Cons.prems
      by (subst parse_elems.simps) (simp add: is_ws_def)
  next
    case (Cons j' js')
    let ?tl = "join_with (CHR '','') (map show_json js) @ CHR '']'' # rest"
    have "parse_elems ?tl = Some (js, rest)" using Cons.IH Cons.prems Cons by simp
    moreover have "parse_value (show_json j @ CHR '','' # ?tl) = Some (j, CHR '','' # ?tl)"
      using Cons.prems by simp
    ultimately show ?thesis using Cons
      by (subst parse_elems.simps) (simp add: is_ws_def)
  qed
qed simp

lemma parse_members_step:
  assumes "valid_utf8 k" and "parse_value (show_json v @ u) = Some (v, u)"
  shows "parse_members (quote k @ CHR '':'' # show_json v @ u) =
    (case skip_ws u of
       [] \<Rightarrow> None
     | d # u' \<Rightarrow>
         if d = CHR ''}'' then Some ([(k, v)], u')
         else if d = CHR '','' \<and> length u' < length (quote k @ CHR '':'' # show_json v @ u) then
           map_option (apfst (Cons (k, v))) (parse_members u')
         else None)"
proof -
  obtain b where q: "quote k = CHR 0x22 # b" by (simp add: quote_def)
  have "parse_str (b @ CHR '':'' # show_json v @ u) = Some (k, CHR '':'' # show_json v @ u)"
    using parse_str_quote [OF assms(1), of "CHR '':'' # show_json v @ u"] q by simp
  then show ?thesis
    using assms(2) by (subst parse_members.simps) (simp add: q is_ws_def)
qed

lemma parse_members_show:
  assumes "kvs \<noteq> []" and "list_all (\<lambda>(k, v). valid_utf8 k \<and> json_ok v) kvs"
    and "\<And>k v rest. (k, v) \<in> set kvs \<Longrightarrow> num_end rest \<Longrightarrow>
      parse_value (show_json v @ rest) = Some (v, rest)"
  shows "parse_members (join_with (CHR '','') (map (\<lambda>(k, v). quote k @ '':'' @ show_json v) kvs)
      @ CHR ''}'' # rest) = Some (kvs, rest)"
  using assms
proof (induction kvs)
  case (Cons kv kvs)
  obtain k v where kv: "kv = (k, v)" by (cases kv)
  have k: "valid_utf8 k" using Cons.prems kv by simp
  have v: "num_end u \<Longrightarrow> parse_value (show_json v @ u) = Some (v, u)" for u
    using Cons.prems(3) [of k v] kv by simp
  show ?case
  proof (cases kvs)
    case Nil
    then show ?thesis using parse_members_step [OF k v] kv by (simp add: is_ws_def)
  next
    case (Cons p kvs')
    let ?tl = "join_with (CHR '','') (map (\<lambda>(k, v). quote k @ '':'' @ show_json v) kvs) @ CHR ''}'' # rest"
    have "parse_members ?tl = Some (kvs, rest)"
      using Cons.IH Cons.prems Cons by fastforce
    then show ?thesis using parse_members_step [OF k v, of "CHR '','' # ?tl"] kv Cons
      by (simp add: is_ws_def)
  qed
qed simp

lemma parse_value_show:
  "json_ok j \<Longrightarrow> num_end rest \<Longrightarrow> parse_value (show_json j @ rest) = Some (j, rest)"
proof (induction j arbitrary: rest rule: show_json.induct)
  case 1
  then show ?case by (subst parse_value.simps) (simp add: is_ws_def is_digit_def)
next
  case (2 b)
  then show ?case by (subst parse_value.simps) (simp add: is_ws_def is_digit_def)
next
  case (3 s)
  then show ?case using parse_value_num [of rest "read_nat s"] by simp
next
  case (4 s)
  then show ?case by (simp add: parse_value_str)
next
  case (5 js)
  show ?case
  proof (cases js)
    case Nil
    then show ?thesis by (subst parse_value.simps) (simp add: is_ws_def)
  next
    case (Cons j js')
    have ok: "list_all json_ok js" using 5 by simp
    let ?body = "join_with (CHR '','') (map show_json js) @ CHR '']'' # rest"
    have e: "parse_elems ?body = Some (js, rest)"
      using 5 Cons by (intro parse_elems_show) (auto simp: list_all_iff)
    obtain c t where ct: "show_json j = c # t" "\<not> is_ws c" "c \<noteq> CHR '']''"
      using show_json_hd [of j] ok Cons by (metis list.pred_inject(2))
    then obtain t' where "?body = c # t'" using Cons by (cases js') auto
    then show ?thesis using e ct
      by (subst parse_value.simps) (simp add: is_ws_def)
  qed
next
  case (6 kvs)
  show ?case
  proof (cases kvs)
    case Nil
    then show ?thesis by (subst parse_value.simps) (simp add: is_ws_def)
  next
    case (Cons kv kvs')
    let ?body = "join_with (CHR '','') (map (\<lambda>(k, v). quote k @ '':'' @ show_json v) kvs) @ CHR ''}'' # rest"
    have e: "parse_members ?body = Some (kvs, rest)"
    proof (rule parse_members_show)
      show "kvs \<noteq> []" using Cons by simp
      show "list_all (\<lambda>(k, v). valid_utf8 k \<and> json_ok v) kvs" using 6 by simp
      show "parse_value (show_json v @ r) = Some (v, r)" if "(k, v) \<in> set kvs" "num_end r" for k v r
      proof -
        have "json_ok v" using 6(2) that(1) by (auto simp: list_all_iff)
        with 6(1) [of "(k, v)" k v r] that show ?thesis by simp
      qed
    qed
    obtain t' where "?body = CHR 0x22 # t'"
      using Cons by (cases kvs'; cases kv) (auto simp: quote_def)
    then show ?thesis using e
      by (subst parse_value.simps) (simp add: is_ws_def)
  qed
qed

lemma json_parse_show: "json_ok j \<Longrightarrow> json_parse (show_json j) = Some j"
  using parse_value_show [of j "[]"] by (simp add: json_parse_def num_end_def)

declare show_json.simps [simp del]

section \<open>Decoding into Go values\<close>

text \<open>
  A decoder takes a JSON value and the Go value to store into, and returns the new value and
  whether no type error was met. Decoding goes on after a type error, so the value may be
  partly filled when the flag is \<open>False\<close>.
\<close>

type_synonym 'a decoder = "json \<Rightarrow> 'a \<Rightarrow> 'a \<times> bool"

fun dec_string :: "string decoder" where
  "dec_string (JStr s) old = (s, True)"
| "dec_string JNull old = (old, True)"
| "dec_string _ old = (old, False)"

fun dec_bool :: "bool decoder" where
  "dec_bool (JBool b) old = (b, True)"
| "dec_bool JNull old = (old, True)"
| "dec_bool _ old = (old, False)"

fun dec_uint64 :: "uint64 decoder" where
  "dec_uint64 (JNum s) old = (case ParseUint s of None \<Rightarrow> (old, False) | Some w \<Rightarrow> (w, True))"
| "dec_uint64 JNull old = (old, True)"
| "dec_uint64 _ old = (old, False)"

text \<open>An \<open>int\<close> field: an optional minus sign and digits, within \<open>int64\<close>.\<close>

definition ParseInt :: "string \<Rightarrow> int option" where
  "ParseInt s =
     (let (neg, t) = (case s of c # t \<Rightarrow> if c = CHR ''-'' then (True, t) else (False, s) | [] \<Rightarrow> (False, s))
      in if t = [] \<or> \<not> list_all is_digit t then None
         else let v = (if neg then - int (read_nat t) else int (read_nat t))
              in if - (2 ^ 63) \<le> v \<and> v < 2 ^ 63 then Some v else None)"

fun dec_int :: "int decoder" where
  "dec_int (JNum s) old = (case ParseInt s of None \<Rightarrow> (old, False) | Some v \<Rightarrow> (v, True))"
| "dec_int JNull old = (old, True)"
| "dec_int _ old = (old, False)"

text \<open>A \<open>[]byte\<close> field; a nil and an empty slice are not distinguished.\<close>

fun dec_bytes :: "bytes decoder" where
  "dec_bytes (JStr s) old = (case b64_decode s of None \<Rightarrow> (old, False) | Some b \<Rightarrow> (b, True))"
| "dec_bytes JNull old = ([], True)"
| "dec_bytes _ old = (old, False)"

text \<open>
  A \<open>map[string]string\<close> (\<open>None\<close> is the nil map): an object adds its entries to the map that is
  there, in order; an element that is no string stores the empty string, with the error
  noted, and so does a \<open>null\<close> element, without error.
\<close>

definition dec_entry :: "string \<times> json \<Rightarrow> (string, string) gomap \<times> bool \<Rightarrow> (string, string) gomap \<times> bool" where
  "dec_entry kv acc =
     (let r = dec_string (snd kv) [] in (gm_put (fst kv) (fst r) (fst acc), snd acc \<and> snd r))"

fun dec_map :: "(string, string) gomap option decoder" where
  "dec_map (JObj kvs) old =
     apfst Some (fold dec_entry kvs (case old of None \<Rightarrow> [] | Some m \<Rightarrow> m, True))"
| "dec_map JNull old = (None, True)"
| "dec_map _ old = (old, False)"

text \<open>A slice is filled afresh; each element starts from the zero value.\<close>

fun dec_list :: "'a decoder \<Rightarrow> 'a \<Rightarrow> 'a list decoder" where
  "dec_list d z (JArr js) old = (map (\<lambda>j. fst (d j z)) js, list_all (\<lambda>j. snd (d j z)) js)"
| "dec_list d z JNull old = ([], True)"
| "dec_list d z _ old = (old, False)"

text \<open>
  Struct fields match keys up to Unicode case folding; for the ASCII names used here this is
  ASCII case together with the long s (U+017F) and the Kelvin sign (U+212A).
\<close>

definition upper :: "char \<Rightarrow> char" where
  "upper c = (if 97 \<le> byte c \<and> byte c \<le> 122 then char_of (byte c - 32) else c)"

fun fold_name :: "string \<Rightarrow> string" where
  "fold_name (a # b # s) =
     (if a = CHR 0xC5 \<and> b = CHR 0xBF then CHR ''S'' # fold_name s
      else (case s of
          c # t \<Rightarrow>
            if a = CHR 0xE2 \<and> b = CHR 0x84 \<and> c = CHR 0xAA then CHR ''K'' # fold_name t
            else upper a # fold_name (b # s)
        | [] \<Rightarrow> upper a # fold_name (b # s)))"
| "fold_name [a] = [upper a]"
| "fold_name [] = []"

declare fold_name.simps [simp del]

type_synonym 'a field = "string \<times> (json \<Rightarrow> 'a \<Rightarrow> 'a \<times> bool)"

definition dec_field :: "'a field list \<Rightarrow> string \<times> json \<Rightarrow> 'a \<times> bool \<Rightarrow> 'a \<times> bool" where
  "dec_field fs kv acc =
     (case find (\<lambda>f. fold_name (fst f) = fold_name (fst kv)) fs of
        None \<Rightarrow> acc
      | Some f \<Rightarrow> (let r = snd f (snd kv) (fst acc) in (fst r, snd acc \<and> snd r)))"

fun dec_struct :: "'a field list \<Rightarrow> 'a decoder" where
  "dec_struct fs (JObj kvs) old = fold (dec_field fs) kvs (old, True)"
| "dec_struct fs JNull old = (old, True)"
| "dec_struct fs _ old = (old, False)"

lemma dec_struct_inv:
  assumes "P old" and "\<And>kv acc. P (fst acc) \<Longrightarrow> P (fst (dec_field fs kv acc))"
  shows "P (fst (dec_struct fs j old))"
proof (cases j)
  case (JObj kvs)
  have "P (fst acc) \<Longrightarrow> P (fst (fold (dec_field fs) kvs acc))" for acc
    by (induction kvs arbitrary: acc) (simp_all add: assms(2) del: split_paired_All)
  from this [of "(old, True)"] show ?thesis using JObj assms(1) by simp
qed (use assms(1) in simp_all)

text \<open>
  \<open>json.Unmarshal\<close>: the text is checked before anything is stored. The result is the value
  after decoding and the error; error texts are not modelled beyond their kind.
\<close>

definition syntax_error :: gerror where
  "syntax_error = ''json: syntax error''"

definition type_error :: gerror where
  "type_error = ''json: cannot unmarshal value into Go value''"

definition Unmarshal :: "'a decoder \<Rightarrow> bytes \<Rightarrow> 'a \<Rightarrow> 'a \<times> gerror option" where
  "Unmarshal d b old =
     (case json_parse b of
        None \<Rightarrow> (old, Some syntax_error)
      | Some j \<Rightarrow> (let r = d j old in (fst r, if snd r then None else Some type_error)))"

abbreviation Marshal :: "json \<Rightarrow> bytes" where
  "Marshal \<equiv> show_json"

lemma Unmarshal_Marshal:
  "json_ok j \<Longrightarrow> Unmarshal d (Marshal j) old = (let r = d j old in (fst r, if snd r then None else Some type_error))"
  by (simp add: Unmarshal_def json_parse_show)

text \<open>
  \<open>json.Encoder.Encode\<close> writes the text and a newline; \<open>json.Decoder.Decode\<close> reads the first value
  of a stream and does not look at what follows.
\<close>

definition Encode :: "json \<Rightarrow> bytes" where
  "Encode j = Marshal j @ [CHR 0x0A]"

definition Decode :: "'a decoder \<Rightarrow> bytes \<Rightarrow> 'a \<Rightarrow> 'a \<times> gerror option" where
  "Decode d b old =
     (case parse_value b of
        None \<Rightarrow> (old, Some (if skip_ws b = [] then ''EOF'' else syntax_error))
      | Some (j, _) \<Rightarrow> (let r = d j old in (fst r, if snd r then None else Some type_error)))"

lemma Unmarshal_Encode:
  assumes "json_ok j"
  shows "Unmarshal d (Encode j) old = Unmarshal d (Marshal j) old"
proof -
  have "parse_value (Encode j) = Some (j, [CHR 0x0A])"
    using parse_value_show [OF assms, of "[CHR 0x0A]"] by (simp add: Encode_def num_end_def is_digit_def)
  then have "json_parse (Encode j) = Some j" by (simp add: json_parse_def is_ws_def)
  then show ?thesis by (simp add: Unmarshal_def json_parse_show assms)
qed

lemma Decode_Marshal:
  assumes "json_ok j"
  shows "Decode d (Marshal j) old = Unmarshal d (Marshal j) old"
  using parse_value_show [OF assms, of "[]"]
  by (simp add: Decode_def Unmarshal_def json_parse_show assms num_end_def)

text \<open>What the decoders read back of what the encoders write.\<close>

definition enc_map :: "(string, string) gomap option \<Rightarrow> json" where
  "enc_map m = (case m of None \<Rightarrow> JNull | Some kvs \<Rightarrow> JObj (map (\<lambda>(k, v). (k, JStr v)) kvs))"

lemma dec_entry_strings:
  "fold dec_entry (map (\<lambda>(k, v). (k, JStr v)) kvs) (m, ok) = (fold (\<lambda>(k, v). gm_put k v) kvs m, ok)"
  by (induction kvs arbitrary: m) (auto simp: dec_entry_def)

lemma dec_enc_map: "pred_option gm_wf m \<Longrightarrow> dec_map (enc_map m) None = (m, True)"
  by (cases m) (simp_all add: enc_map_def dec_entry_strings gm_of_self [unfolded gm_of_def])

lemma list_all_is_digit_show_nat [simp]: "list_all is_digit (show_nat n)"
  by (simp add: list_all_iff show_nat_digits)

lemma dec_uint64_FormatUint [simp]: "dec_uint64 (JNum (FormatUint w)) old = (w, True)"
  by simp

lemma show_read_FormatUint [simp]: "show_nat (read_nat (FormatUint w)) = FormatUint w"
  by (simp add: FormatUint_def)

lemma json_ok_num [simp]: "json_ok (JNum (show_nat n))" "json_ok (JNum (FormatUint w))"
  by (simp_all add: FormatUint_def)

lemma valid_utf8_b64 [simp]: "valid_utf8 (b64_encode b)"
  by (intro valid_utf8_all_ascii) (auto dest: b64_encode_no_newline)

end
