(* ===== verification/Membership.thy ===== *)
theory Membership
  imports GoJson
begin

text \<open>
  The types of \<open>pkg/membership\<close> (\<open>membership.go\<close>): a member, a membership event, and the JSON
  form in which members travel through the Raft log, snapshots and the status endpoint.
  \<open>dec_enc_MemberInfo\<close> is the round trip of that form.
\<close>

record MemberInfo =
  ID :: string
  Addr :: string
  Meta :: "(string, string) gomap option"

datatype EventType = EventJoin | EventLeave | EventFailed

record Event =
  Type :: EventType
  Member :: MemberInfo
  At :: time

definition zero_MemberInfo :: MemberInfo where
  "zero_MemberInfo = \<lparr>ID = [], Addr = [], Meta = None\<rparr>"

text \<open>The struct has no field tags, so its keys are the field names.\<close>

definition enc_MemberInfo :: "MemberInfo \<Rightarrow> json" where
  "enc_MemberInfo m =
     JObj [(''ID'', JStr (ID m)), (''Addr'', JStr (Addr m)), (''Meta'', enc_map (Meta m))]"

definition MemberInfo_fields :: "MemberInfo field list" where
  "MemberInfo_fields =
     [(''ID'', \<lambda>j m. apfst (\<lambda>x. m\<lparr>ID := x\<rparr>) (dec_string j (ID m))),
      (''Addr'', \<lambda>j m. apfst (\<lambda>x. m\<lparr>Addr := x\<rparr>) (dec_string j (Addr m))),
      (''Meta'', \<lambda>j m. apfst (\<lambda>x. m\<lparr>Meta := x\<rparr>) (dec_map j (Meta m)))]"

definition dec_MemberInfo :: "MemberInfo decoder" where
  "dec_MemberInfo = dec_struct MemberInfo_fields"

text \<open>
  Members whose text survives JSON: every string is valid UTF-8. \<open>meta_wf\<close> is the
  representation invariant of the metadata map.
\<close>

definition meta_wf :: "MemberInfo \<Rightarrow> bool" where
  "meta_wf m \<longleftrightarrow> pred_option gm_wf (Meta m)"

lemma meta_wf_zero [simp]: "meta_wf zero_MemberInfo"
  by (simp add: meta_wf_def zero_MemberInfo_def)

definition member_ok :: "MemberInfo \<Rightarrow> bool" where
  "member_ok m \<longleftrightarrow> valid_utf8 (ID m) \<and> valid_utf8 (Addr m) \<and> meta_wf m
     \<and> pred_option (list_all (\<lambda>(k, v). valid_utf8 k \<and> valid_utf8 v)) (Meta m)"

lemma fold_name_member [simp]:
  "fold_name ''ID'' = ''ID''" "fold_name ''Addr'' = ''ADDR''" "fold_name ''Meta'' = ''META''"
  by (simp_all add: fold_name.simps upper_def char_of_eq_iff)

lemma dec_enc_MemberInfo:
  "meta_wf m \<Longrightarrow> dec_MemberInfo (enc_MemberInfo m) zero_MemberInfo = (m, True)"
  by (simp add: dec_MemberInfo_def enc_MemberInfo_def MemberInfo_fields_def dec_field_def
      zero_MemberInfo_def dec_enc_map meta_wf_def)

lemma json_ok_enc_map:
  "pred_option (list_all (\<lambda>(k, v). valid_utf8 k \<and> valid_utf8 v)) m \<Longrightarrow> json_ok (enc_map m)"
  by (cases m) (auto simp: enc_map_def list_all_iff)

lemma json_ok_enc_MemberInfo: "member_ok m \<Longrightarrow> json_ok (enc_MemberInfo m)"
  by (simp add: enc_MemberInfo_def member_ok_def json_ok_enc_map valid_utf8_all_ascii)

lemma member_ok_meta_wf [simp]: "member_ok m \<Longrightarrow> meta_wf m"
  by (simp add: member_ok_def)

text \<open>Whatever the text was, a decoded member has a well-formed metadata map.\<close>

lemma gm_wf_fold_dec_entry: "gm_wf (fst acc) \<Longrightarrow> gm_wf (fst (fold dec_entry kvs acc))"
  by (induction kvs arbitrary: acc) (auto simp: dec_entry_def Let_def)

lemma dec_map_wf: "pred_option gm_wf m \<Longrightarrow> pred_option gm_wf (fst (dec_map j m))"
  by (cases j; cases m) (auto simp: gm_wf_fold_dec_entry)

lemma dec_field_MemberInfo_wf:
  "meta_wf (fst acc) \<Longrightarrow> meta_wf (fst (dec_field MemberInfo_fields kv acc))"
  using dec_map_wf [of "Meta (fst acc)" "snd kv"]
  by (auto simp: dec_field_def MemberInfo_fields_def meta_wf_def)

lemma dec_MemberInfo_wf: "meta_wf m \<Longrightarrow> meta_wf (fst (dec_MemberInfo j m))"
  unfolding dec_MemberInfo_def by (rule dec_struct_inv) (auto intro: dec_field_MemberInfo_wf)

end
