(* ===== verification/MemberState.thy ===== *)
theory MemberState
  imports Membership
begin

text \<open>
  \<open>pkg/state\<close>: the interface \<open>MembershipState\<close> (\<open>state.go\<close>) as the locale
  \<open>membership_state\<close>, and its implementation \<open>State\<close> (\<open>membership/state.go\<close>): the members by
  ID, adding and removing a node, the JSON snapshot and its restore. The mutex makes each
  method atomic, so each is one function on the state.

  The order in which \<open>Snapshot\<close> ranges over the map is its parameter \<open>rng\<close>, any function
  that permutes the entries; \<open>sort.Slice\<close> is the library's \<open>sort_key\<close>, which agrees with any
  sorting algorithm here because the IDs are distinct.
\<close>

definition empty_node_id :: gerror where
  "empty_node_id = ''state: empty node id''"

section \<open>The interface\<close>

text \<open>
  What the Raft state machine relies on of a \<open>MembershipState\<close>: the effect of each call on
  the abstract view (members by ID), the errors, and that a snapshot carries the whole view
  and depends on nothing else. \<open>inv\<close> is the implementation's invariant on states all of whose
  members can be written as JSON.
\<close>

locale membership_state =
  fixes add :: "'s \<Rightarrow> MemberInfo \<Rightarrow> gerror option \<times> 's"
    and remove :: "'s \<Rightarrow> string \<Rightarrow> gerror option \<times> 's"
    and snapshot :: "'s \<Rightarrow> bytes"
    and restore :: "'s \<Rightarrow> bytes \<Rightarrow> gerror option \<times> 's"
    and look :: "'s \<Rightarrow> string \<Rightarrow> MemberInfo option"
    and inv :: "'s \<Rightarrow> bool"
  assumes add_empty: "ID n = [] \<Longrightarrow> add s n = (Some empty_node_id, s)"
    and add_nil: "inv s \<Longrightarrow> ID n \<noteq> [] \<Longrightarrow> fst (add s n) = None"
    and add_look: "inv s \<Longrightarrow> ID n \<noteq> [] \<Longrightarrow> look (snd (add s n)) = (look s)(ID n \<mapsto> n)"
    and remove_empty: "remove s [] = (Some empty_node_id, s)"
    and remove_nil: "inv s \<Longrightarrow> k \<noteq> [] \<Longrightarrow> fst (remove s k) = None"
    and remove_look: "inv s \<Longrightarrow> k \<noteq> [] \<Longrightarrow> look (snd (remove s k)) = (look s)(k := None)"
    and inv_add: "inv s \<Longrightarrow> member_ok n \<Longrightarrow> inv (snd (add s n))"
    and inv_remove: "inv s \<Longrightarrow> inv (snd (remove s k))"
    and restore_nil: "inv s \<Longrightarrow> fst (restore t (snapshot s)) = None"
    and restore_look: "inv s \<Longrightarrow> look (snd (restore t (snapshot s))) = look s"
    and inv_restore: "inv s \<Longrightarrow> inv (snd (restore t (snapshot s)))"
    and snapshot_look: "inv s \<Longrightarrow> inv t \<Longrightarrow> look s = look t \<Longrightarrow> snapshot s = snapshot t"
begin

lemma add_error_iff: "inv s \<Longrightarrow> fst (add s n) = None \<longleftrightarrow> ID n \<noteq> []"
  using add_empty add_nil by (metis fst_conv option.distinct(1))

lemma remove_error_iff: "inv s \<Longrightarrow> fst (remove s k) = None \<longleftrightarrow> k \<noteq> []"
  using remove_empty remove_nil by (metis fst_conv option.distinct(1))

lemma remove_after_add:
  assumes "inv s" and "member_ok n" and "ID n \<noteq> []"
  shows "look (snd (remove (snd (add s n)) (ID n))) = (look s)(ID n := None)"
  using assms by (simp add: remove_look add_look inv_add)

lemma snapshot_of_restored:
  assumes "inv s"
  shows "snapshot (snd (restore t (snapshot s))) = snapshot s"
  using assms by (intro snapshot_look) (auto simp: restore_look inv_restore)

end

section \<open>The state and its operations\<close>

record State =
  members :: "(string, MemberInfo) gomap"

definition New :: State where
  "New = \<lparr>members = []\<rparr>"

definition ApplyAddNode :: "State \<Rightarrow> MemberInfo \<Rightarrow> gerror option \<times> State" where
  "ApplyAddNode s n =
     (if ID n = [] then (Some empty_node_id, s)
      else (None, s\<lparr>members := gm_put (ID n) n (members s)\<rparr>))"

definition ApplyRemoveNode :: "State \<Rightarrow> string \<Rightarrow> gerror option \<times> State" where
  "ApplyRemoveNode s nodeID =
     (if nodeID = [] then (Some empty_node_id, s)
      else (None, s\<lparr>members := gm_del nodeID (members s)\<rparr>))"

type_synonym range_order = "(string, MemberInfo) gomap \<Rightarrow> (string, MemberInfo) gomap"

definition is_range_order :: "range_order \<Rightarrow> bool" where
  "is_range_order rng \<longleftrightarrow> (\<forall>m. mset (rng m) = mset m)"

definition Snapshot :: "range_order \<Rightarrow> State \<Rightarrow> bytes" where
  "Snapshot rng s =
     (let arr = sort_key ID (map snd (rng (members s)))
      in Marshal (JObj [(''version'', JNum (Itoa 1)), (''members'', JArr (map enc_MemberInfo arr))]))"

record snapshot =
  Version :: int
  Members :: "MemberInfo list"

definition zero_snapshot :: snapshot where
  "zero_snapshot = \<lparr>Version = 0, Members = []\<rparr>"

definition snapshot_fields :: "snapshot field list" where
  "snapshot_fields =
     [(''version'', \<lambda>j x. apfst (\<lambda>v. x\<lparr>Version := v\<rparr>) (dec_int j (Version x))),
      (''members'', \<lambda>j x. apfst (\<lambda>v. x\<lparr>Members := v\<rparr>)
         (dec_list dec_MemberInfo zero_MemberInfo j (Members x)))]"

definition restore_members :: "MemberInfo list \<Rightarrow> (string, MemberInfo) gomap" where
  "restore_members ms = fold (\<lambda>v m. if ID v = [] then m else gm_put (ID v) v m) ms []"

definition Restore :: "State \<Rightarrow> bytes \<Rightarrow> gerror option \<times> State" where
  "Restore s buf =
     (case Unmarshal (dec_struct snapshot_fields) buf zero_snapshot of
        (_, Some err) \<Rightarrow> (Some err, s)
      | (snap, None) \<Rightarrow> (None, s\<lparr>members := restore_members (Members snap)\<rparr>))"

section \<open>Invariant\<close>

definition state_inv :: "State \<Rightarrow> bool" where
  "state_inv s \<longleftrightarrow> gm_wf (members s)
     \<and> (\<forall>(k, v) \<in> set (members s). k = ID v \<and> k \<noteq> [] \<and> meta_wf v)"

definition state_ok :: "State \<Rightarrow> bool" where
  "state_ok s \<longleftrightarrow> state_inv s \<and> (\<forall>(k, v) \<in> set (members s). member_ok v)"

abbreviation view :: "State \<Rightarrow> string \<Rightarrow> MemberInfo option" where
  "view s \<equiv> gm_get (members s)"

lemma set_gm_put: "gm_wf m \<Longrightarrow> set (gm_put k v m) = insert (k, v) {p \<in> set m. fst p \<noteq> k}"
  by (induction k v m rule: gm_put.induct) auto

lemma New_inv: "state_inv New"
  by (simp add: New_def state_inv_def)

lemma ApplyAddNode_inv:
  "state_inv s \<Longrightarrow> meta_wf n \<Longrightarrow> state_inv (snd (ApplyAddNode s n))"
  by (auto simp: state_inv_def ApplyAddNode_def set_gm_put)

lemma ApplyRemoveNode_inv: "state_inv s \<Longrightarrow> state_inv (snd (ApplyRemoveNode s k))"
  by (auto simp: state_inv_def ApplyRemoveNode_def gm_del_def gm_wf_del [unfolded gm_del_def])

lemma ApplyAddNode_ok: "state_ok s \<Longrightarrow> member_ok n \<Longrightarrow> state_ok (snd (ApplyAddNode s n))"
  using ApplyAddNode_inv [of s n]
  by (auto simp: state_ok_def state_inv_def ApplyAddNode_def set_gm_put)

lemma ApplyRemoveNode_ok: "state_ok s \<Longrightarrow> state_ok (snd (ApplyRemoveNode s k))"
  using ApplyRemoveNode_inv [of s k] by (auto simp: state_ok_def ApplyRemoveNode_def gm_del_def)

section \<open>Restore\<close>

lemma restore_members_inv:
  assumes "\<forall>v \<in> set ms. meta_wf v"
  shows "state_inv \<lparr>members = restore_members ms\<rparr>"
proof -
  have "state_inv \<lparr>members = m\<rparr> \<Longrightarrow>
      state_inv \<lparr>members = fold (\<lambda>v m. if ID v = [] then m else gm_put (ID v) v m) ms m\<rparr>" for m
    using assms
  proof (induction ms arbitrary: m)
    case (Cons v ms)
    have "state_inv \<lparr>members = (if ID v = [] then m else gm_put (ID v) v m)\<rparr>"
      using Cons.prems by (auto simp: state_inv_def set_gm_put)
    then show ?case using Cons by simp
  qed simp
  then show ?thesis by (simp add: restore_members_def New_inv [unfolded New_def])
qed

lemma snapshot_members_wf:
  assumes "\<forall>v \<in> set (Members (fst acc)). meta_wf v"
  shows "\<forall>v \<in> set (Members (fst (dec_field snapshot_fields kv acc))). meta_wf v"
proof -
  have "\<forall>v \<in> set (fst (dec_list dec_MemberInfo zero_MemberInfo j (Members (fst acc)))). meta_wf v" for j
    using assms by (cases j) (auto intro!: dec_MemberInfo_wf)
  then show ?thesis using assms by (auto simp: dec_field_def snapshot_fields_def Let_def)
qed

lemma dec_snapshot_wf:
  "\<forall>v \<in> set (Members (fst (dec_struct snapshot_fields j zero_snapshot))). meta_wf v"
  by (rule dec_struct_inv [where P = "\<lambda>x. \<forall>v \<in> set (Members x). meta_wf v"])
    (rule snapshot_members_wf | simp add: zero_snapshot_def)+

lemma Restore_inv: "state_inv s \<Longrightarrow> state_inv (snd (Restore s buf))"
proof -
  assume s: "state_inv s"
  have "state_inv (s\<lparr>members := restore_members (Members (fst r))\<rparr>)"
    if "r = dec_struct snapshot_fields j zero_snapshot" for j r
    using restore_members_inv [OF dec_snapshot_wf [of j]] that by (simp add: state_inv_def)
  then show ?thesis using s by (auto simp: Restore_def Unmarshal_def Let_def split: option.splits)
qed

section \<open>Snapshot\<close>

text \<open>On a state that satisfies the invariant the snapshot lists the map in key order.\<close>

lemma snapshot_order:
  assumes "state_inv s" and "is_range_order rng"
  shows "sort_key ID (map snd (rng (members s))) = map snd (members s)"
proof -
  have ids: "map ID (map snd (members s)) = map fst (members s)"
    using assms(1) by (auto simp: state_inv_def)
  have srt: "sorted_wrt (<) (map ID (map snd (members s)))"
    using assms(1) unfolding ids by (simp add: state_inv_def gm_wf_def)
  have m: "mset (map snd (rng (members s))) = mset (map snd (members s))"
    using assms(2) by (simp add: is_range_order_def)
  have d: "distinct (map ID (map snd (members s)))" using srt by (simp only: strict_sorted_iff)
  show ?thesis
  proof (rule map_sorted_distinct_set_unique [of ID])
    have "set (map snd (rng (members s))) = set (map snd (members s))"
      using m by (rule mset_eq_setD)
    then show "set (sort_key ID (map snd (rng (members s)))) = set (map snd (members s))" by simp
    then show "inj_on ID (set (sort_key ID (map snd (rng (members s)))) \<union> set (map snd (members s)))"
      using d by (simp only: distinct_map Un_absorb)
    show "sorted (map ID (sort_key ID (map snd (rng (members s)))))" by simp
    have "mset (map ID (sort_key ID (map snd (rng (members s))))) = mset (map ID (map snd (members s)))"
      using m by (metis mset_map mset_sort)
    then show "distinct (map ID (sort_key ID (map snd (rng (members s)))))"
      using d by (metis mset_eq_imp_distinct_iff)
    show "sorted (map ID (map snd (members s)))" using srt by (simp only: strict_sorted_iff)
    show "distinct (map ID (map snd (members s)))" by (rule d)
  qed
qed

lemma Snapshot_eq:
  assumes "state_inv s" and "is_range_order rng"
  shows "Snapshot rng s = Marshal (JObj [(''version'', JNum (Itoa 1)),
    (''members'', JArr (map enc_MemberInfo (map snd (members s))))])"
  by (simp only: Snapshot_def Let_def snapshot_order [OF assms])

lemma fold_name_snapshot [simp]:
  "fold_name ''version'' = ''VERSION''" "fold_name ''members'' = ''MEMBERS''"
  by (simp_all add: fold_name.simps upper_def char_of_eq_iff)

lemma json_ok_version: "json_ok (JNum (Itoa 1))"
  by (simp add: Itoa_def)

lemma Itoa_1 [simp]: "Itoa 1 = ''1''"
  by (simp add: Itoa_def show_nat.simps digit_def char_of_eq_iff)

lemma ParseInt_1 [simp]: "ParseInt ''1'' = Some 1"
  by (simp add: ParseInt_def is_digit_def read_nat_def digit_val_def)

lemma restore_members_self:
  assumes "state_inv s"
  shows "restore_members (map snd (members s)) = members s"
proof -
  have "\<forall>(k, v) \<in> set kvs. k = ID v \<and> k \<noteq> [] \<Longrightarrow>
      fold (\<lambda>v m. if ID v = [] then m else gm_put (ID v) v m) (map snd kvs) m
        = fold (\<lambda>(k, v). gm_put k v) kvs m" for kvs m
    by (induction kvs arbitrary: m) auto
  moreover have "\<forall>(k, v) \<in> set (members s). k = ID v \<and> k \<noteq> []"
    using assms by (auto simp: state_inv_def)
  ultimately have "restore_members (map snd (members s)) = gm_of (members s)"
    by (simp add: restore_members_def gm_of_def)
  then show ?thesis using assms by (simp add: gm_of_self state_inv_def)
qed

lemma dec_list_members:
  "\<forall>m \<in> set ms. meta_wf m \<Longrightarrow>
   dec_list dec_MemberInfo zero_MemberInfo (JArr (map enc_MemberInfo ms)) old = (ms, True)"
  by (induction ms) (auto simp: dec_enc_MemberInfo list_all_iff)

lemma Restore_Snapshot:
  assumes "state_ok s" and "is_range_order rng"
  shows "Restore t (Snapshot rng s) = (None, s)"
proof -
  have inv: "state_inv s" and ok: "\<forall>v \<in> set (map snd (members s)). member_ok v"
    using assms(1) by (auto simp: state_ok_def)
  have j: "json_ok (JObj [(''version'', JNum (Itoa 1)),
      (''members'', JArr (map enc_MemberInfo (map snd (members s))))])"
    using ok json_ok_version
    by (auto simp: list_all_iff json_ok_enc_MemberInfo valid_utf8_all_ascii simp del: json_ok.simps(3))
  have "dec_struct snapshot_fields (JObj [(''version'', JNum (Itoa 1)),
      (''members'', JArr (map enc_MemberInfo (map snd (members s))))]) zero_snapshot
      = (\<lparr>Version = 1, Members = map snd (members s)\<rparr>, True)"
    using ok dec_list_members [of "map snd (members s)"]
    by (simp add: dec_field_def snapshot_fields_def zero_snapshot_def Let_def del: dec_list.simps)
  then have "Unmarshal (dec_struct snapshot_fields) (Snapshot rng s) zero_snapshot
      = (\<lparr>Version = 1, Members = map snd (members s)\<rparr>, None)"
    unfolding Snapshot_eq [OF inv assms(2)] Unmarshal_Marshal [OF j] by (simp add: Let_def)
  moreover have "t\<lparr>members := members s\<rparr> = s" by simp
  ultimately show ?thesis using restore_members_self [OF inv] by (simp add: Restore_def)
qed

section \<open>The implementation meets the interface\<close>

lemma Snapshot_any_order:
  "state_inv s \<Longrightarrow> is_range_order rng \<Longrightarrow> Snapshot rng s = Snapshot (\<lambda>m. m) s"
  using Snapshot_eq [of s rng] Snapshot_eq [of s "\<lambda>m. m"] by (simp add: is_range_order_def)

lemma State_ext: "state_inv s \<Longrightarrow> state_inv t \<Longrightarrow> view s = view t \<Longrightarrow> s = t"
  by (cases s; cases t) (auto simp: state_inv_def intro: gm_ext)

lemma is_range_order_id [simp]: "is_range_order (\<lambda>m. m)" "is_range_order rev"
  by (simp_all add: is_range_order_def)

interpretation ms: membership_state ApplyAddNode ApplyRemoveNode "Snapshot (\<lambda>m. m)" Restore view state_ok
proof unfold_locales
  fix s n k
  show "ID n = [] \<Longrightarrow> ApplyAddNode s n = (Some empty_node_id, s)"
    and "state_ok s \<Longrightarrow> ID n \<noteq> [] \<Longrightarrow> fst (ApplyAddNode s n) = None"
    and "state_ok s \<Longrightarrow> ID n \<noteq> [] \<Longrightarrow> view (snd (ApplyAddNode s n)) = (view s)(ID n \<mapsto> n)"
    by (simp_all add: ApplyAddNode_def)
  show "ApplyRemoveNode s [] = (Some empty_node_id, s)"
    and "state_ok s \<Longrightarrow> k \<noteq> [] \<Longrightarrow> fst (ApplyRemoveNode s k) = None"
    and "state_ok s \<Longrightarrow> k \<noteq> [] \<Longrightarrow> view (snd (ApplyRemoveNode s k)) = (view s)(k := None)"
    by (simp_all add: ApplyRemoveNode_def)
next
  fix s t :: State and n k
  show "state_ok s \<Longrightarrow> member_ok n \<Longrightarrow> state_ok (snd (ApplyAddNode s n))" by (rule ApplyAddNode_ok)
  show "state_ok s \<Longrightarrow> state_ok (snd (ApplyRemoveNode s k))" by (rule ApplyRemoveNode_ok)
  assume s: "state_ok s"
  then show "fst (Restore t (Snapshot (\<lambda>m. m) s)) = None"
    and "view (snd (Restore t (Snapshot (\<lambda>m. m) s))) = view s"
    and "state_ok (snd (Restore t (Snapshot (\<lambda>m. m) s)))"
    by (simp_all add: Restore_Snapshot)
  show "state_ok t \<Longrightarrow> view s = view t \<Longrightarrow> Snapshot (\<lambda>m. m) s = Snapshot (\<lambda>m. m) t"
    using s State_ext [of s t] by (simp add: state_ok_def)
qed

section \<open>Properties\<close>

text \<open>
  Round trip: restoring a snapshot into any state gives back exactly the state it was
  taken from, whatever the map iteration order, for members whose strings are UTF-8.
\<close>

theorem state_snapshot_round_trip:
  assumes "state_ok s" and "is_range_order rng"
  shows "Restore t (Snapshot rng s) = (None, s)"
  using assms by (rule Restore_Snapshot)

theorem state_snapshot_round_trip_witness:
  "Restore New (Snapshot rev \<lparr>members =
      [(''n1'', \<lparr>ID = ''n1'', Addr = ''127.0.0.1:1001'', Meta = Some [(''ver'', ''0.1.0'')]\<rparr>),
       (''n2'', \<lparr>ID = ''n2'', Addr = ''127.0.0.1:1002'', Meta = None\<rparr>)]\<rparr>)
    = (None, \<lparr>members =
      [(''n1'', \<lparr>ID = ''n1'', Addr = ''127.0.0.1:1001'', Meta = Some [(''ver'', ''0.1.0'')]\<rparr>),
       (''n2'', \<lparr>ID = ''n2'', Addr = ''127.0.0.1:1002'', Meta = None\<rparr>)]\<rparr>)"
  by (rule state_snapshot_round_trip)
    (simp_all add: state_ok_def state_inv_def member_ok_def meta_wf_def valid_utf8_all_ascii less_char_def)

text \<open>
  A snapshot depends only on which members there are: two states with the same members
  give the same bytes, in whatever order their maps are ranged over.
\<close>

theorem state_snapshot_canonical:
  assumes "state_inv s" and "state_inv t" and "view s = view t"
    and "is_range_order r1" and "is_range_order r2"
  shows "Snapshot r1 s = Snapshot r2 t"
  using assms Snapshot_any_order State_ext by metis

theorem state_snapshot_canonical_witness:
  "Snapshot rev (snd (ApplyAddNode (snd (ApplyAddNode New \<lparr>ID = ''b'', Addr = [], Meta = None\<rparr>))
      \<lparr>ID = ''a'', Addr = [], Meta = None\<rparr>))
   = Snapshot (\<lambda>m. m) (snd (ApplyAddNode (snd (ApplyAddNode New \<lparr>ID = ''a'', Addr = [], Meta = None\<rparr>))
      \<lparr>ID = ''b'', Addr = [], Meta = None\<rparr>))"
proof (rule state_snapshot_canonical)
  show "state_inv (snd (ApplyAddNode (snd (ApplyAddNode New \<lparr>ID = ''b'', Addr = [], Meta = None\<rparr>))
      \<lparr>ID = ''a'', Addr = [], Meta = None\<rparr>))"
    and "state_inv (snd (ApplyAddNode (snd (ApplyAddNode New \<lparr>ID = ''a'', Addr = [], Meta = None\<rparr>))
      \<lparr>ID = ''b'', Addr = [], Meta = None\<rparr>))"
    by (simp_all add: ApplyAddNode_inv New_inv meta_wf_def)
qed (auto simp: ApplyAddNode_def New_def)

end
