(* ===== verification/Fsm.thy ===== *)
theory Fsm
  imports MemberState
begin

text \<open>
  \<open>pkg/consensus\<close> (\<open>Command\<close>) and \<open>pkg/consensus/raft/fsm.go\<close>: the finite state machine Raft
  drives. \<open>membershipFSM\<close> holds a \<open>MembershipState\<close>, so its methods are functions of that
  interface's operations; the facts about replaying a log are proved in the locale
  \<open>membership_state\<close> and hold of \<open>State\<close> by its interpretation \<open>ms\<close>.
\<close>

section \<open>Commands\<close>

record Command =
  Op :: string
  Payload :: bytes

definition zero_Command :: Command where
  "zero_Command = \<lparr>Op = [], Payload = []\<rparr>"

definition enc_Command :: "Command \<Rightarrow> json" where
  "enc_Command c = JObj [(''Op'', JStr (Op c)), (''Payload'', JStr (b64_encode (Payload c)))]"

definition Command_fields :: "Command field list" where
  "Command_fields =
     [(''Op'', \<lambda>j c. apfst (\<lambda>x. c\<lparr>Op := x\<rparr>) (dec_string j (Op c))),
      (''Payload'', \<lambda>j c. apfst (\<lambda>x. c\<lparr>Payload := x\<rparr>) (dec_bytes j (Payload c)))]"

text \<open>The anonymous struct of a \<open>RemoveNode\<close> payload has the one field \<open>id\<close>.\<close>

definition enc_remove :: "string \<Rightarrow> json" where
  "enc_remove i = JObj [(''id'', JStr i)]"

definition remove_fields :: "string field list" where
  "remove_fields = [(''id'', dec_string)]"

section \<open>The state machine\<close>

text \<open>The value \<open>Apply\<close> returns is the error, or nil.\<close>

definition fsm_Apply ::
  "('s \<Rightarrow> MemberInfo \<Rightarrow> gerror option \<times> 's) \<Rightarrow> ('s \<Rightarrow> string \<Rightarrow> gerror option \<times> 's) \<Rightarrow>
   's \<Rightarrow> bytes \<Rightarrow> gerror option \<times> 's" where
  "fsm_Apply add remove s data =
     (case Unmarshal (dec_struct Command_fields) data zero_Command of
        (_, Some err) \<Rightarrow> (Some err, s)
      | (cmd, None) \<Rightarrow>
          if Op cmd = ''AddNode'' then
            (case Unmarshal dec_MemberInfo (Payload cmd) zero_MemberInfo of
               (_, Some err) \<Rightarrow> (Some err, s)
             | (mi, None) \<Rightarrow> add s mi)
          else if Op cmd = ''RemoveNode'' then
            (case Unmarshal (dec_struct remove_fields) (Payload cmd) [] of
               (_, Some err) \<Rightarrow> (Some err, s)
             | (i, None) \<Rightarrow> remove s i)
          else (None, s))"

definition fsm_Snapshot :: "('s \<Rightarrow> bytes) \<Rightarrow> 's \<Rightarrow> time \<Rightarrow> bytes \<times> time" where
  "fsm_Snapshot snap s now = (snap s, now)"

text \<open>\<open>Restore\<close> reads the whole stream first; \<open>rc\<close> is what \<open>io.ReadAll\<close> returns.\<close>

definition fsm_Restore ::
  "('s \<Rightarrow> bytes \<Rightarrow> gerror option \<times> 's) \<Rightarrow> 's \<Rightarrow> gerror + bytes \<Rightarrow> gerror option \<times> 's" where
  "fsm_Restore restore s rc = (case rc of Inl err \<Rightarrow> (Some err, s) | Inr data \<Rightarrow> restore s data)"

text \<open>\<open>snapshot.Persist\<close>: the calls made on the sink, and the error returned.\<close>

datatype sink_call = Write bytes | Cancel | Close

definition Persist :: "gerror option \<Rightarrow> gerror option \<Rightarrow> bytes \<Rightarrow> sink_call list \<times> gerror option" where
  "Persist write_err close_err blob =
     (case write_err of
        Some err \<Rightarrow> ([Write blob, Cancel], Some err)
      | None \<Rightarrow> ([Write blob, Close], close_err))"

text \<open>Raft applies committed entries one by one and in order.\<close>

definition replay ::
  "('s \<Rightarrow> MemberInfo \<Rightarrow> gerror option \<times> 's) \<Rightarrow> ('s \<Rightarrow> string \<Rightarrow> gerror option \<times> 's) \<Rightarrow>
   bytes list \<Rightarrow> 's \<Rightarrow> 's" where
  "replay add remove log s = fold (\<lambda>data s. snd (fsm_Apply add remove s data)) log s"

lemma replay_append: "replay add remove (xs @ ys) s = replay add remove ys (replay add remove xs s)"
  by (simp add: replay_def)

section \<open>Log entries\<close>

text \<open>
  The abstract commands, their effect on the membership, and the bytes that the leader's
  \<open>applyAddNode\<close> and \<open>applyRemoveNode\<close> put into the log for them.
\<close>

datatype member_op = AddNode MemberInfo | RemoveNode string

fun spec_apply :: "member_op \<Rightarrow> (string \<Rightarrow> MemberInfo option) \<Rightarrow> string \<Rightarrow> MemberInfo option" where
  "spec_apply (AddNode n) m = (if ID n = [] then m else m(ID n \<mapsto> n))"
| "spec_apply (RemoveNode k) m = (if k = [] then m else m(k := None))"

fun op_cmd :: "member_op \<Rightarrow> Command" where
  "op_cmd (AddNode n) = \<lparr>Op = ''AddNode'', Payload = Marshal (enc_MemberInfo n)\<rparr>"
| "op_cmd (RemoveNode k) = \<lparr>Op = ''RemoveNode'', Payload = Marshal (enc_remove k)\<rparr>"

abbreviation op_bytes :: "member_op \<Rightarrow> bytes" where
  "op_bytes x \<equiv> Marshal (enc_Command (op_cmd x))"

fun op_ok :: "member_op \<Rightarrow> bool" where
  "op_ok (AddNode n) = member_ok n"
| "op_ok (RemoveNode k) = valid_utf8 k"

lemma fold_name_command [simp]:
  "fold_name ''Op'' = ''OP''" "fold_name ''Payload'' = ''PAYLOAD''" "fold_name ''id'' = ''ID''"
  by (simp_all add: fold_name.simps upper_def char_of_eq_iff)

lemma Unmarshal_Command:
  assumes "valid_utf8 (Op c)"
  shows "Unmarshal (dec_struct Command_fields) (Marshal (enc_Command c)) zero_Command = (c, None)"
proof -
  have "json_ok (enc_Command c)" using assms by (simp add: enc_Command_def valid_utf8_all_ascii)
  then show ?thesis
    by (simp add: Unmarshal_Marshal enc_Command_def Command_fields_def dec_field_def zero_Command_def Let_def)
qed

lemma Unmarshal_MemberInfo:
  "member_ok n \<Longrightarrow> Unmarshal dec_MemberInfo (Marshal (enc_MemberInfo n)) zero_MemberInfo = (n, None)"
  by (simp add: Unmarshal_Marshal json_ok_enc_MemberInfo dec_enc_MemberInfo Let_def)

lemma Unmarshal_remove:
  "valid_utf8 k \<Longrightarrow> Unmarshal (dec_struct remove_fields) (Marshal (enc_remove k)) [] = (k, None)"
  by (simp add: Unmarshal_Marshal enc_remove_def remove_fields_def dec_field_def Let_def
      valid_utf8_all_ascii)

lemma fsm_Apply_op:
  "op_ok (AddNode n) \<Longrightarrow> fsm_Apply add remove s (op_bytes (AddNode n)) = add s n"
  "op_ok (RemoveNode k) \<Longrightarrow> fsm_Apply add remove s (op_bytes (RemoveNode k)) = remove s k"
  by (simp_all add: fsm_Apply_def Unmarshal_Command Unmarshal_MemberInfo Unmarshal_remove
      valid_utf8_all_ascii)

section \<open>Replaying a log\<close>

context membership_state
begin

lemma apply_op_look:
  assumes "inv s" and "op_ok x"
  shows "look (snd (fsm_Apply add remove s (op_bytes x))) = spec_apply x (look s)"
    and "inv (snd (fsm_Apply add remove s (op_bytes x)))"
proof -
  show "look (snd (fsm_Apply add remove s (op_bytes x))) = spec_apply x (look s)"
    using assms
    by (cases x) (auto simp: fsm_Apply_op add_empty add_look remove_empty remove_look
        simp del: op_cmd.simps)
  show "inv (snd (fsm_Apply add remove s (op_bytes x)))"
    using assms by (cases x) (auto simp: fsm_Apply_op inv_add inv_remove simp del: op_cmd.simps)
qed

lemma replay_refines_spec:
  assumes "inv s" and "list_all op_ok xs"
  shows "look (replay add remove (map op_bytes xs) s) = fold spec_apply xs (look s)
    \<and> inv (replay add remove (map op_bytes xs) s)"
  using assms
proof (induction xs arbitrary: s)
  case Nil
  then show ?case by (simp add: replay_def)
next
  case (Cons x xs)
  let ?s = "snd (fsm_Apply add remove s (op_bytes x))"
  have "look (replay add remove (map op_bytes xs) ?s) = fold spec_apply xs (look ?s)
      \<and> inv (replay add remove (map op_bytes xs) ?s)"
    using Cons apply_op_look(2) by simp
  then show ?case using Cons.prems apply_op_look(1) by (simp add: replay_def)
qed

lemma replicas_agree:
  assumes "inv s" and "inv t" and "look s = look t" and "list_all op_ok xs"
  shows "snapshot (replay add remove (map op_bytes xs) s)
    = snapshot (replay add remove (map op_bytes xs) t)"
  using assms by (intro snapshot_look) (simp_all add: replay_refines_spec)

lemma snapshot_install:
  fixes s t
  assumes "inv s" and "list_all op_ok xs" and "list_all op_ok ys"
  defines "s' \<equiv> snd (restore t (snapshot (replay add remove (map op_bytes xs) s)))"
  shows "look (replay add remove (map op_bytes ys) s')
    = look (replay add remove (map op_bytes (xs @ ys)) s)"
proof -
  have x: "inv (replay add remove (map op_bytes xs) s)"
    using assms(1,2) replay_refines_spec by blast
  then have "inv s'" and "look s' = look (replay add remove (map op_bytes xs) s)"
    by (simp_all add: s'_def inv_restore restore_look)
  then show ?thesis
    using assms(3) x by (simp add: replay_append replay_refines_spec)
qed

end

section \<open>The state machine over \<open>State\<close>\<close>

text \<open>
  Everything Raft can do to the state machine: apply a log entry, whatever its bytes, and
  restore from a stream, whatever it holds or however it fails.
\<close>

abbreviation apply_log :: "bytes list \<Rightarrow> State \<Rightarrow> State" where
  "apply_log \<equiv> replay ApplyAddNode ApplyRemoveNode"

inductive fsm_reachable :: "State \<Rightarrow> bool" where
  start: "fsm_reachable New"
| entry: "fsm_reachable s \<Longrightarrow> fsm_reachable (snd (fsm_Apply ApplyAddNode ApplyRemoveNode s data))"
| install: "fsm_reachable s \<Longrightarrow> fsm_reachable (snd (fsm_Restore Restore s rc))"

lemma Unmarshal_fst_inv:
  assumes "P old" and "\<And>j. P (fst (d j old))"
  shows "P (fst (Unmarshal d data old))"
  using assms by (auto simp: Unmarshal_def Let_def split: option.splits)

lemma fsm_Apply_inv:
  assumes "state_inv s"
  shows "state_inv (snd (fsm_Apply ApplyAddNode ApplyRemoveNode s data))"
proof -
  have "meta_wf (fst (Unmarshal dec_MemberInfo b zero_MemberInfo))" for b
    by (rule Unmarshal_fst_inv) (auto intro: dec_MemberInfo_wf)
  then have "meta_wf mi" if "Unmarshal dec_MemberInfo b zero_MemberInfo = (mi, e)" for b mi e
    using that by (metis fst_conv)
  then show ?thesis
    using assms by (auto simp: fsm_Apply_def ApplyAddNode_inv ApplyRemoveNode_inv
        split: prod.splits option.splits)
qed

lemma fsm_reachable_inv: "fsm_reachable s \<Longrightarrow> state_inv s"
  by (induction rule: fsm_reachable.induct)
    (auto simp: New_inv fsm_Apply_inv fsm_Restore_def Restore_inv split: sum.splits)

section \<open>Properties\<close>

text \<open>
  C18. Whatever bytes are committed to the Raft log and whatever streams are restored, the
  state machine keeps its invariant: members are stored under their own, non-empty ID, one
  entry per ID, with well-formed metadata.
\<close>

theorem fsm_state_invariant:
  assumes "fsm_reachable s" and "view s k = Some m"
  shows "k = ID m \<and> k \<noteq> [] \<and> meta_wf m \<and> gm_wf (members s)"
  using fsm_reachable_inv [OF assms(1)] gm_get_in [OF assms(2)] by (auto simp: state_inv_def)

theorem fsm_state_invariant_witness:
  "\<exists>s m. fsm_reachable s \<and> view s ''n1'' = Some m \<and> ''n1'' = ID m"
proof -
  let ?n = "\<lparr>ID = ''n1'', Addr = ''a:1'', Meta = Some [(''mgmt'', ''a:2'')]\<rparr>"
  let ?s = "snd (fsm_Apply ApplyAddNode ApplyRemoveNode New (op_bytes (AddNode ?n)))"
  have "op_ok (AddNode ?n)" by (simp add: member_ok_def meta_wf_def valid_utf8_all_ascii)
  then have v: "view ?s ''n1'' = Some ?n"
    by (simp add: fsm_Apply_op ApplyAddNode_def New_def del: op_cmd.simps)
  have r: "fsm_reachable ?s" by (intro fsm_reachable.intros)
  show ?thesis using fsm_state_invariant [OF r v] r v by blast
qed

text \<open>
  C17. Refinement: replaying the log entries the leader writes has exactly the effect of the
  abstract commands on the membership map; an entry with an empty node ID changes nothing.
\<close>

theorem fsm_replay_refines_spec:
  assumes "state_ok s" and "list_all op_ok xs"
  shows "view (apply_log (map op_bytes xs) s) = fold spec_apply xs (view s)"
  using ms.replay_refines_spec [OF assms] by blast

theorem fsm_replay_refines_spec_witness:
  "view (apply_log (map op_bytes
      [AddNode \<lparr>ID = ''n1'', Addr = ''a:1'', Meta = None\<rparr>,
       AddNode \<lparr>ID = ''n2'', Addr = ''b:1'', Meta = Some []\<rparr>, RemoveNode ''n1'', RemoveNode []]) New)
    = [''n2'' \<mapsto> \<lparr>ID = ''n2'', Addr = ''b:1'', Meta = Some []\<rparr>]"
proof -
  have s: "state_ok New" by (simp add: state_ok_def state_inv_def New_def)
  have ok: "list_all op_ok
      [AddNode \<lparr>ID = ''n1'', Addr = ''a:1'', Meta = None\<rparr>,
       AddNode \<lparr>ID = ''n2'', Addr = ''b:1'', Meta = Some []\<rparr>, RemoveNode ''n1'', RemoveNode []]"
    by (simp add: member_ok_def meta_wf_def valid_utf8_all_ascii)
  show ?thesis
    by (subst fsm_replay_refines_spec [OF s ok]) (auto simp: New_def fun_eq_iff)
qed

text \<open>
  C7. A replica that installs the snapshot of a prefix of the log and replays the rest ends
  in the same state, field for field, as one that replays the whole log; the snapshot may
  be taken in any map iteration order.
\<close>

theorem fsm_snapshot_then_replay:
  assumes "state_ok s" and "list_all op_ok xs" and "list_all op_ok ys" and "is_range_order rng"
  shows "apply_log (map op_bytes ys)
      (snd (fsm_Restore Restore t (Inr (fst (fsm_Snapshot (Snapshot rng) (apply_log (map op_bytes xs) s) now)))))
    = apply_log (map op_bytes (xs @ ys)) s"
proof -
  have x: "state_ok (apply_log (map op_bytes xs) s)"
    using ms.replay_refines_spec [OF assms(1,2)] by blast
  then have "snd (fsm_Restore Restore t
      (Inr (fst (fsm_Snapshot (Snapshot rng) (apply_log (map op_bytes xs) s) now))))
      = apply_log (map op_bytes xs) s"
    using assms(4) by (simp add: fsm_Restore_def fsm_Snapshot_def Restore_Snapshot)
  then show ?thesis by (simp add: replay_append)
qed

theorem fsm_snapshot_then_replay_witness:
  "apply_log (map op_bytes [RemoveNode ''n1''])
      (snd (fsm_Restore Restore New (Inr (fst (fsm_Snapshot (Snapshot rev)
        (apply_log (map op_bytes [AddNode \<lparr>ID = ''n1'', Addr = ''a:1'', Meta = None\<rparr>]) New) 0)))))
    = apply_log (map op_bytes [AddNode \<lparr>ID = ''n1'', Addr = ''a:1'', Meta = None\<rparr>, RemoveNode ''n1'']) New"
proof -
  have s: "state_ok New" by (simp add: state_ok_def state_inv_def New_def)
  have x: "list_all op_ok [AddNode \<lparr>ID = ''n1'', Addr = ''a:1'', Meta = None\<rparr>]"
    and y: "list_all op_ok [RemoveNode ''n1'']"
    by (simp_all add: member_ok_def meta_wf_def valid_utf8_all_ascii)
  show ?thesis
    using fsm_snapshot_then_replay [OF s x y is_range_order_id(2), of New 0]
    by (simp del: op_cmd.simps)
qed

text \<open>
  When \<open>Apply\<close> returns an error (a malformed entry, a malformed payload or an empty node
  ID), the membership is unchanged.
\<close>

theorem fsm_error_leaves_state:
  assumes "fst (fsm_Apply ApplyAddNode ApplyRemoveNode s data) = Some err"
  shows "snd (fsm_Apply ApplyAddNode ApplyRemoveNode s data) = s"
  using assms
  by (auto simp: fsm_Apply_def ApplyAddNode_def ApplyRemoveNode_def
      split: prod.splits option.splits if_splits)

theorem fsm_error_leaves_state_witness:
  "fst (fsm_Apply ApplyAddNode ApplyRemoveNode New (op_bytes (RemoveNode []))) = Some empty_node_id
   \<and> snd (fsm_Apply ApplyAddNode ApplyRemoveNode New (op_bytes (RemoveNode []))) = New"
proof -
  have "fst (fsm_Apply ApplyAddNode ApplyRemoveNode New (op_bytes (RemoveNode []))) = Some empty_node_id"
    by (simp add: fsm_Apply_op ApplyRemoveNode_def del: op_cmd.simps)
  then show ?thesis using fsm_error_leaves_state by blast
qed

end
