(* ===== verification/EventBus.thy ===== *)
theory EventBus
  imports Membership
begin

text \<open>
  \<open>pkg/cluster/events.go\<close>: application events and the event bus. A channel is a heap object:
  the bus holds pointers (numbers) to channels with a buffer of 64 events. Each operation on
  the bus runs under its mutex and is one step; \<open>Subscribe\<close> and the goroutine it starts are
  several steps, which other operations may interleave.

  Sending on a closed channel panics, also in a \<open>select\<close> with a default branch, so
  \<open>publish\<close> returns an option: \<open>None\<close> is the panic.
\<close>

section \<open>Events\<close>

record LeaderInfo =
  LID :: string
  LAddr :: string
  LTerm :: uint64

datatype AppEventType =
    EventLeaderChanged | EventElectionStart | EventElectionEnd
  | EventMemberJoin | EventMemberLeave | EventMemberFailed

record AppEvent =
  AType :: AppEventType
  AAt :: time
  ALeader :: "LeaderInfo option"
  AMember :: "MemberInfo option"
  ATerm :: uint64
  ADetails :: "(string, string) gomap"

definition app_event :: "AppEventType \<Rightarrow> time \<Rightarrow> AppEvent" where
  "app_event t a = \<lparr>AType = t, AAt = a, ALeader = None, AMember = None, ATerm = 0, ADetails = []\<rparr>"

section \<open>Channels and the bus\<close>

record chan =
  cbuf :: "AppEvent list"
  cclosed :: bool

type_synonym pointer = nat

record eventBus =
  esubs :: "(pointer, unit) gomap option"
  chans :: "(pointer, chan) gomap"

definition chan_cap :: nat where
  "chan_cap = 64"

definition make_chan :: "pointer \<Rightarrow> eventBus \<Rightarrow> eventBus" where
  "make_chan p e = e\<lparr>chans := gm_put p \<lparr>cbuf = [], cclosed = False\<rparr> (chans e)\<rparr>"

definition eb_add :: "pointer \<Rightarrow> eventBus \<Rightarrow> eventBus" where
  "eb_add p e = e\<lparr>esubs := Some (gm_put p () (case esubs e of None \<Rightarrow> [] | Some m \<Rightarrow> m))\<rparr>"

definition eb_remove :: "pointer \<Rightarrow> eventBus \<Rightarrow> eventBus" where
  "eb_remove p e = e\<lparr>esubs := map_option (gm_del p) (esubs e)\<rparr>"

text \<open>One \<open>select\<close> with a send and a default branch; a nil channel is never ready.\<close>

definition select_send :: "AppEvent \<Rightarrow> pointer \<Rightarrow> (pointer, chan) gomap \<Rightarrow> (pointer, chan) gomap option" where
  "select_send ev p cs =
     (case gm_get cs p of
        None \<Rightarrow> Some cs
      | Some c \<Rightarrow> if cclosed c then None
                  else Some (gm_put p (c\<lparr>cbuf := try_send chan_cap ev (cbuf c)\<rparr>) cs))"

fun publish_loop :: "AppEvent \<Rightarrow> pointer list \<Rightarrow> (pointer, chan) gomap \<Rightarrow> (pointer, chan) gomap option" where
  "publish_loop ev [] cs = Some cs"
| "publish_loop ev (p # ps) cs =
     (case select_send ev p cs of None \<Rightarrow> None | Some cs' \<Rightarrow> publish_loop ev ps cs')"

text \<open>\<open>rng\<close> is the order in which the map of subscribers is ranged over.\<close>

definition eb_publish :: "(pointer list \<Rightarrow> pointer list) \<Rightarrow> AppEvent \<Rightarrow> eventBus \<Rightarrow> eventBus option" where
  "eb_publish rng ev e =
     (case esubs e of
        None \<Rightarrow> Some e
      | Some m \<Rightarrow> map_option (\<lambda>cs. e\<lparr>chans := cs\<rparr>) (publish_loop ev (rng (map fst m)) (chans e)))"

definition close_chan :: "pointer \<Rightarrow> eventBus \<Rightarrow> eventBus" where
  "close_chan p e =
     (case gm_get (chans e) p of
        None \<Rightarrow> e
      | Some c \<Rightarrow> e\<lparr>chans := gm_put p (c\<lparr>cclosed := True\<rparr>) (chans e)\<rparr>)"

text \<open>The consumer receives the oldest buffered event.\<close>

definition recv :: "pointer \<Rightarrow> eventBus \<Rightarrow> eventBus" where
  "recv p e =
     (case gm_get (chans e) p of
        None \<Rightarrow> e
      | Some c \<Rightarrow> e\<lparr>chans := gm_put p (c\<lparr>cbuf := tl (cbuf c)\<rparr>) (chans e)\<rparr>)"

definition bus0 :: eventBus where
  "bus0 = \<lparr>esubs = None, chans = []\<rparr>"

section \<open>The bus as a state machine\<close>

text \<open>
  Where the goroutines of the subscriptions are: the channel is made, added to the bus,
  removed from it when the context is done, and then closed.
\<close>

datatype phase = Made | Added | Removed | Closed

record bus_sys =
  bus :: eventBus
  ph :: "pointer \<Rightarrow> phase option"

definition is_perm :: "(pointer list \<Rightarrow> pointer list) \<Rightarrow> bool" where
  "is_perm rng \<longleftrightarrow> (\<forall>xs. mset (rng xs) = mset xs)"

inductive bus_step :: "bus_sys \<Rightarrow> bus_sys \<Rightarrow> bool" where
  make: "ph s p = None \<Longrightarrow> bus_step s (s\<lparr>bus := make_chan p (bus s), ph := (ph s)(p \<mapsto> Made)\<rparr>)"
| add: "ph s p = Some Made \<Longrightarrow> bus_step s (s\<lparr>bus := eb_add p (bus s), ph := (ph s)(p \<mapsto> Added)\<rparr>)"
| remove: "ph s p = Some Added \<Longrightarrow>
    bus_step s (s\<lparr>bus := eb_remove p (bus s), ph := (ph s)(p \<mapsto> Removed)\<rparr>)"
| close: "ph s p = Some Removed \<Longrightarrow>
    bus_step s (s\<lparr>bus := close_chan p (bus s), ph := (ph s)(p \<mapsto> Closed)\<rparr>)"
| publish: "is_perm rng \<Longrightarrow> eb_publish rng ev (bus s) = Some b \<Longrightarrow> bus_step s (s\<lparr>bus := b\<rparr>)"
| receive: "bus_step s (s\<lparr>bus := recv p (bus s)\<rparr>)"

inductive_cases bus_stepE: "bus_step s t"

definition bus_init :: bus_sys where
  "bus_init = \<lparr>bus = bus0, ph = Map.empty\<rparr>"

abbreviation subscribers :: "eventBus \<Rightarrow> pointer set" where
  "subscribers e \<equiv> (case esubs e of None \<Rightarrow> {} | Some m \<Rightarrow> fst ` set m)"

definition bus_inv :: "bus_sys \<Rightarrow> bool" where
  "bus_inv s \<longleftrightarrow>
     (\<forall>m. esubs (bus s) = Some m \<longrightarrow> gm_wf m) \<and> gm_wf (chans (bus s)) \<and>
     (\<forall>p. p \<in> subscribers (bus s) \<longleftrightarrow> ph s p = Some Added) \<and>
     (\<forall>p. gm_get (chans (bus s)) p = None \<longleftrightarrow> ph s p = None) \<and>
     (\<forall>p c. gm_get (chans (bus s)) p = Some c \<longrightarrow>
        length (cbuf c) \<le> chan_cap \<and> (cclosed c \<longleftrightarrow> ph s p = Some Closed))"

section \<open>Publishing\<close>

definition deliver :: "AppEvent \<Rightarrow> chan \<Rightarrow> chan" where
  "deliver ev c = c\<lparr>cbuf := try_send chan_cap ev (cbuf c)\<rparr>"

lemma cclosed_deliver [simp]: "cclosed (deliver ev c) = cclosed c"
  by (simp add: deliver_def)

lemma cbuf_deliver [simp]: "cbuf (deliver ev c) = try_send chan_cap ev (cbuf c)"
  by (simp add: deliver_def)

text \<open>
  With distinct pointers to open channels the loop succeeds and delivers to exactly the
  listed channels, whatever the order.
\<close>

lemma publish_loop_spec:
  assumes "distinct ps" and "gm_wf cs"
    and "\<forall>p \<in> set ps. \<exists>c. gm_get cs p = Some c \<and> \<not> cclosed c"
  shows "\<exists>cs'. publish_loop ev ps cs = Some cs' \<and> gm_wf cs' \<and>
    (\<forall>q. gm_get cs' q = (if q \<in> set ps then map_option (deliver ev) (gm_get cs q) else gm_get cs q))"
  using assms
proof (induction ps arbitrary: cs)
  case Nil
  then show ?case by simp
next
  case (Cons p ps)
  obtain c where c: "gm_get cs p = Some c" "\<not> cclosed c" using Cons.prems by auto
  let ?cs = "gm_put p (deliver ev c) cs"
  have "\<exists>cs'. publish_loop ev ps ?cs = Some cs' \<and> gm_wf cs' \<and>
    (\<forall>q. gm_get cs' q = (if q \<in> set ps then map_option (deliver ev) (gm_get ?cs q) else gm_get ?cs q))"
    using Cons.prems by (intro Cons.IH) auto
  moreover have "select_send ev p cs = Some ?cs"
    using c by (simp add: select_send_def deliver_def)
  ultimately show ?case using c Cons.prems(1) by auto
qed

lemma eb_publish_spec:
  assumes inv: "bus_inv s" and rng: "is_perm rng"
  shows "\<exists>b. eb_publish rng ev (bus s) = Some b \<and> esubs b = esubs (bus s) \<and> gm_wf (chans b) \<and>
    (\<forall>q. gm_get (chans b) q =
       (if ph s q = Some Added then map_option (deliver ev) (gm_get (chans (bus s)) q)
        else gm_get (chans (bus s)) q))"
proof (cases "esubs (bus s)")
  case None
  then show ?thesis using inv by (auto simp: eb_publish_def bus_inv_def)
next
  case (Some m)
  have perm: "mset (rng (map fst m)) = mset (map fst m)" using rng by (simp add: is_perm_def)
  then have s: "set (rng (map fst m)) = fst ` set m" by (metis mset_eq_setD list.set_map)
  have added: "q \<in> fst ` set m \<longleftrightarrow> ph s q = Some Added" for q
    using inv Some by (simp add: bus_inv_def)
  have "distinct (rng (map fst m))"
    using perm inv Some by (metis bus_inv_def gm_wf_distinct mset_eq_imp_distinct_iff)
  moreover have "gm_wf (chans (bus s))" using inv by (simp add: bus_inv_def)
  moreover have "\<exists>c. gm_get (chans (bus s)) q = Some c \<and> \<not> cclosed c" if "ph s q = Some Added" for q
    using inv that unfolding bus_inv_def
    by (metis not_Some_eq option.inject phase.distinct(9))
  ultimately obtain cs where "publish_loop ev (rng (map fst m)) (chans (bus s)) = Some cs" "gm_wf cs"
    "\<forall>q. gm_get cs q = (if q \<in> set (rng (map fst m)) then map_option (deliver ev) (gm_get (chans (bus s)) q)
        else gm_get (chans (bus s)) q)"
    using publish_loop_spec [of "rng (map fst m)" "chans (bus s)" ev] s added by auto
  then show ?thesis using Some s added by (simp add: eb_publish_def)
qed

section \<open>The invariant\<close>

lemma bus_init_inv: "bus_inv bus_init"
  by (simp add: bus_inv_def bus_init_def bus0_def)

lemma bus_inv_chan:
  assumes "bus_inv s" and "gm_get (chans (bus s)) p = Some c"
  shows "length (cbuf c) \<le> chan_cap" and "cclosed c \<longleftrightarrow> ph s p = Some Closed" and "ph s p \<noteq> None"
  using assms unfolding bus_inv_def by (metis option.distinct(1))+

lemma publish_inv:
  assumes "bus_inv s" and "is_perm rng" and "eb_publish rng ev (bus s) = Some b"
  shows "bus_inv (s\<lparr>bus := b\<rparr>)"
proof -
  have b: "esubs b = esubs (bus s)" "gm_wf (chans b)"
    "gm_get (chans b) q = (if ph s q = Some Added then map_option (deliver ev) (gm_get (chans (bus s)) q)
        else gm_get (chans (bus s)) q)" for q
    using eb_publish_spec [OF assms(1,2), of ev] assms(3) by auto
  have "length (cbuf c) \<le> chan_cap \<and> (cclosed c \<longleftrightarrow> ph s q = Some Closed)"
    if "gm_get (chans b) q = Some c" for q c
    using that b(3) [of q] bus_inv_chan [OF assms(1)]
    by (auto simp: try_send_bound split: if_splits)
  moreover have "gm_get (chans b) q = None \<longleftrightarrow> ph s q = None" for q
    using b(3) [of q] assms(1) by (simp add: bus_inv_def)
  ultimately show ?thesis
    using assms(1) b(1,2) by (simp add: bus_inv_def)
qed

lemma bus_step_inv: "bus_step s t \<Longrightarrow> bus_inv s \<Longrightarrow> bus_inv t"
proof (induction rule: bus_step.induct)
  case (make s p)
  then show ?case by (auto simp: bus_inv_def make_chan_def chan_cap_def)
next
  case (add s p)
  then show ?case by (auto simp: bus_inv_def eb_add_def split: option.splits)
next
  case (remove s p)
  then show ?case by (auto simp: bus_inv_def eb_remove_def split: option.splits)
next
  case (close s p)
  then obtain c where "gm_get (chans (bus s)) p = Some c"
    by (metis bus_inv_def not_Some_eq option.distinct(1))
  then show ?case using close by (auto simp: bus_inv_def close_chan_def)
next
  case (publish rng ev s b)
  then show ?case by (simp add: publish_inv)
next
  case (receive s p)
  show ?case
  proof (cases "gm_get (chans (bus s)) p")
    case (Some c)
    note c = bus_inv_chan [OF receive Some]
    have "length (tl (cbuf c)) \<le> chan_cap" using c(1) by simp
    then show ?thesis using receive Some c(2,3) by (auto simp: bus_inv_def recv_def)
  qed (use receive in \<open>simp add: recv_def\<close>)
qed

lemma bus_reachable_inv: "bus_step\<^sup>*\<^sup>* bus_init s \<Longrightarrow> bus_inv s"
  by (induction rule: rtranclp_induct) (auto intro: bus_init_inv bus_step_inv)

text \<open>Publishing a list of events, each ranging over the subscribers in its own order.\<close>

fun publish_all :: "((pointer list \<Rightarrow> pointer list) \<times> AppEvent) list \<Rightarrow> eventBus \<Rightarrow> eventBus option" where
  "publish_all [] e = Some e"
| "publish_all ((rng, ev) # evs) e =
     (case eb_publish rng ev e of None \<Rightarrow> None | Some e' \<Rightarrow> publish_all evs e')"

lemma publish_all_spec:
  assumes "bus_inv s" and "\<forall>(rng, ev) \<in> set evs. is_perm rng" and "ph s p = Some Added"
    and "gm_get (chans (bus s)) p = Some c"
  shows "\<exists>b. publish_all evs (bus s) = Some b \<and>
    gm_get (chans b) p
      = Some (c\<lparr>cbuf := cbuf c @ take (chan_cap - length (cbuf c)) (map snd evs)\<rparr>)"
  using assms
proof (induction evs arbitrary: s c)
  case (Cons r evs)
  obtain rng ev where r: "r = (rng, ev)" by (cases r)
  have perm: "is_perm rng" using Cons.prems(2) r by simp
  obtain b where b: "eb_publish rng ev (bus s) = Some b"
    and g: "gm_get (chans b) p = Some (deliver ev c)"
    using eb_publish_spec [OF Cons.prems(1) perm, of ev] Cons.prems(3,4) by auto
  let ?s = "s\<lparr>bus := b\<rparr>"
  have "bus_inv ?s" using Cons.prems(1) perm b by (rule publish_inv)
  then obtain b' where "publish_all evs (bus ?s) = Some b'"
    "gm_get (chans b') p = Some (deliver ev c \<lparr>cbuf := cbuf (deliver ev c)
        @ take (chan_cap - length (cbuf (deliver ev c))) (map snd evs)\<rparr>)"
    using Cons.IH [of ?s "deliver ev c"] Cons.prems(2,3) g by auto
  then show ?case
    using b r by (auto simp: deliver_def try_send_def take_Cons' Suc_diff_Suc split: nat.splits)
qed simp

section \<open>Properties\<close>

text \<open>
  C37. The event bus never sends on a closed channel, however subscriptions, cancellations,
  publications and receives interleave: publishing succeeds, appends the event to the buffer
  of every subscribed channel that has room, and leaves full and other channels as they are.
\<close>

theorem event_bus_publish_safe:
  assumes "bus_step\<^sup>*\<^sup>* bus_init s" and "is_perm rng"
  shows "\<exists>b. eb_publish rng ev (bus s) = Some b \<and>
    (\<forall>q c. gm_get (chans (bus s)) q = Some c \<longrightarrow>
       gm_get (chans b) q =
         Some (if q \<in> subscribers (bus s) \<and> length (cbuf c) < 64 then c\<lparr>cbuf := cbuf c @ [ev]\<rparr> else c))"
proof -
  have inv: "bus_inv s" using assms(1) by (rule bus_reachable_inv)
  then have "q \<in> subscribers (bus s) \<longleftrightarrow> ph s q = Some Added" for q by (simp add: bus_inv_def)
  then show ?thesis
    using eb_publish_spec [OF inv assms(2), of ev]
    by (auto simp: deliver_def try_send_def chan_cap_def)
qed

definition bus_one :: bus_sys where
  "bus_one = bus_init\<lparr>bus := eb_add 7 (make_chan 7 bus0), ph := [7 \<mapsto> Added]\<rparr>"

lemma bus_one_reachable: "bus_step\<^sup>*\<^sup>* bus_init bus_one"
proof -
  let ?m = "bus_init\<lparr>bus := make_chan 7 (bus bus_init), ph := (ph bus_init)(7 \<mapsto> Made)\<rparr>"
  have "bus_step bus_init ?m" by (rule bus_step.make) (simp add: bus_init_def)
  moreover have "bus_step ?m (?m\<lparr>bus := eb_add 7 (bus ?m), ph := (ph ?m)(7 \<mapsto> Added)\<rparr>)"
    by (rule bus_step.add) simp
  ultimately show ?thesis by (simp add: bus_one_def bus_init_def)
qed

lemma is_perm_id [simp]: "is_perm (\<lambda>xs. xs)" and is_perm_rev [simp]: "is_perm rev"
  by (simp_all add: is_perm_def)

theorem event_bus_publish_safe_witness:
  "\<exists>b. eb_publish rev (app_event EventElectionStart 0) (bus bus_one) = Some b \<and>
    gm_get (chans b) 7 = Some \<lparr>cbuf = [app_event EventElectionStart 0], cclosed = False\<rparr>"
  using event_bus_publish_safe [OF bus_one_reachable is_perm_rev, of "app_event EventElectionStart 0"]
  by (auto simp: bus_one_def eb_add_def make_chan_def bus0_def)

text \<open>
  What a slow consumer sees: of the events published while it receives nothing, it keeps
  exactly the earliest ones that fit its buffer, in the order of publication; a consumer
  with room for all of them misses none.
\<close>

theorem event_bus_slow_consumer:
  assumes "bus_step\<^sup>*\<^sup>* bus_init s" and "\<forall>(rng, ev) \<in> set evs. is_perm rng"
    and "p \<in> subscribers (bus s)" and "gm_get (chans (bus s)) p = Some c"
  shows "\<exists>b. publish_all evs (bus s) = Some b \<and>
    map_option cbuf (gm_get (chans b) p) = Some (cbuf c @ take (64 - length (cbuf c)) (map snd evs))"
proof -
  have inv: "bus_inv s" using assms(1) by (rule bus_reachable_inv)
  then have "ph s p = Some Added" using assms(3) by (simp add: bus_inv_def)
  then show ?thesis using publish_all_spec [OF inv assms(2) _ assms(4)] by (auto simp: chan_cap_def)
qed

theorem event_bus_slow_consumer_witness:
  "\<exists>b. publish_all [(rev, app_event EventElectionStart 0), (rev, app_event EventElectionStart 1)] (bus bus_one)
      = Some b \<and> map_option cbuf (gm_get (chans b) 7)
      = Some [app_event EventElectionStart 0, app_event EventElectionStart 1]"
  using event_bus_slow_consumer [OF bus_one_reachable,
      of "[(rev, app_event EventElectionStart 0), (rev, app_event EventElectionStart 1)]" 7
         "\<lparr>cbuf = [], cclosed = False\<rparr>"]
  by (simp add: bus_one_def eb_add_def make_chan_def bus0_def)

end
