(* ===== verification/Transport.thy ===== *)
theory Transport
  imports Membership
begin

text \<open>
  \<open>pkg/transport/rpc.go\<close> and the message types of \<open>pkg/transport/grpc/server.go\<close>: the requests
  and responses of the management and replication services, and the JSON form the codec
  (\<open>grpc/jsoncodec.go\<close>) and the HTTP transport give them. The locale \<open>wire_format\<close> says what
  both ends of a call rely on; it is interpreted once for every message type.
\<close>

section \<open>The interface of a message type\<close>

locale wire_format =
  fixes enc :: "'a \<Rightarrow> json"
    and fields :: "'a field list"
    and zero :: 'a
    and ok :: "'a \<Rightarrow> bool"
  assumes enc_ok: "ok x \<Longrightarrow> json_ok (enc x)"
    and dec_enc: "ok x \<Longrightarrow> dec_struct fields (enc x) zero = (x, True)"
begin

lemma received:
  assumes "ok x"
  shows "Unmarshal (dec_struct fields) (Marshal (enc x)) zero = (x, None)"
  using assms by (simp add: Unmarshal_Marshal enc_ok dec_enc Let_def)

lemma sent_inj:
  assumes "ok x" and "ok y" and "Marshal (enc x) = Marshal (enc y)"
  shows "x = y"
  using assms received by (metis fst_conv)

end

text \<open>A field with the tag \<open>omitempty\<close> is left out when it has its zero value.\<close>

definition omitempty :: "string \<Rightarrow> (string \<Rightarrow> json) \<Rightarrow> string \<Rightarrow> (string \<times> json) list" where
  "omitempty name f v = (if v = [] then [] else [(name, f v)])"

abbreviation jbytes :: "bytes \<Rightarrow> json" where
  "jbytes b \<equiv> JStr (b64_encode b)"

lemma fold_name_rpc [simp]:
  "fold_name ''raftAddr'' = ''RAFTADDR''" "fold_name ''accepted'' = ''ACCEPTED''"
  "fold_name ''leader'' = ''LEADER''" "fold_name ''error'' = ''ERROR''"
  "fold_name ''op'' = ''OP''" "fold_name ''data'' = ''DATA''" "fold_name ''topic'' = ''TOPIC''"
  "fold_name ''seq'' = ''SEQ''" "fold_name ''nodeId'' = ''NODEID''" "fold_name ''id'' = ''ID''"
  by (simp_all add: fold_name.simps upper_def char_of_eq_iff)

lemma b64_decode_bytes [simp]: "dec_bytes (jbytes b) old = (b, True)"
  by simp

named_theorems wire_defs "definitions of message types, unfolded to check a wire format"

declare omitempty_def [wire_defs] dec_field_def [wire_defs] valid_utf8_all_ascii [wire_defs]

section \<open>Joining and leaving\<close>

record JoinRequest =
  jq_ID :: string
  jq_RaftAddr :: string

record JoinResponse =
  jr_Accepted :: bool
  jr_Leader :: string
  jr_Error :: string

record LeaveRequest =
  lq_ID :: string

record LeaveResponse =
  lr_Accepted :: bool
  lr_Error :: string

definition zero_JoinRequest :: JoinRequest where
  [wire_defs]: "zero_JoinRequest = \<lparr>jq_ID = [], jq_RaftAddr = []\<rparr>"

definition zero_JoinResponse :: JoinResponse where
  [wire_defs]: "zero_JoinResponse = \<lparr>jr_Accepted = False, jr_Leader = [], jr_Error = []\<rparr>"

definition zero_LeaveRequest :: LeaveRequest where
  [wire_defs]: "zero_LeaveRequest = \<lparr>lq_ID = []\<rparr>"

definition zero_LeaveResponse :: LeaveResponse where
  [wire_defs]: "zero_LeaveResponse = \<lparr>lr_Accepted = False, lr_Error = []\<rparr>"

definition enc_JoinRequest :: "JoinRequest \<Rightarrow> json" where
  [wire_defs]: "enc_JoinRequest r = JObj [(''id'', JStr (jq_ID r)), (''raftAddr'', JStr (jq_RaftAddr r))]"

definition JoinRequest_fields :: "JoinRequest field list" where
  [wire_defs]: "JoinRequest_fields =
     [(''id'', \<lambda>j r. apfst (\<lambda>x. r\<lparr>jq_ID := x\<rparr>) (dec_string j (jq_ID r))),
      (''raftAddr'', \<lambda>j r. apfst (\<lambda>x. r\<lparr>jq_RaftAddr := x\<rparr>) (dec_string j (jq_RaftAddr r)))]"

definition enc_JoinResponse :: "JoinResponse \<Rightarrow> json" where
  [wire_defs]: "enc_JoinResponse r =
     JObj ((''accepted'', JBool (jr_Accepted r)) # omitempty ''leader'' JStr (jr_Leader r)
       @ omitempty ''error'' JStr (jr_Error r))"

definition JoinResponse_fields :: "JoinResponse field list" where
  [wire_defs]: "JoinResponse_fields =
     [(''accepted'', \<lambda>j r. apfst (\<lambda>x. r\<lparr>jr_Accepted := x\<rparr>) (dec_bool j (jr_Accepted r))),
      (''leader'', \<lambda>j r. apfst (\<lambda>x. r\<lparr>jr_Leader := x\<rparr>) (dec_string j (jr_Leader r))),
      (''error'', \<lambda>j r. apfst (\<lambda>x. r\<lparr>jr_Error := x\<rparr>) (dec_string j (jr_Error r)))]"

definition enc_LeaveRequest :: "LeaveRequest \<Rightarrow> json" where
  [wire_defs]: "enc_LeaveRequest r = JObj [(''id'', JStr (lq_ID r))]"

definition LeaveRequest_fields :: "LeaveRequest field list" where
  [wire_defs]: "LeaveRequest_fields = [(''id'', \<lambda>j r. apfst (\<lambda>x. r\<lparr>lq_ID := x\<rparr>) (dec_string j (lq_ID r)))]"

definition enc_LeaveResponse :: "LeaveResponse \<Rightarrow> json" where
  [wire_defs]: "enc_LeaveResponse r =
     JObj ((''accepted'', JBool (lr_Accepted r)) # omitempty ''error'' JStr (lr_Error r))"

definition LeaveResponse_fields :: "LeaveResponse field list" where
  [wire_defs]: "LeaveResponse_fields =
     [(''accepted'', \<lambda>j r. apfst (\<lambda>x. r\<lparr>lr_Accepted := x\<rparr>) (dec_bool j (lr_Accepted r))),
      (''error'', \<lambda>j r. apfst (\<lambda>x. r\<lparr>lr_Error := x\<rparr>) (dec_string j (lr_Error r)))]"

interpretation joinReq: wire_format enc_JoinRequest JoinRequest_fields zero_JoinRequest
  "\<lambda>r. valid_utf8 (jq_ID r) \<and> valid_utf8 (jq_RaftAddr r)"
  by unfold_locales (auto simp: wire_defs)

interpretation joinResp: wire_format enc_JoinResponse JoinResponse_fields zero_JoinResponse
  "\<lambda>r. valid_utf8 (jr_Leader r) \<and> valid_utf8 (jr_Error r)"
  by unfold_locales (auto simp: wire_defs)

interpretation leaveReq: wire_format enc_LeaveRequest LeaveRequest_fields zero_LeaveRequest
  "\<lambda>r. valid_utf8 (lq_ID r)"
  by unfold_locales (auto simp: wire_defs)

interpretation leaveResp: wire_format enc_LeaveResponse LeaveResponse_fields zero_LeaveResponse
  "\<lambda>r. valid_utf8 (lr_Error r)"
  by unfold_locales (auto simp: wire_defs)

section \<open>Application writes and synchronisation\<close>

record AppWriteRequest =
  wq_Op :: string
  wq_Data :: bytes

record AppWriteResponse =
  wr_Data :: bytes
  wr_Error :: string

record AppSyncRequest =
  sq_Topic :: string
  sq_Data :: bytes

record AppSyncResponse =
  sr_Error :: string

definition zero_AppWriteRequest :: AppWriteRequest where
  [wire_defs]: "zero_AppWriteRequest = \<lparr>wq_Op = [], wq_Data = []\<rparr>"

definition enc_AppWriteRequest :: "AppWriteRequest \<Rightarrow> json" where
  [wire_defs]: "enc_AppWriteRequest r =
     JObj [(''op'', JStr (wq_Op r)), (''data'', jbytes (wq_Data r))]"

definition AppWriteRequest_fields :: "AppWriteRequest field list" where
  [wire_defs]: "AppWriteRequest_fields =
     [(''op'', \<lambda>j r. apfst (\<lambda>x. r\<lparr>wq_Op := x\<rparr>) (dec_string j (wq_Op r))),
      (''data'', \<lambda>j r. apfst (\<lambda>x. r\<lparr>wq_Data := x\<rparr>) (dec_bytes j (wq_Data r)))]"

interpretation writeReq: wire_format enc_AppWriteRequest AppWriteRequest_fields zero_AppWriteRequest
  "\<lambda>r. valid_utf8 (wq_Op r)"
  by unfold_locales (auto simp: wire_defs)

definition zero_AppWriteResponse :: AppWriteResponse where
  [wire_defs]: "zero_AppWriteResponse = \<lparr>wr_Data = [], wr_Error = []\<rparr>"

definition enc_AppWriteResponse :: "AppWriteResponse \<Rightarrow> json" where
  [wire_defs]: "enc_AppWriteResponse r =
     JObj (omitempty ''data'' jbytes (wr_Data r) @ omitempty ''error'' JStr (wr_Error r))"

definition AppWriteResponse_fields :: "AppWriteResponse field list" where
  [wire_defs]: "AppWriteResponse_fields =
     [(''data'', \<lambda>j r. apfst (\<lambda>x. r\<lparr>wr_Data := x\<rparr>) (dec_bytes j (wr_Data r))),
      (''error'', \<lambda>j r. apfst (\<lambda>x. r\<lparr>wr_Error := x\<rparr>) (dec_string j (wr_Error r)))]"

interpretation writeResp: wire_format enc_AppWriteResponse AppWriteResponse_fields zero_AppWriteResponse
  "\<lambda>r. valid_utf8 (wr_Error r)"
  by unfold_locales (auto simp: wire_defs)

definition zero_AppSyncRequest :: AppSyncRequest where
  [wire_defs]: "zero_AppSyncRequest = \<lparr>sq_Topic = [], sq_Data = []\<rparr>"

definition enc_AppSyncRequest :: "AppSyncRequest \<Rightarrow> json" where
  [wire_defs]: "enc_AppSyncRequest r =
     JObj [(''topic'', JStr (sq_Topic r)), (''data'', jbytes (sq_Data r))]"

definition AppSyncRequest_fields :: "AppSyncRequest field list" where
  [wire_defs]: "AppSyncRequest_fields =
     [(''topic'', \<lambda>j r. apfst (\<lambda>x. r\<lparr>sq_Topic := x\<rparr>) (dec_string j (sq_Topic r))),
      (''data'', \<lambda>j r. apfst (\<lambda>x. r\<lparr>sq_Data := x\<rparr>) (dec_bytes j (sq_Data r)))]"

interpretation syncReq: wire_format enc_AppSyncRequest AppSyncRequest_fields zero_AppSyncRequest
  "\<lambda>r. valid_utf8 (sq_Topic r)"
  by unfold_locales (auto simp: wire_defs)

definition zero_AppSyncResponse :: AppSyncResponse where
  [wire_defs]: "zero_AppSyncResponse = \<lparr>sr_Error = []\<rparr>"

definition enc_AppSyncResponse :: "AppSyncResponse \<Rightarrow> json" where
  [wire_defs]: "enc_AppSyncResponse r =
     JObj (omitempty ''error'' JStr (sr_Error r))"

definition AppSyncResponse_fields :: "AppSyncResponse field list" where
  [wire_defs]: "AppSyncResponse_fields =
     [(''error'', \<lambda>j r. apfst (\<lambda>x. r\<lparr>sr_Error := x\<rparr>) (dec_string j (sr_Error r)))]"

interpretation syncResp: wire_format enc_AppSyncResponse AppSyncResponse_fields zero_AppSyncResponse
  "\<lambda>r. valid_utf8 (sr_Error r)"
  by unfold_locales (auto simp: wire_defs)

section \<open>Status and replication\<close>

record statusBlob =
  sb_Data :: bytes

record repMsg =
  rm_Topic :: string
  rm_Data :: bytes
  rm_Seq :: uint64

record repSubReq =
  rs_NodeID :: string

record repAck =
  ra_Topic :: string
  ra_Seq :: uint64
  ra_NodeID :: string

definition zero_statusBlob :: statusBlob where
  [wire_defs]: "zero_statusBlob = \<lparr>sb_Data = []\<rparr>"

definition enc_statusBlob :: "statusBlob \<Rightarrow> json" where
  [wire_defs]: "enc_statusBlob r =
     JObj [(''data'', jbytes (sb_Data r))]"

definition statusBlob_fields :: "statusBlob field list" where
  [wire_defs]: "statusBlob_fields =
     [(''data'', \<lambda>j r. apfst (\<lambda>x. r\<lparr>sb_Data := x\<rparr>) (dec_bytes j (sb_Data r)))]"

interpretation blobMsg: wire_format enc_statusBlob statusBlob_fields zero_statusBlob
  "\<lambda>r. True"
  by unfold_locales (auto simp: wire_defs)

definition zero_repMsg :: repMsg where
  [wire_defs]: "zero_repMsg = \<lparr>rm_Topic = [], rm_Data = [], rm_Seq = 0\<rparr>"

definition enc_repMsg :: "repMsg \<Rightarrow> json" where
  [wire_defs]: "enc_repMsg r =
     JObj [(''topic'', JStr (rm_Topic r)), (''data'', jbytes (rm_Data r)), (''seq'', JNum (FormatUint (rm_Seq r)))]"

definition repMsg_fields :: "repMsg field list" where
  [wire_defs]: "repMsg_fields =
     [(''topic'', \<lambda>j r. apfst (\<lambda>x. r\<lparr>rm_Topic := x\<rparr>) (dec_string j (rm_Topic r))),
      (''data'', \<lambda>j r. apfst (\<lambda>x. r\<lparr>rm_Data := x\<rparr>) (dec_bytes j (rm_Data r))),
      (''seq'', \<lambda>j r. apfst (\<lambda>x. r\<lparr>rm_Seq := x\<rparr>) (dec_uint64 j (rm_Seq r)))]"

interpretation repMsg: wire_format enc_repMsg repMsg_fields zero_repMsg
  "\<lambda>r. valid_utf8 (rm_Topic r)"
  by unfold_locales (auto simp: wire_defs)

definition zero_repSubReq :: repSubReq where
  [wire_defs]: "zero_repSubReq = \<lparr>rs_NodeID = []\<rparr>"

definition enc_repSubReq :: "repSubReq \<Rightarrow> json" where
  [wire_defs]: "enc_repSubReq r =
     JObj (omitempty ''nodeId'' JStr (rs_NodeID r))"

definition repSubReq_fields :: "repSubReq field list" where
  [wire_defs]: "repSubReq_fields =
     [(''nodeId'', \<lambda>j r. apfst (\<lambda>x. r\<lparr>rs_NodeID := x\<rparr>) (dec_string j (rs_NodeID r)))]"

interpretation subReq: wire_format enc_repSubReq repSubReq_fields zero_repSubReq
  "\<lambda>r. valid_utf8 (rs_NodeID r)"
  by unfold_locales (auto simp: wire_defs)

definition zero_repAck :: repAck where
  [wire_defs]: "zero_repAck = \<lparr>ra_Topic = [], ra_Seq = 0, ra_NodeID = []\<rparr>"

definition enc_repAck :: "repAck \<Rightarrow> json" where
  [wire_defs]: "enc_repAck r =
     JObj ([(''topic'', JStr (ra_Topic r)), (''seq'', JNum (FormatUint (ra_Seq r)))] @ omitempty ''nodeId'' JStr (ra_NodeID r))"

definition repAck_fields :: "repAck field list" where
  [wire_defs]: "repAck_fields =
     [(''topic'', \<lambda>j r. apfst (\<lambda>x. r\<lparr>ra_Topic := x\<rparr>) (dec_string j (ra_Topic r))),
      (''seq'', \<lambda>j r. apfst (\<lambda>x. r\<lparr>ra_Seq := x\<rparr>) (dec_uint64 j (ra_Seq r))),
      (''nodeId'', \<lambda>j r. apfst (\<lambda>x. r\<lparr>ra_NodeID := x\<rparr>) (dec_string j (ra_NodeID r)))]"

interpretation ackMsg: wire_format enc_repAck repAck_fields zero_repAck
  "\<lambda>r. valid_utf8 (ra_Topic r) \<and> valid_utf8 (ra_NodeID r)"
  by unfold_locales (auto simp: wire_defs)

section \<open>Properties\<close>

text \<open>
  C39. Every management request and response survives the wire: encoding it as JSON and
  decoding the bytes into a zero value gives the message back, with no error, whenever its
  strings are valid UTF-8 (payload bytes are arbitrary).
\<close>

theorem rpc_messages_round_trip:
  assumes "list_all valid_utf8 [jq_ID jq, jq_RaftAddr jq, jr_Leader jr, jr_Error jr, lq_ID lq, lr_Error lr,
      wq_Op wq, wr_Error wr, sq_Topic sq, sr_Error sr]"
  shows "Unmarshal (dec_struct JoinRequest_fields) (Marshal (enc_JoinRequest jq)) zero_JoinRequest = (jq, None)
    \<and> Unmarshal (dec_struct JoinResponse_fields) (Marshal (enc_JoinResponse jr)) zero_JoinResponse = (jr, None)
    \<and> Unmarshal (dec_struct LeaveRequest_fields) (Marshal (enc_LeaveRequest lq)) zero_LeaveRequest = (lq, None)
    \<and> Unmarshal (dec_struct LeaveResponse_fields) (Marshal (enc_LeaveResponse lr)) zero_LeaveResponse = (lr, None)
    \<and> Unmarshal (dec_struct AppWriteRequest_fields) (Marshal (enc_AppWriteRequest wq)) zero_AppWriteRequest = (wq, None)
    \<and> Unmarshal (dec_struct AppWriteResponse_fields) (Marshal (enc_AppWriteResponse wr)) zero_AppWriteResponse = (wr, None)
    \<and> Unmarshal (dec_struct AppSyncRequest_fields) (Marshal (enc_AppSyncRequest sq)) zero_AppSyncRequest = (sq, None)
    \<and> Unmarshal (dec_struct AppSyncResponse_fields) (Marshal (enc_AppSyncResponse sr)) zero_AppSyncResponse = (sr, None)"
  using assms
  by (intro conjI joinReq.received joinResp.received leaveReq.received leaveResp.received
      writeReq.received writeResp.received syncReq.received syncResp.received) simp_all

theorem rpc_messages_round_trip_witness:
  "Unmarshal (dec_struct JoinResponse_fields)
     (Marshal (enc_JoinResponse \<lparr>jr_Accepted = False, jr_Leader = [], jr_Error = ''not leader''\<rparr>))
     zero_JoinResponse = (\<lparr>jr_Accepted = False, jr_Leader = [], jr_Error = ''not leader''\<rparr>, None)"
proof -
  have "valid_utf8 ''not leader''" "valid_utf8 []" by (simp_all add: valid_utf8_all_ascii)
  then show ?thesis
    using rpc_messages_round_trip [of zero_JoinRequest
        "\<lparr>jr_Accepted = False, jr_Leader = [], jr_Error = ''not leader''\<rparr>" zero_LeaveRequest
        zero_LeaveResponse zero_AppWriteRequest zero_AppWriteResponse zero_AppSyncRequest zero_AppSyncResponse]
    by (simp add: zero_JoinRequest_def zero_LeaveRequest_def zero_LeaveResponse_def
        zero_AppWriteRequest_def zero_AppWriteResponse_def zero_AppSyncRequest_def zero_AppSyncResponse_def)
qed

text \<open>
  A replication message and its acknowledgement survive the wire, the sequence number at
  its full 64 bits; so a follower acknowledges exactly the topic and number it was sent.
\<close>

theorem replication_messages_round_trip:
  assumes "valid_utf8 (rm_Topic m)" and "valid_utf8 node"
  shows "Unmarshal (dec_struct repMsg_fields) (Marshal (enc_repMsg m)) zero_repMsg = (m, None)
    \<and> Unmarshal (dec_struct repAck_fields)
        (Marshal (enc_repAck \<lparr>ra_Topic = rm_Topic m, ra_Seq = rm_Seq m, ra_NodeID = node\<rparr>)) zero_repAck
      = (\<lparr>ra_Topic = rm_Topic m, ra_Seq = rm_Seq m, ra_NodeID = node\<rparr>, None)"
  using assms by (intro conjI repMsg.received ackMsg.received) simp_all

theorem replication_messages_round_trip_witness:
  "Unmarshal (dec_struct repAck_fields)
     (Marshal (enc_repAck \<lparr>ra_Topic = ''t'', ra_Seq = 18446744073709551615, ra_NodeID = ''n2''\<rparr>)) zero_repAck
   = (\<lparr>ra_Topic = ''t'', ra_Seq = 18446744073709551615, ra_NodeID = ''n2''\<rparr>, None)"
  using replication_messages_round_trip
    [of "\<lparr>rm_Topic = ''t'', rm_Data = ''x'', rm_Seq = 18446744073709551615\<rparr>" "''n2''"]
  by (simp add: valid_utf8_all_ascii)

end
