(* ===== verification/Metrics.thy ===== *)
theory Metrics
  imports Prelude
begin

text \<open>
  \<open>pkg/observability/metrics/metrics.go\<close>: the metrics of the program, their registration, and
  the calls the components make on them. A metric is a constructor; \<open>opts\<close> gives the
  subsystem, the name, the kind and the labels it is declared with (the namespace of all is
  \<open>go_cluster\<close>). What Prometheus stores is not modelled: operations list the calls they make,
  with the integer that is converted to \<open>float64\<close> as the argument.
\<close>

datatype metric =
    ClusterMembers | IsLeaderGauge | LeaderChanges | JoinRequests
  | GRPCConnDials | GRPCConnReuse | GRPCConnEvictions | GRPCConnActive
  | ReplicationPublishedTotal | ReplicationBroadcastTotal | ReplicationAckTotal
  | ReplicationAckPerNodeTotal | ReplicationAckSeqPerNode | ReplicationLagPerNode
  | ReplicationSeq | ReplicationAckSeq | ReplicationLag | ReplicationSubs

datatype metric_kind = Gauge | Counter

record metric_opts =
  Subsystem :: string
  Name :: string
  Kind :: metric_kind
  Labels :: "string list"

fun opts :: "metric \<Rightarrow> metric_opts" where
  "opts ClusterMembers = \<lparr>Subsystem = [], Name = ''members_total'', Kind = Gauge, Labels = []\<rparr>"
| "opts IsLeaderGauge = \<lparr>Subsystem = [], Name = ''is_leader'', Kind = Gauge, Labels = []\<rparr>"
| "opts LeaderChanges = \<lparr>Subsystem = [], Name = ''leader_changes_total'', Kind = Counter, Labels = []\<rparr>"
| "opts JoinRequests = \<lparr>Subsystem = [], Name = ''join_requests_total'', Kind = Counter, Labels = [''result'']\<rparr>"
| "opts GRPCConnDials = \<lparr>Subsystem = ''grpc_conn'', Name = ''dials_total'', Kind = Counter, Labels = []\<rparr>"
| "opts GRPCConnReuse = \<lparr>Subsystem = ''grpc_conn'', Name = ''reuse_total'', Kind = Counter, Labels = []\<rparr>"
| "opts GRPCConnEvictions =
     \<lparr>Subsystem = ''grpc_conn'', Name = ''evictions_total'', Kind = Counter, Labels = []\<rparr>"
| "opts GRPCConnActive = \<lparr>Subsystem = ''grpc_conn'', Name = ''active'', Kind = Gauge, Labels = []\<rparr>"
| "opts ReplicationPublishedTotal =
     \<lparr>Subsystem = ''repl'', Name = ''published_total'', Kind = Counter, Labels = [''topic'']\<rparr>"
| "opts ReplicationBroadcastTotal =
     \<lparr>Subsystem = ''repl'', Name = ''broadcast_total'', Kind = Counter, Labels = [''topic'']\<rparr>"
| "opts ReplicationAckTotal =
     \<lparr>Subsystem = ''repl'', Name = ''acks_total'', Kind = Counter, Labels = [''topic'']\<rparr>"
| "opts ReplicationAckPerNodeTotal =
     \<lparr>Subsystem = ''repl'', Name = ''acks_per_node_total'', Kind = Counter, Labels = [''topic'', ''node'']\<rparr>"
| "opts ReplicationAckSeqPerNode =
     \<lparr>Subsystem = ''repl'', Name = ''ack_seq_per_node'', Kind = Gauge, Labels = [''topic'', ''node'']\<rparr>"
| "opts ReplicationLagPerNode =
     \<lparr>Subsystem = ''repl'', Name = ''lag_per_node'', Kind = Gauge, Labels = [''topic'', ''node'']\<rparr>"
| "opts ReplicationSeq = \<lparr>Subsystem = ''repl'', Name = ''seq'', Kind = Gauge, Labels = [''topic'']\<rparr>"
| "opts ReplicationAckSeq = \<lparr>Subsystem = ''repl'', Name = ''ack_seq'', Kind = Gauge, Labels = [''topic'']\<rparr>"
| "opts ReplicationLag = \<lparr>Subsystem = ''repl'', Name = ''lag'', Kind = Gauge, Labels = [''topic'']\<rparr>"
| "opts ReplicationSubs = \<lparr>Subsystem = ''repl'', Name = ''subs'', Kind = Gauge, Labels = []\<rparr>"

text \<open>Prometheus joins namespace, subsystem and name with underscores, leaving out empty parts.\<close>

definition fqName :: "metric \<Rightarrow> string" where
  "fqName m = ''go_cluster_'' @ (if Subsystem (opts m) = [] then [] else Subsystem (opts m) @ ''_'')
     @ Name (opts m)"

text \<open>The metrics \<open>Register\<close> registers, in its order, and the effect of its \<open>sync.Once\<close>.\<close>

definition registered :: "metric list" where
  "registered =
     [ClusterMembers, IsLeaderGauge, LeaderChanges, JoinRequests, GRPCConnDials, GRPCConnReuse,
      GRPCConnEvictions, GRPCConnActive, ReplicationPublishedTotal, ReplicationBroadcastTotal,
      ReplicationAckTotal, ReplicationAckPerNodeTotal, ReplicationAckSeqPerNode,
      ReplicationLagPerNode, ReplicationSeq, ReplicationAckSeq, ReplicationLag, ReplicationSubs]"

text \<open>
  The state is whether \<open>once\<close> has fired and the names in the default registry.
  \<open>prometheus.MustRegister\<close> panics (\<open>None\<close>) when the name is taken.
\<close>

record registry =
  fired :: bool
  names :: "string list"

definition MustRegister :: "metric \<Rightarrow> registry \<Rightarrow> registry option" where
  "MustRegister m r =
     (if fqName m \<in> set (names r) then None else Some (r\<lparr>names := names r @ [fqName m]\<rparr>))"

fun register_all :: "metric list \<Rightarrow> registry \<Rightarrow> registry option" where
  "register_all [] r = Some r"
| "register_all (m # ms) r =
     (case MustRegister m r of None \<Rightarrow> None | Some r' \<Rightarrow> register_all ms r')"

definition Register :: "registry \<Rightarrow> registry option" where
  "Register r = (if fired r then Some r else register_all registered (r\<lparr>fired := True\<rparr>))"

section \<open>Calls\<close>

datatype metric_call =
    MInc metric "string list"
  | MDec metric "string list"
  | MAdd metric "string list" int
  | MSet metric "string list" int

fun call_ok :: "metric_call \<Rightarrow> bool" where
  "call_ok (MInc m ls) = (length ls = length (Labels (opts m)))"
| "call_ok (MDec m ls) = (length ls = length (Labels (opts m)) \<and> Kind (opts m) = Gauge)"
| "call_ok (MAdd m ls v) = (length ls = length (Labels (opts m)) \<and> (Kind (opts m) = Counter \<longrightarrow> 0 \<le> v))"
| "call_ok (MSet m ls v) = (length ls = length (Labels (opts m)) \<and> Kind (opts m) = Gauge)"

lemma register_all_spec:
  "distinct (map fqName ms) \<Longrightarrow> set (map fqName ms) \<inter> set (names r) = {} \<Longrightarrow>
   register_all ms r = Some (r\<lparr>names := names r @ map fqName ms\<rparr>)"
  by (induction ms arbitrary: r) (auto simp: MustRegister_def)

lemma registered_distinct: "distinct (map fqName registered)"
  by (simp add: registered_def fqName_def)

text \<open>
  Registration never panics on a registry that does not hold the program's names, enters
  every metric of the program exactly once, and calling it again changes nothing.
\<close>

theorem metrics_Register_once:
  assumes "\<not> fired r" and "\<forall>m. fqName m \<notin> set (names r)"
  shows "\<exists>r'. Register r = Some r' \<and> Register r' = Some r'
    \<and> (\<forall>m. count_list (names r') (fqName m) = 1) \<and> prefix (names r) (names r')"
proof -
  have "register_all registered (r\<lparr>fired := True\<rparr>)
      = Some (r\<lparr>fired := True, names := names r @ map fqName registered\<rparr>)"
    using assms(2) by (subst register_all_spec) (auto simp: registered_distinct)
  moreover have "count_list (names r @ map fqName registered) (fqName m) = 1" for m
  proof -
    have "m \<in> set registered" by (cases m) (simp_all add: registered_def)
    then have "count_list (map fqName registered) (fqName m) = 1"
      by (intro count_list_distinct registered_distinct) simp
    then show ?thesis using assms(2) by simp
  qed
  ultimately show ?thesis using assms(1) by (auto simp: Register_def)
qed

theorem metrics_Register_once_witness:
  "\<exists>r'. Register \<lparr>fired = False, names = [''go_goroutines'']\<rparr> = Some r' \<and> Register r' = Some r'"
proof -
  have "fqName m \<noteq> ''go_goroutines''" for m by (simp add: fqName_def)
  then show ?thesis
    using metrics_Register_once [of "\<lparr>fired = False, names = [''go_goroutines'']\<rparr>"] by auto
qed

end
