(* ===== verification/GrpcServer.thy ===== *)
theory GrpcServer
  imports Transport Metrics
begin

text \<open>
  \<open>pkg/transport/grpc/server.go\<close>: the management service and the leader side of replication:
  subscribers, the last sequence number broadcast per topic, and the acknowledgements per
  topic and node. Subscribers are heap objects, known by their pointer. The handlers take no
  lock; each is modelled as one atomic step.

  The locale \<open>replication_server\<close> is what \<open>cluster.Publish\<close> and the retry loop rely on of the
  server they reach through type assertions; \<open>Server\<close> is its provider. \<open>ranges\<close> gives the
  orders in which one call ranges over maps.
\<close>

section \<open>The interface of the replication server\<close>

locale replication_server =
  fixes acked_all :: "'s \<Rightarrow> (string, uint64) gomap"
    and bcast :: "string \<Rightarrow> bytes \<Rightarrow> uint64 \<Rightarrow> 's \<Rightarrow> nat \<times> 's"
  assumes bcast_keeps_acks: "acked_all (snd (bcast topic data seq s)) = acked_all s"
begin

lemma bcasts_keep_acks:
  "acked_all (fold (\<lambda>(topic, data, seq) s. snd (bcast topic data seq s)) ms s) = acked_all s"
  by (induction ms arbitrary: s) (auto simp: bcast_keeps_acks)

end

section \<open>State\<close>

type_synonym pointer = nat

record Server =
  bind :: string
  srv :: bool
  lis :: bool
  tlsCfg :: bool
  subs :: "(pointer, string) gomap option"
  seqs :: "(string, uint64) gomap"
  acks :: "(string, (string, uint64) gomap) gomap"

record ranges =
  r_subs :: "pointer list \<Rightarrow> pointer list"
  r_acks :: "(string \<times> uint64) list \<Rightarrow> (string \<times> uint64) list"
  r_topics :: "string list \<Rightarrow> string list"

definition ranges_ok :: "ranges \<Rightarrow> bool" where
  "ranges_ok r \<longleftrightarrow> (\<forall>xs. mset (r_subs r xs) = mset xs) \<and> (\<forall>xs. mset (r_acks r xs) = mset xs)
     \<and> (\<forall>xs. mset (r_topics r xs) = mset xs)"

definition NewServer :: "string \<Rightarrow> Server" where
  "NewServer b = \<lparr>bind = b, srv = False, lis = False, tlsCfg = False, subs = None, seqs = [], acks = []\<rparr>"

text \<open>Whether a TLS configuration is set: \<open>UseTLS(nil)\<close> takes it away again.\<close>

definition UseTLS :: "bool \<Rightarrow> Server \<Rightarrow> Server" where
  "UseTLS cfg s = s\<lparr>tlsCfg := cfg\<rparr>"

text \<open>
  \<open>Start\<close> as far as it changes the server; \<open>listen_err\<close> is what \<open>net.Listen\<close> returns. The maps
  are made afresh, so restarting forgets subscribers and acknowledgements.
\<close>

definition server_Start :: "gerror option \<Rightarrow> Server \<Rightarrow> gerror option \<times> Server" where
  "server_Start listen_err s =
     (case listen_err of
        Some err \<Rightarrow> (Some err, s)
      | None \<Rightarrow> (None, s\<lparr>lis := True, srv := True, subs := Some [], seqs := [], acks := []\<rparr>))"

definition server_Addr :: "Server \<Rightarrow> string" where
  "server_Addr s = bind s"

definition server_Stop :: "Server \<Rightarrow> Server" where
  "server_Stop s = (if \<not> srv s then s else s\<lparr>srv := False, lis := False\<rparr>)"

section \<open>Subscriptions and broadcasts\<close>

definition addSub :: "pointer \<Rightarrow> string \<Rightarrow> Server \<Rightarrow> metric_call list \<times> Server" where
  "addSub p nodeID s =
     (if \<not> srv s then ([], s)
      else ([MInc ReplicationSubs []],
        s\<lparr>subs := Some (gm_put p nodeID (case subs s of None \<Rightarrow> [] | Some m \<Rightarrow> m))\<rparr>))"

definition removeSub :: "pointer \<Rightarrow> Server \<Rightarrow> metric_call list \<times> Server" where
  "removeSub p s =
     (case subs s of
        None \<Rightarrow> ([], s)
      | Some m \<Rightarrow> ([MDec ReplicationSubs []], s\<lparr>subs := Some (gm_del p m)\<rparr>))"

text \<open>The smallest value, as both loops compute it: \<open>first\<close> is true until one was seen.\<close>

fun min_loop :: "uint64 list \<Rightarrow> uint64 \<times> bool \<Rightarrow> uint64 \<times> bool" where
  "min_loop [] acc = acc"
| "min_loop (v # vs) (m, first) = (if first \<or> v < m then min_loop vs (v, False) else min_loop vs (m, first))"

definition topic_acks :: "Server \<Rightarrow> string \<Rightarrow> (string, uint64) gomap" where
  "topic_acks s topic = (case gm_get (acks s) topic of None \<Rightarrow> [] | Some m \<Rightarrow> m)"

definition minAck :: "ranges \<Rightarrow> Server \<Rightarrow> string \<Rightarrow> uint64" where
  "minAck r s topic =
     (let (m, first) = min_loop (map snd (r_acks r (topic_acks s topic))) (0, True)
      in if first then 0 else m)"

definition AckedAll :: "ranges \<Rightarrow> Server \<Rightarrow> (string, uint64) gomap" where
  "AckedAll r s =
     fold (\<lambda>topic out. gm_put topic (minAck r s topic) out) (r_topics r (map fst (acks s))) []"

text \<open>
  The loop of \<open>BroadcastWithSeq\<close> over the subscribers: \<open>send p\<close> tells whether \<open>SendMsg\<close> to \<open>p\<close>
  succeeds. It counts and lists the messages sent and drops the subscribers that failed.
\<close>

fun bcast_loop :: "(pointer \<Rightarrow> bool) \<Rightarrow> repMsg \<Rightarrow> pointer list
    \<Rightarrow> nat \<times> (pointer \<times> repMsg) list \<times> (pointer, string) gomap
    \<Rightarrow> nat \<times> (pointer \<times> repMsg) list \<times> (pointer, string) gomap" where
  "bcast_loop send msg [] acc = acc"
| "bcast_loop send msg (p # ps) (cnt, out, m) =
     (if send p then bcast_loop send msg ps (cnt + 1, out @ [(p, msg)], m)
      else bcast_loop send msg ps (cnt, out, gm_del p m))"

record bcast_result =
  b_cnt :: nat
  b_sent :: "(pointer \<times> repMsg) list"
  b_metrics :: "metric_call list"

definition BroadcastWithSeq ::
  "ranges \<Rightarrow> (pointer \<Rightarrow> bool) \<Rightarrow> string \<Rightarrow> bytes \<Rightarrow> uint64 \<Rightarrow> Server \<Rightarrow> bcast_result \<times> Server" where
  "BroadcastWithSeq r send topic data seq s =
     (case subs s of
        None \<Rightarrow> (\<lparr>b_cnt = 0, b_sent = [], b_metrics = []\<rparr>, s)
      | Some m \<Rightarrow>
          (let msg = \<lparr>rm_Topic = topic, rm_Data = data, rm_Seq = seq\<rparr>;
               (cnt, out, m') = bcast_loop send msg (r_subs r (map fst m)) (0, [], m);
               s' = s\<lparr>subs := Some m', seqs := gm_put topic seq (seqs s)\<rparr>;
               mn = minAck r s' topic
           in (\<lparr>b_cnt = cnt, b_sent = out,
                b_metrics = [MAdd ReplicationBroadcastTotal [topic] (int cnt),
                             MSet ReplicationSeq [topic] (uint seq)]
                  @ (if 0 < mn \<and> mn \<le> seq then [MSet ReplicationLag [topic] (uint (seq - mn))] else [])\<rparr>,
               s')))"

definition Broadcast ::
  "ranges \<Rightarrow> (pointer \<Rightarrow> bool) \<Rightarrow> string \<Rightarrow> bytes \<Rightarrow> Server \<Rightarrow> bcast_result \<times> Server" where
  "Broadcast r send topic data s =
     (case subs s of
        None \<Rightarrow> (\<lparr>b_cnt = 0, b_sent = [], b_metrics = []\<rparr>, s)
      | Some m \<Rightarrow> BroadcastWithSeq r send topic data 0 s)"

section \<open>Acknowledgements\<close>

definition server_Ack :: "ranges \<Rightarrow> repAck option \<Rightarrow> Server \<Rightarrow> metric_call list \<times> Server" where
  "server_Ack r ack s =
     (case ack of
        None \<Rightarrow> ([], s)
      | Some a \<Rightarrow>
          if ra_Topic a = [] \<or> ra_NodeID a = [] then ([], s)
          else
            (let topic = ra_Topic a;
                 node = ra_NodeID a;
                 s' = s\<lparr>acks := gm_put topic (gm_put node (ra_Seq a) (topic_acks s topic)) (acks s)\<rparr>;
                 (mn, first) = min_loop (map snd (r_acks r (topic_acks s' topic))) (0, True);
                 q = gm_val (seqs s') topic
             in ([MInc ReplicationAckTotal [topic], MInc ReplicationAckPerNodeTotal [topic, node]]
                 @ (if mn \<le> q \<and> \<not> first
                    then [MSet ReplicationAckSeq [topic] (uint mn),
                          MSet ReplicationLag [topic] (uint (q - mn)),
                          MSet ReplicationAckSeqPerNode [topic, node] (uint (ra_Seq a)),
                          MSet ReplicationLagPerNode [topic, node] (uint (q - ra_Seq a))]
                    else []), s')))"

section \<open>The smallest acknowledgement\<close>

lemma min_loop_False: "min_loop vs (m, False) = (fold min vs m, False)"
  by (induction vs arbitrary: m) (auto simp: min_def)

lemma min_loop_True: "min_loop (v # vs) (m, True) = (Min (set (v # vs)), False)"
proof -
  have "fold min vs v = Min (set (v # vs))" by (metis Min.set_eq_fold)
  then show ?thesis by (simp add: min_loop_False)
qed

lemma min_loop_eq: "min_loop vs (0, True) = (if vs = [] then (0, True) else (Min (set vs), False))"
  by (cases vs) (simp_all add: min_loop_True del: min_loop.simps(2))

text \<open>The map of acknowledgements of a topic: the lookup the orders forget.\<close>

definition ack_of :: "Server \<Rightarrow> string \<Rightarrow> string \<Rightarrow> uint64 option" where
  "ack_of s topic node = gm_get (topic_acks s topic) node"

lemma set_r_acks: "ranges_ok r \<Longrightarrow> set (r_acks r xs) = set xs"
  unfolding ranges_ok_def by (metis mset_eq_setD)

lemma r_acks_Nil: "ranges_ok r \<Longrightarrow> r_acks r xs = [] \<longleftrightarrow> xs = []"
  unfolding ranges_ok_def by (metis mset_zero_iff_right)

lemma minAck_eq:
  assumes "ranges_ok r"
  shows "minAck r s topic =
    (if topic_acks s topic = [] then 0 else Min (snd ` set (topic_acks s topic)))"
  using assms by (simp add: minAck_def min_loop_eq set_r_acks r_acks_Nil)

definition server_inv :: "Server \<Rightarrow> bool" where
  "server_inv s \<longleftrightarrow> gm_wf (acks s) \<and> gm_wf (seqs s) \<and> (\<forall>m. subs s = Some m \<longrightarrow> gm_wf m)
     \<and> (\<forall>(topic, m) \<in> set (acks s). gm_wf m \<and> m \<noteq> [])"

lemma topic_acks_wf: "server_inv s \<Longrightarrow> gm_wf (topic_acks s topic)"
  by (auto simp: topic_acks_def server_inv_def dest!: gm_get_in split: option.splits)

lemma ack_of_values:
  "server_inv s \<Longrightarrow> snd ` set (topic_acks s topic) = {v. \<exists>node. ack_of s topic node = Some v}"
  using topic_acks_wf [of s topic] by (force simp: ack_of_def gm_get_iff)

lemma topic_acks_Nil: "topic_acks s topic = [] \<longleftrightarrow> (\<forall>node. ack_of s topic node = None)"
  by (cases "topic_acks s topic") (auto simp: ack_of_def)

section \<open>Effects of the operations\<close>

lemma bcast_loop_spec:
  "distinct ps \<Longrightarrow> gm_wf m \<Longrightarrow>
   \<exists>m'. bcast_loop send msg ps (cnt, out, m) =
       (cnt + length (filter send ps), out @ map (\<lambda>p. (p, msg)) (filter send ps), m')
     \<and> gm_wf m' \<and> (\<forall>q. gm_get m' q = (if q \<in> set ps \<and> \<not> send q then None else gm_get m q))"
proof (induction ps arbitrary: cnt out m)
  case (Cons p ps)
  show ?case
  proof (cases "send p")
    case True
    then show ?thesis using Cons.IH [of m "Suc cnt" "out @ [(p, msg)]"] Cons.prems by auto
  next
    case False
    then show ?thesis using Cons.IH [of "gm_del p m" cnt out] Cons.prems by auto
  qed
qed simp

lemma topic_acks_update [simp]:
  "topic_acks (s\<lparr>subs := x\<rparr>) = topic_acks s" "topic_acks (s\<lparr>seqs := y\<rparr>) = topic_acks s"
  "topic_acks (s\<lparr>acks := gm_put t m (acks s)\<rparr>) t' = (if t' = t then m else topic_acks s t')"
  by (simp_all add: topic_acks_def fun_eq_iff)

lemma minAck_update [simp]:
  "minAck r (s\<lparr>subs := x\<rparr>) = minAck r s" "minAck r (s\<lparr>seqs := y\<rparr>) = minAck r s"
  by (simp_all add: minAck_def fun_eq_iff)

lemma acks_BroadcastWithSeq [simp]: "acks (snd (BroadcastWithSeq r send topic data seq s)) = acks s"
  by (simp add: BroadcastWithSeq_def Let_def split: option.splits prod.splits)

lemma minAck_cong: "acks s = acks s' \<Longrightarrow> minAck r s = minAck r s'"
  by (simp add: minAck_def topic_acks_def fun_eq_iff)

lemma AckedAll_cong: "acks s = acks s' \<Longrightarrow> AckedAll r s = AckedAll r s'"
  using minAck_cong [of s s' r] by (simp add: AckedAll_def)

text \<open>The gRPC server is a replication server, in whatever order its calls range over maps.\<close>

interpretation grpc_repl: replication_server "AckedAll r"
  "\<lambda>topic data seq s. (b_cnt (fst (BroadcastWithSeq r' send topic data seq s)),
     snd (BroadcastWithSeq r' send topic data seq s))" for r r' send
  by unfold_locales (simp, rule AckedAll_cong, simp)

lemma gm_get_fold_put_fun:
  "gm_get (fold (\<lambda>k out. gm_put k (f k) out) ks m) k = (if k \<in> set ks then Some (f k) else gm_get m k)"
  by (induction ks arbitrary: m) auto

lemma gm_get_AckedAll:
  assumes "ranges_ok r"
  shows "gm_get (AckedAll r s) topic = (if topic \<in> fst ` set (acks s) then Some (minAck r s topic) else None)"
proof -
  have "set (r_topics r (map fst (acks s))) = fst ` set (acks s)"
    using assms unfolding ranges_ok_def by (metis list.set_map mset_eq_setD)
  then show ?thesis by (simp add: AckedAll_def gm_get_fold_put_fun)
qed

lemma gm_val_AckedAll:
  assumes "ranges_ok r"
  shows "gm_val (AckedAll r s) topic = minAck r s topic"
proof (cases "topic \<in> fst ` set (acks s)")
  case False
  then have "gm_get (acks s) topic = None" by (simp only: gm_get_eq_None not_False_eq_True)
  then have "topic_acks s topic = []" by (simp add: topic_acks_def)
  then show ?thesis using False assms by (simp add: gm_val_def gm_get_AckedAll minAck_eq)
qed (simp add: gm_val_def gm_get_AckedAll assms)

lemma ack_of_Ack:
  assumes "ra_Topic a \<noteq> []" and "ra_NodeID a \<noteq> []"
  shows "ack_of (snd (server_Ack r (Some a) s)) topic node =
    (if topic = ra_Topic a \<and> node = ra_NodeID a then Some (ra_Seq a) else ack_of s topic node)"
  using assms by (simp add: server_Ack_def ack_of_def Let_def split: prod.splits)

lemma server_Ack_ignored:
  "ra_Topic a = [] \<or> ra_NodeID a = [] \<Longrightarrow> server_Ack r (Some a) s = ([], s)"
  by (simp add: server_Ack_def)

lemma server_Ack_inv: "server_inv s \<Longrightarrow> server_inv (snd (server_Ack r ack s))"
proof (cases ack)
  case (Some a)
  assume inv: "server_inv s"
  let ?m = "gm_put (ra_NodeID a) (ra_Seq a) (topic_acks s (ra_Topic a))"
  have m: "gm_wf ?m" "?m \<noteq> []"
    using topic_acks_wf [OF inv] by simp_all
  have "gm_wf m \<and> m \<noteq> []" if "(topic, m) \<in> set (gm_put (ra_Topic a) ?m (acks s))" for topic m
  proof -
    have "gm_get (gm_put (ra_Topic a) ?m (acks s)) topic = Some m"
      using that inv by (subst gm_get_iff) (auto simp: server_inv_def)
    then show ?thesis
      using m inv by (auto simp: server_inv_def dest!: gm_get_in split: if_splits)
  qed
  then show ?thesis
    using inv Some by (auto simp: server_Ack_def server_inv_def Let_def split: prod.splits)
qed (simp add: server_Ack_def)

section \<open>Reachable servers\<close>

text \<open>
  Everything that happens to a server: starting and stopping, a stream opening and closing,
  broadcasts, and acknowledgements. A pointer may be added only once.
\<close>

inductive server_reachable :: "Server \<Rightarrow> bool" where
  new: "server_reachable (NewServer b)"
| tls: "server_reachable s \<Longrightarrow> server_reachable (UseTLS cfg s)"
| start: "server_reachable s \<Longrightarrow> server_reachable (snd (server_Start e s))"
| stop: "server_reachable s \<Longrightarrow> server_reachable (server_Stop s)"
| open_stream: "server_reachable s \<Longrightarrow> server_reachable (snd (addSub p n s))"
| close_stream: "server_reachable s \<Longrightarrow> server_reachable (snd (removeSub p s))"
| broadcast: "server_reachable s \<Longrightarrow> ranges_ok r \<Longrightarrow>
    server_reachable (snd (BroadcastWithSeq r send topic data seq s))"
| ack: "server_reachable s \<Longrightarrow> ranges_ok r \<Longrightarrow> server_reachable (snd (server_Ack r a s))"

lemma r_subs_keys:
  assumes "ranges_ok r" and "gm_wf m"
  shows "distinct (r_subs r (map fst m))" and "set (r_subs r (map fst m)) = fst ` set m"
proof -
  have m: "mset (r_subs r (map fst m)) = mset (map fst m)" using assms(1) by (simp add: ranges_ok_def)
  then show "set (r_subs r (map fst m)) = fst ` set m" by (metis list.set_map mset_eq_setD)
  show "distinct (r_subs r (map fst m))"
    using m gm_wf_distinct [OF assms(2)] by (metis mset_eq_imp_distinct_iff)
qed

text \<open>The whole effect of a broadcast on a server with subscribers \<open>m\<close>.\<close>

lemma BroadcastWithSeq_eq:
  assumes "ranges_ok r" and "subs s = Some m" and "gm_wf m"
  shows "\<exists>m' ps. subs (snd (BroadcastWithSeq r send topic data seq s)) = Some m' \<and> gm_wf m'
    \<and> (\<forall>q. gm_get m' q = (if send q then gm_get m q else None))
    \<and> seqs (snd (BroadcastWithSeq r send topic data seq s)) = gm_put topic seq (seqs s)
    \<and> mset ps = mset (filter send (map fst m))
    \<and> b_cnt (fst (BroadcastWithSeq r send topic data seq s)) = length ps
    \<and> b_sent (fst (BroadcastWithSeq r send topic data seq s))
        = map (\<lambda>p. (p, \<lparr>rm_Topic = topic, rm_Data = data, rm_Seq = seq\<rparr>)) ps"
proof -
  let ?ps = "r_subs r (map fst m)" and ?msg = "\<lparr>rm_Topic = topic, rm_Data = data, rm_Seq = seq\<rparr>"
  note k = r_subs_keys [OF assms(1,3)]
  obtain m' where m': "bcast_loop send ?msg ?ps (0, [], m) =
       (length (filter send ?ps), map (\<lambda>p. (p, ?msg)) (filter send ?ps), m')" "gm_wf m'"
      "\<forall>q. gm_get m' q = (if q \<in> set ?ps \<and> \<not> send q then None else gm_get m q)"
    using bcast_loop_spec [OF k(1) assms(3), of send ?msg 0 "[]"] by auto
  have "gm_get m' q = (if send q then gm_get m q else None)" for q
    using m'(3) k(2) gm_get_eq_None [of m q] by auto
  moreover have "mset (filter send ?ps) = mset (filter send (map fst m))"
    using assms(1) by (metis mset_filter ranges_ok_def)
  ultimately show ?thesis
    using assms(2) m'(1,2) unfolding BroadcastWithSeq_def Let_def
    by (intro exI [of _ m'] exI [of _ "filter send ?ps"]) simp
qed

lemma BroadcastWithSeq_inv:
  assumes "server_inv s" and "ranges_ok r"
  shows "server_inv (snd (BroadcastWithSeq r send topic data seq s))"
proof (cases "subs s")
  case None
  then show ?thesis using assms(1) by (simp add: BroadcastWithSeq_def)
next
  case (Some m)
  moreover have "gm_wf m" using assms(1) Some by (simp add: server_inv_def)
  ultimately show ?thesis
    using BroadcastWithSeq_eq [OF assms(2), of s m send topic data seq] assms(1)
    by (auto simp: server_inv_def)
qed

lemma server_reachable_inv: "server_reachable s \<Longrightarrow> server_inv s"
proof (induction rule: server_reachable.induct)
  case (broadcast s r send topic data seq)
  then show ?case by (simp add: BroadcastWithSeq_inv)
next
  case (ack s r a)
  then show ?case by (simp add: server_Ack_inv)
qed (auto simp: server_inv_def NewServer_def UseTLS_def server_Start_def server_Stop_def addSub_def
    removeSub_def split: option.splits)

text \<open>The smallest acknowledgement is below every one, and is one of them if there is any.\<close>

lemma AckedAll_Min:
  assumes "server_reachable s" and "ranges_ok r"
  shows "gm_val (AckedAll r s) topic =
    (if \<forall>node. ack_of s topic node = None then 0 else Min {v. \<exists>node. ack_of s topic node = Some v})"
  using assms by (simp add: gm_val_AckedAll minAck_eq topic_acks_Nil ack_of_values server_reachable_inv)

lemma finite_acks: "server_reachable s \<Longrightarrow> finite {v. \<exists>node. ack_of s topic node = Some v}"
  by (subst ack_of_values [symmetric]) (auto intro: server_reachable_inv)

lemma AckedAll_le:
  assumes "server_reachable s" and "ranges_ok r" and "ack_of s topic node = Some v"
  shows "gm_val (AckedAll r s) topic \<le> v"
  using assms finite_acks [OF assms(1), of topic] by (auto simp: AckedAll_Min intro!: Min_le)

lemma AckedAll_attained:
  assumes "server_reachable s" and "ranges_ok r"
  shows "(\<forall>node. ack_of s topic node = None) \<and> gm_val (AckedAll r s) topic = 0
    \<or> (\<exists>node. ack_of s topic node = Some (gm_val (AckedAll r s) topic))"
proof (cases "\<forall>node. ack_of s topic node = None")
  case False
  let ?V = "{v. \<exists>node. ack_of s topic node = Some v}"
  have "Min ?V \<in> ?V" using False finite_acks [OF assms(1)] by (intro Min_in) auto
  then show ?thesis using False assms by (auto simp: AckedAll_Min)
qed (simp add: AckedAll_Min assms)

section \<open>Properties\<close>

text \<open>
  What the leader takes as acknowledged: \<open>AckedAll\<close> answers, for every topic, the smallest
  sequence number among the nodes that have ever acknowledged on that topic, and 0 when none
  has, in whatever order the maps are ranged over.
\<close>

theorem server_AckedAll_spec:
  assumes "server_reachable s" and "ranges_ok r"
  shows "(\<forall>node v. ack_of s topic node = Some v \<longrightarrow> gm_val (AckedAll r s) topic \<le> v)
    \<and> (if \<forall>node. ack_of s topic node = None then gm_val (AckedAll r s) topic = 0
       else \<exists>node. ack_of s topic node = Some (gm_val (AckedAll r s) topic))"
  using AckedAll_le [OF assms] AckedAll_attained [OF assms] by (metis option.distinct(1))

definition ranges_id :: ranges where
  "ranges_id = \<lparr>r_subs = (\<lambda>x. x), r_acks = (\<lambda>x. x), r_topics = (\<lambda>x. x)\<rparr>"

lemma ranges_ok_id [simp]: "ranges_ok ranges_id"
  by (simp add: ranges_ok_def ranges_id_def)

text \<open>A server with two subscribers, one of which has acknowledged message 3 of topic \<open>t\<close>.\<close>

definition server_two :: Server where
  "server_two = snd (server_Ack ranges_id (Some \<lparr>ra_Topic = ''t'', ra_Seq = 3, ra_NodeID = ''n2''\<rparr>)
     (snd (addSub 2 ''n3'' (snd (addSub 1 ''n2'' (snd (server_Start None (NewServer ''b'')))))))) "

lemma server_two_eq: "server_two = \<lparr>bind = ''b'', srv = True, lis = True, tlsCfg = False,
    subs = Some [(1, ''n2''), (2, ''n3'')], seqs = [], acks = [(''t'', [(''n2'', 3)])]\<rparr>"
  by (simp add: server_two_def server_Ack_def addSub_def server_Start_def NewServer_def ranges_id_def
      topic_acks_def Let_def)

lemma server_two_reachable: "server_reachable server_two"
  unfolding server_two_def by (intro server_reachable.intros ranges_ok_id)

theorem server_AckedAll_spec_witness:
  "gm_val (AckedAll ranges_id server_two) ''t'' = 3 \<and> gm_val (AckedAll ranges_id server_two) ''u'' = 0"
proof -
  have a: "ack_of server_two ''t'' n = (if n = ''n2'' then Some 3 else None)"
    "ack_of server_two ''u'' n = None" for n
    by (simp_all add: server_two_eq ack_of_def topic_acks_def)
  then show ?thesis
    using server_AckedAll_spec [OF server_two_reachable ranges_ok_id, of "''t''"]
      server_AckedAll_spec [OF server_two_reachable ranges_ok_id, of "''u''"]
    by (auto split: if_splits)
qed

text \<open>
  C34. A broadcast attempts every subscriber once: it returns how many sends succeeded, has
  sent exactly the message with its sequence number to exactly those, drops the subscribers
  whose send failed and only them, and touches no acknowledgement.
\<close>

theorem server_Broadcast_spec:
  assumes "server_reachable s" and "ranges_ok r" and "subs s = Some m"
    and "BroadcastWithSeq r send topic data seq s = (res, s')"
  shows "mset (b_sent res) =
      mset (map (\<lambda>p. (p, \<lparr>rm_Topic = topic, rm_Data = data, rm_Seq = seq\<rparr>)) (filter send (map fst m)))
    \<and> b_cnt res = length (filter send (map fst m))
    \<and> (\<exists>m'. subs s' = Some m' \<and> (\<forall>q. gm_get m' q = (if send q then gm_get m q else None)))
    \<and> gm_val (seqs s') topic = seq \<and> acks s' = acks s"
proof -
  have "gm_wf m" using server_reachable_inv [OF assms(1)] assms(3) by (simp add: server_inv_def)
  from BroadcastWithSeq_eq [OF assms(2,3) this, of send topic data seq]
  obtain m' ps where e: "subs s' = Some m'" "\<forall>q. gm_get m' q = (if send q then gm_get m q else None)"
    "seqs s' = gm_put topic seq (seqs s)" "mset ps = mset (filter send (map fst m))"
    "b_cnt res = length ps"
    "b_sent res = map (\<lambda>p. (p, \<lparr>rm_Topic = topic, rm_Data = data, rm_Seq = seq\<rparr>)) ps"
    by (auto simp: assms(4))
  moreover have "acks s' = acks s" using acks_BroadcastWithSeq assms(4) by (metis snd_conv)
  moreover have "length ps = length (filter send (map fst m))" using e(4) by (metis size_mset)
  ultimately show ?thesis by simp
qed

theorem server_Broadcast_spec_witness:
  "b_cnt (fst (BroadcastWithSeq ranges_id (\<lambda>p. p = 1) ''t'' ''x'' 4 server_two)) = 1
   \<and> gm_val (seqs (snd (BroadcastWithSeq ranges_id (\<lambda>p. p = 1) ''t'' ''x'' 4 server_two))) ''t'' = 4"
  using server_Broadcast_spec [OF server_two_reachable ranges_ok_id, of "[(1, ''n2''), (2, ''n3'')]"
      "\<lambda>p. p = 1" "''t''" "''x''" 4]
  by (auto simp: server_two_eq intro: prod.collapse [symmetric])

text \<open>
  An acknowledgement with a topic and a node ID replaces that node's number on that topic
  and nothing else, so the acknowledged number of the topic becomes the smaller of it and
  the least number of the other nodes, and that of every other topic stays; one without a
  topic or a node ID is ignored.
\<close>

theorem server_Ack_effect:
  assumes "server_reachable s" and "ranges_ok r" and "ranges_ok r'"
  shows "(ra_Topic a = [] \<or> ra_NodeID a = [] \<longrightarrow> server_Ack r (Some a) s = ([], s))
    \<and> (ra_Topic a \<noteq> [] \<and> ra_NodeID a \<noteq> [] \<longrightarrow>
        (\<forall>topic node. ack_of (snd (server_Ack r (Some a) s)) topic node =
           (if topic = ra_Topic a \<and> node = ra_NodeID a then Some (ra_Seq a) else ack_of s topic node))
        \<and> (\<forall>topic. gm_val (AckedAll r' (snd (server_Ack r (Some a) s))) topic =
           (if topic = ra_Topic a
            then Min (insert (ra_Seq a) {v. \<exists>node. node \<noteq> ra_NodeID a \<and> ack_of s topic node = Some v})
            else gm_val (AckedAll r' s) topic)))"
proof (cases "ra_Topic a = [] \<or> ra_NodeID a = []")
  case True
  then show ?thesis using server_Ack_ignored [OF True] by blast
next
  case False
  let ?s = "snd (server_Ack r (Some a) s)"
  have a: "ack_of ?s topic node = (if topic = ra_Topic a \<and> node = ra_NodeID a then Some (ra_Seq a)
      else ack_of s topic node)" for topic node
    using False by (simp add: ack_of_Ack)
  have inv: "server_inv ?s" using assms(1) by (simp add: server_Ack_inv server_reachable_inv)
  have "{v. \<exists>node. ack_of ?s (ra_Topic a) node = Some v} =
      insert (ra_Seq a) {v. \<exists>node. node \<noteq> ra_NodeID a \<and> ack_of s (ra_Topic a) node = Some v}"
    by (auto simp: a)
  moreover have "topic_acks ?s (ra_Topic a) \<noteq> []" using a [of "ra_Topic a" "ra_NodeID a"] by (auto simp: topic_acks_Nil)
  ultimately have "gm_val (AckedAll r' ?s) (ra_Topic a) =
      Min (insert (ra_Seq a) {v. \<exists>node. node \<noteq> ra_NodeID a \<and> ack_of s (ra_Topic a) node = Some v})"
    using assms(3) by (simp add: gm_val_AckedAll minAck_eq ack_of_values [OF inv])
  moreover have "topic_acks ?s topic = topic_acks s topic" if "topic \<noteq> ra_Topic a" for topic
    using that False by (simp add: server_Ack_def Let_def split: prod.splits)
  ultimately show ?thesis using False a assms(3) by (simp add: gm_val_AckedAll minAck_eq)
qed

theorem server_Ack_effect_witness:
  "gm_val (AckedAll ranges_id (snd (server_Ack ranges_id
      (Some \<lparr>ra_Topic = ''t'', ra_Seq = 2, ra_NodeID = ''n3''\<rparr>) server_two))) ''t'' = 2"
proof -
  have "{v. \<exists>node. node \<noteq> ''n3'' \<and> ack_of server_two ''t'' node = Some v} = {3}"
    by (auto simp: server_two_eq ack_of_def topic_acks_def)
  then show ?thesis
    using server_Ack_effect [OF server_two_reachable ranges_ok_id ranges_ok_id,
        of "\<lparr>ra_Topic = ''t'', ra_Seq = 2, ra_NodeID = ''n3''\<rparr>"] by simp
qed

section \<open>Two behaviours of the code\<close>

text \<open>
  An acknowledgement may move the acknowledged number of a topic backwards: the handler
  stores the number it is sent, also when the node had acknowledged a later one.
\<close>

lemma ack_regresses:
  "gm_val (AckedAll ranges_id server_two) ''t'' = 3
   \<and> gm_val (AckedAll ranges_id (snd (server_Ack ranges_id
        (Some \<lparr>ra_Topic = ''t'', ra_Seq = 1, ra_NodeID = ''n2''\<rparr>) server_two))) ''t'' = 1"
  by (simp add: server_two_eq AckedAll_def minAck_def server_Ack_def topic_acks_def ranges_id_def
      gm_val_def Let_def)

text \<open>
  The lag reported per node wraps around when the node has acknowledged more than the last
  number broadcast (a retry sets that number back) while another node is behind.
\<close>

lemma node_lag_wraps:
  "MSet ReplicationLagPerNode [''t'', ''n3''] 18446744073709551615
    \<in> set (fst (server_Ack ranges_id (Some \<lparr>ra_Topic = ''t'', ra_Seq = 4, ra_NodeID = ''n3''\<rparr>)
        (snd (BroadcastWithSeq ranges_id (\<lambda>p. True) ''t'' ''x'' 3 server_two))))"
  by (simp add: server_two_eq BroadcastWithSeq_def server_Ack_def minAck_def topic_acks_def
      ranges_id_def gm_val_def unsigned_minus_1_eq_mask mask_eq_exp_minus_1 Let_def)

end
