(* ===== verification/GoPath.thy ===== *)
theory GoPath
  imports GoStrings
begin

text \<open>
  The parts of Go's \<open>path/filepath\<close> and \<open>os\<close> packages the disk buffer uses, on Unix:
  \<open>filepath.Clean\<close> and \<open>filepath.Join\<close>, and a file system as a map from paths to contents. The
  paths on which input and output fail are listed in the state; a failing write or removal
  changes nothing.
\<close>

section \<open>Paths\<close>

fun clean_step :: "bool \<Rightarrow> string \<Rightarrow> string list \<Rightarrow> string list" where
  "clean_step rooted part stack =
     (if part = [] \<or> part = ''.'' then stack
      else if part = ''..'' then
        (case stack of
           [] \<Rightarrow> if rooted then [] else [''..'']
         | x # rest \<Rightarrow> if x = ''..'' then ''..'' # stack else rest)
      else part # stack)"

definition path_comps :: "string \<Rightarrow> string list" where
  "path_comps p = rev (fold (clean_step (hd p = CHR ''/'')) (Split p (CHR ''/'')) [])"

definition Clean :: "string \<Rightarrow> string" where
  "Clean p =
     (if p = [] then ''.''
      else let out = (if hd p = CHR ''/'' then ''/'' else []) @ join_with (CHR ''/'') (path_comps p)
           in if out = [] then ''.'' else out)"

definition path_Join :: "string \<Rightarrow> string \<Rightarrow> string" where
  "path_Join dir name =
     (if dir \<noteq> [] then Clean (dir @ ''/'' @ name) else if name \<noteq> [] then Clean name else [])"

text \<open>A file name: not empty, no separator, not a dot entry.\<close>

definition plain_name :: "string \<Rightarrow> bool" where
  "plain_name n \<longleftrightarrow> n \<noteq> [] \<and> n \<noteq> ''.'' \<and> n \<noteq> ''..'' \<and> CHR ''/'' \<notin> set n"

definition dir_prefix :: "string \<Rightarrow> string" where
  "dir_prefix dir =
     (if hd dir = CHR ''/'' then ''/'' else [])
     @ (if path_comps dir = [] then [] else join_with (CHR ''/'') (path_comps dir) @ ''/'')"

lemma Split_append_sep_general: "Split (s @ c # t) c = Split s c @ Split t c"
proof (induction s)
  case (Cons x s)
  obtain y ys where "Split s c = y # ys" by (metis Split_not_Nil neq_Nil_conv)
  then show ?case using Cons by simp
qed simp

lemma join_with_snoc: "join_with c (xs @ [n]) = (if xs = [] then n else join_with c xs @ c # n)"
  by (induction c xs rule: join_with.induct) auto

lemma path_Join_eq:
  assumes "dir \<noteq> []" and "plain_name n"
  shows "path_Join dir n = dir_prefix dir @ n"
proof -
  have "path_comps (dir @ CHR ''/'' # n) = path_comps dir @ [n]"
    using assms by (simp add: path_comps_def Split_append_sep_general plain_name_def)
  then show ?thesis
    using assms by (simp add: path_Join_def Clean_def dir_prefix_def join_with_snoc plain_name_def Let_def)
qed

lemma path_Join_inj:
  "dir \<noteq> [] \<Longrightarrow> plain_name m \<Longrightarrow> plain_name n \<Longrightarrow> path_Join dir m = path_Join dir n \<longleftrightarrow> m = n"
  by (simp add: path_Join_eq)

section \<open>Files\<close>

record fs =
  files :: "(string, bytes) gomap"
  dirs :: "string list"
  io_err :: "string list"

definition MkdirAll :: "string \<Rightarrow> fs \<Rightarrow> fs" where
  "MkdirAll dir f =
     (if Clean dir \<in> set (dirs f) \<or> Clean dir \<in> set (io_err f) then f
      else f\<lparr>dirs := Clean dir # dirs f\<rparr>)"

definition WriteFile :: "string \<Rightarrow> bytes \<Rightarrow> fs \<Rightarrow> fs" where
  "WriteFile p data f = (if p \<in> set (io_err f) then f else f\<lparr>files := gm_put p data (files f)\<rparr>)"

definition Remove :: "string \<Rightarrow> fs \<Rightarrow> fs" where
  "Remove p f = (if p \<in> set (io_err f) then f else f\<lparr>files := gm_del p (files f)\<rparr>)"

definition ReadFile :: "string \<Rightarrow> fs \<Rightarrow> bytes option" where
  "ReadFile p f = (if p \<in> set (io_err f) then None else gm_get (files f) p)"

text \<open>The last component of a path, and the entries of a directory: names with a directory flag.\<close>

definition path_base :: "string \<Rightarrow> string" where
  "path_base p = rev (takeWhile (\<lambda>c. c \<noteq> CHR ''/'') (rev p))"

definition in_dir :: "string \<Rightarrow> string \<Rightarrow> bool" where
  "in_dir dir p \<longleftrightarrow> plain_name (path_base p) \<and> path_Join dir (path_base p) = p"

definition ReadDir :: "string \<Rightarrow> fs \<Rightarrow> (string \<times> bool) list option" where
  "ReadDir dir f =
     (if Clean dir \<notin> set (dirs f) \<or> Clean dir \<in> set (io_err f) then None
      else Some (sort_key fst
        (map (\<lambda>p. (path_base p, False)) (filter (in_dir dir) (map fst (files f)))
         @ map (\<lambda>p. (path_base p, True)) (filter (in_dir dir) (dirs f)))))"

lemma path_base_append:
  assumes "CHR ''/'' \<notin> set n"
  shows "path_base n = n" and "path_base (q @ CHR ''/'' # n) = n"
proof -
  have t: "takeWhile (\<lambda>c. c \<noteq> CHR ''/'') (rev n @ rest) = rev n @ takeWhile (\<lambda>c. c \<noteq> CHR ''/'') rest" for rest
    using assms by (intro takeWhile_append2) auto
  show "path_base n = n" unfolding path_base_def using t [of "[]"] by (metis append_Nil2 rev_rev_ident takeWhile.simps(1))
  show "path_base (q @ CHR ''/'' # n) = n" using t [of "CHR ''/'' # rev q"] by (simp add: path_base_def)
qed

lemma path_base_join:
  assumes "dir \<noteq> []" and "plain_name n"
  shows "path_base (path_Join dir n) = n"
proof -
  have "dir_prefix dir = [] \<or> (\<exists>q. dir_prefix dir = q @ ''/'')"
    by (auto simp: dir_prefix_def)
  then show ?thesis
    using assms path_base_append [of n] by (auto simp: path_Join_eq plain_name_def)
qed

lemma in_dir_join: "dir \<noteq> [] \<Longrightarrow> plain_name n \<Longrightarrow> in_dir dir (path_Join dir n)"
  by (simp add: in_dir_def path_base_join)

text \<open>What a listing holds: the files of the directory by name, and its subdirectories.\<close>

lemma ReadDir_file:
  assumes "ReadDir dir f = Some es" and "dir \<noteq> []"
  shows "(n, False) \<in> set es \<longleftrightarrow> plain_name n \<and> gm_get (files f) (path_Join dir n) \<noteq> None"
proof -
  have es: "set es = (\<lambda>p. (path_base p, False)) ` {p \<in> fst ` set (files f). in_dir dir p}
      \<union> (\<lambda>p. (path_base p, True)) ` {p \<in> set (dirs f). in_dir dir p}"
    using assms(1) unfolding ReadDir_def by (force split: if_splits)
  have "(n, False) \<in> set es \<longleftrightarrow> (\<exists>p \<in> fst ` set (files f). in_dir dir p \<and> path_base p = n)"
    unfolding es by auto
  also have "\<dots> \<longleftrightarrow> plain_name n \<and> path_Join dir n \<in> fst ` set (files f)"
    using assms(2) in_dir_join path_base_join unfolding in_dir_def by metis
  finally show ?thesis by (simp only: gm_get_eq_None not_not)
qed

lemma ReadDir_distinct:
  assumes "ReadDir dir f = Some es" and "gm_wf (files f)"
  shows "distinct (map fst (filter (\<lambda>e. \<not> snd e) es))"
proof -
  let ?ps = "filter (in_dir dir) (map fst (files f))"
  have "mset (filter (\<lambda>e. \<not> snd e) es) = mset (map (\<lambda>p. (path_base p, False)) ?ps)"
    using assms(1) by (auto simp: ReadDir_def filter_mset_image_mset split: if_splits)
  then have "mset (map fst (filter (\<lambda>e. \<not> snd e) es)) = mset (map path_base ?ps)"
    by (simp add: multiset.map_comp comp_def)
  moreover have "inj_on path_base (set ?ps)"
    unfolding inj_on_def by (metis (no_types, lifting) in_dir_def mem_Collect_eq set_filter)
  then have "distinct (map path_base ?ps)"
    using gm_wf_distinct [OF assms(2)] by (simp add: distinct_map)
  ultimately show ?thesis by (metis mset_eq_imp_distinct_iff)
qed

end
