(* ===== verification/Replication.thy ===== *)
theory Replication
  imports GrpcServer GoPath
begin

text \<open>
  The leader side of replication in \<open>pkg/cluster/cluster.go\<close>: \<open>Publish\<close> with its backpressure
  window, the retry loop, and the disk buffer. The buffer and the sequence numbers are the
  \<open>rep\<close> struct of \<open>Cluster\<close>; the server is reached through two optional interfaces
  (\<open>AckedAll\<close>, \<open>BroadcastWithSeq\<close>), so the operations are functions of them over an abstract
  server state \<open>'s\<close>. The facts about them are proved in the locale \<open>replication_server\<close> and
  hold of the gRPC server by its interpretation.
\<close>

section \<open>State\<close>

record rep =
  rseq :: "(string, uint64) gomap"
  rbuf :: "(string, (uint64, bytes) gomap) gomap"

record 's node =
  nrep :: rep
  disk :: fs
  server :: 's

text \<open>What the type assertions on \<open>c.rpcS\<close> find.\<close>

record 's server_ops =
  AckedAll_op :: "('s \<Rightarrow> (string, uint64) gomap) option"
  Broadcast_op :: "(string \<Rightarrow> bytes \<Rightarrow> uint64 \<Rightarrow> 's \<Rightarrow> nat \<times> 's) option"

definition topic_buf :: "rep \<Rightarrow> string \<Rightarrow> (uint64, bytes) gomap" where
  "topic_buf r topic = (case gm_get (rbuf r) topic of None \<Rightarrow> [] | Some m \<Rightarrow> m)"

definition put_buf :: "string \<Rightarrow> uint64 \<Rightarrow> bytes \<Rightarrow> rep \<Rightarrow> rep" where
  "put_buf topic seq data r =
     r\<lparr>rbuf := gm_put topic (gm_put seq data (topic_buf r topic)) (rbuf r)\<rparr>"

section \<open>The disk buffer\<close>

definition sanitizeTopic :: "string \<Rightarrow> string" where
  "sanitizeTopic topic =
     map (\<lambda>c. if c = CHR ''/'' \<or> c = CHR 0x5C \<or> c = CHR '' '' then CHR ''_'' else c) topic"

definition bufFileName :: "string \<Rightarrow> uint64 \<Rightarrow> string" where
  "bufFileName topic seq = sanitizeTopic topic @ ''_'' @ FormatUint seq @ ''.bin''"

definition bufFilePath :: "string \<Rightarrow> string \<Rightarrow> uint64 \<Rightarrow> string" where
  "bufFilePath dir topic seq = path_Join dir (bufFileName topic seq)"

text \<open>The body of the loop of \<open>restoreBufferFromDisk\<close>: every \<open>continue\<close> leaves the state as it is.\<close>

definition parseBufName :: "string \<Rightarrow> (string \<times> uint64) option" where
  "parseBufName name =
     (if \<not> HasSuffix name ''.bin'' then None
      else let base = TrimSuffix name ''.bin'';
               us = LastIndex base (CHR ''_'')
           in if us \<le> 0 then None
              else map_option (Pair (take (nat us) base)) (ParseUint (drop (nat us + 1) base)))"

definition restore_entry :: "string \<Rightarrow> fs \<Rightarrow> string \<times> bool \<Rightarrow> rep \<Rightarrow> rep" where
  "restore_entry dir f e r =
     (if snd e then r
      else (case parseBufName (fst e) of
          None \<Rightarrow> r
        | Some (topic, seq) \<Rightarrow>
            (case ReadFile (path_Join dir (fst e)) f of
               None \<Rightarrow> r
             | Some data \<Rightarrow>
                 (let r' = put_buf topic seq data r
                  in if gm_val (rseq r') topic < seq then r'\<lparr>rseq := gm_put topic seq (rseq r')\<rparr> else r'))))"

definition restoreBufferFromDisk :: "string \<Rightarrow> fs \<Rightarrow> rep \<Rightarrow> rep" where
  "restoreBufferFromDisk dir f r =
     (case ReadDir dir f of None \<Rightarrow> r | Some es \<Rightarrow> fold (restore_entry dir f) es r)"

section \<open>Publish\<close>

text \<open>
  The configuration a call sees: whether this node leads (\<open>c.cons\<close> set and \<open>IsLeader\<close>), the
  window and buffer directory, whether application handlers, an RPC client and the membership
  (its current members) are there.
\<close>

record pub_cfg =
  is_leader :: bool
  ReplWindow :: int
  ReplBufferDir :: string
  has_app :: bool
  has_rpcC :: bool
  cur_members :: "MemberInfo list option"
  nodeID :: string

text \<open>What \<open>Publish\<close> does besides changing its state, in order.\<close>

datatype pub_effect =
    HandleSync string bytes
  | Metric metric_call
  | PostAppSync string AppSyncRequest

definition err_not_leader :: gerror where
  "err_not_leader = ''cluster: not leader''"

definition window_of :: "pub_cfg \<Rightarrow> int" where
  "window_of c = (if ReplWindow c \<le> 0 then 1024 else ReplWindow c)"

definition read_minAck :: "'s server_ops \<Rightarrow> string \<Rightarrow> 's \<Rightarrow> uint64" where
  "read_minAck ops topic sv = (case AckedAll_op ops of None \<Rightarrow> 0 | Some f \<Rightarrow> gm_val (f sv) topic)"

text \<open>
  The test the loop breaks on: the difference wraps in \<open>uint64\<close> and is then read as an \<open>int\<close>.
\<close>

definition window_open :: "'s server_ops \<Rightarrow> int \<Rightarrow> string \<Rightarrow> 's node \<Rightarrow> bool" where
  "window_open ops window topic n \<longleftrightarrow>
     sint (gm_val (rseq (nrep n)) topic - read_minAck ops topic (server n)) < window"

text \<open>
  The loop: \<open>cancel i\<close> is the context's error if the \<open>i\<close>th wait ends with it, and \<open>env i\<close> what
  the rest of the program does to the node during that wait.
\<close>

partial_function (option) window_wait ::
  "'s server_ops \<Rightarrow> int \<Rightarrow> string \<Rightarrow> (nat \<Rightarrow> gerror option) \<Rightarrow> (nat \<Rightarrow> 's node \<Rightarrow> 's node) \<Rightarrow>
   nat \<Rightarrow> 's node \<Rightarrow> (gerror option \<times> 's node) option" where
  "window_wait ops window topic cancel env i n =
     (if window_open ops window topic n then Some (None, n)
      else (case cancel i of
          Some err \<Rightarrow> Some (Some err, n)
        | None \<Rightarrow> window_wait ops window topic cancel env (Suc i) (env i n)))"

text \<open>Where a member is reached: its management address if it has one, else its gossip address.\<close>

definition mgmt_addr :: "MemberInfo \<Rightarrow> string" where
  "mgmt_addr m =
     (case Meta m of
        None \<Rightarrow> Addr m
      | Some meta \<Rightarrow> (case gm_get meta ''mgmt'' of None \<Rightarrow> Addr m | Some a \<Rightarrow> if a = [] then Addr m else a))"

definition post_all :: "pub_cfg \<Rightarrow> string \<Rightarrow> bytes \<Rightarrow> pub_effect list" where
  "post_all c topic data =
     (case cur_members c of
        None \<Rightarrow> []
      | Some ms \<Rightarrow>
          if \<not> has_rpcC c then []
          else map (\<lambda>m. PostAppSync (mgmt_addr m) \<lparr>sq_Topic = topic, sq_Data = data\<rparr>)
                 (filter (\<lambda>m. ID m \<noteq> nodeID c) ms))"

text \<open>What follows the loop: assign a number, buffer, persist, broadcast, or post to every member.\<close>

definition publish_now ::
  "'s server_ops \<Rightarrow> pub_cfg \<Rightarrow> string \<Rightarrow> bytes \<Rightarrow> 's node \<Rightarrow> pub_effect list \<times> 's node" where
  "publish_now ops c topic data n =
     (let r = nrep n;
          seq = gm_val (rseq r) topic + 1;
          r' = put_buf topic seq data (r\<lparr>rseq := gm_put topic seq (rseq r)\<rparr>);
          d' = (if ReplBufferDir c \<noteq> [] then WriteFile (bufFilePath (ReplBufferDir c) topic seq) data (disk n)
                else disk n);
          pre = (if has_app c then [HandleSync topic data] else [])
            @ [Metric (MInc ReplicationPublishedTotal [topic]), Metric (MSet ReplicationSeq [topic] (uint seq))];
          (cnt, sv') = (case Broadcast_op ops of None \<Rightarrow> (0, server n) | Some b \<Rightarrow> b topic data seq (server n))
      in (pre @ (if 0 < cnt then [] else post_all c topic data),
          \<lparr>nrep = r', disk = d', server = sv'\<rparr>))"

definition Publish ::
  "'s server_ops \<Rightarrow> pub_cfg \<Rightarrow> (nat \<Rightarrow> gerror option) \<Rightarrow> (nat \<Rightarrow> 's node \<Rightarrow> 's node) \<Rightarrow>
   string \<Rightarrow> bytes \<Rightarrow> 's node \<Rightarrow> (gerror option \<times> pub_effect list \<times> 's node) option" where
  "Publish ops c cancel env topic data n =
     (if \<not> is_leader c then Some (Some err_not_leader, [], n)
      else (case window_wait ops (window_of c) topic cancel env 0 n of
          None \<Rightarrow> None
        | Some (Some err, n') \<Rightarrow> Some (Some err, [], n')
        | Some (None, n') \<Rightarrow> Some (None, publish_now ops c topic data n')))"

section \<open>The retry loop\<close>

partial_function (option) resend ::
  "(string \<Rightarrow> bytes \<Rightarrow> uint64 \<Rightarrow> 's \<Rightarrow> nat \<times> 's) \<Rightarrow> string \<Rightarrow> (uint64, bytes) gomap \<Rightarrow>
   uint64 \<Rightarrow> uint64 \<Rightarrow> 's \<Rightarrow> 's option" where
  "resend b topic msgs mx s sv =
     (if s \<le> mx
      then resend b topic msgs mx (s + 1)
             (case gm_get msgs s of None \<Rightarrow> sv | Some data \<Rightarrow> snd (b topic data s sv))
      else Some sv)"

text \<open>One topic: drop what is acknowledged, with its files, then send the rest again.\<close>

definition retry_topic ::
  "'s server_ops \<Rightarrow> string \<Rightarrow> (string, uint64) gomap \<Rightarrow> string \<Rightarrow> 's node \<Rightarrow> 's node option" where
  "retry_topic ops dir acked topic n =
     (let a = gm_val acked topic;
          msgs = topic_buf (nrep n) topic;
          gone = filter (\<lambda>(s, _). s \<le> a) msgs;
          kept = filter (\<lambda>(s, _). \<not> s \<le> a) msgs;
          d' = (if dir \<noteq> [] then fold (\<lambda>(s, _). Remove (bufFilePath dir topic s)) gone (disk n) else disk n);
          mx = gm_val (rseq (nrep n)) topic
      in map_option
           (\<lambda>sv'. n\<lparr>nrep := (nrep n)\<lparr>rbuf := gm_put topic kept (rbuf (nrep n))\<rparr>, disk := d', server := sv'\<rparr>)
           (case Broadcast_op ops of
              None \<Rightarrow> Some (server n)
            | Some b \<Rightarrow> resend b topic kept mx (a + 1) (server n)))"

fun retry_topics ::
  "'s server_ops \<Rightarrow> string \<Rightarrow> (string, uint64) gomap \<Rightarrow> string list \<Rightarrow> 's node \<Rightarrow> 's node option" where
  "retry_topics ops dir acked [] n = Some n"
| "retry_topics ops dir acked (t # ts) n =
     (case retry_topic ops dir acked t n of None \<Rightarrow> None | Some n' \<Rightarrow> retry_topics ops dir acked ts n')"

text \<open>One tick; \<open>rng\<close> is the order in which the buffer is ranged over.\<close>

definition retry_tick ::
  "'s server_ops \<Rightarrow> pub_cfg \<Rightarrow> (string list \<Rightarrow> string list) \<Rightarrow> 's node \<Rightarrow> 's node option" where
  "retry_tick ops c rng n =
     (if \<not> is_leader c then Some n
      else retry_topics ops (ReplBufferDir c)
             (case AckedAll_op ops of None \<Rightarrow> [] | Some f \<Rightarrow> f (server n))
             (rng (map fst (rbuf (nrep n)))) n)"

section \<open>Waiting for the window\<close>

text \<open>The node at the \<open>k\<close>th test of a loop whose first wait is number \<open>i\<close>.\<close>

primrec polled :: "(nat \<Rightarrow> 'n \<Rightarrow> 'n) \<Rightarrow> nat \<Rightarrow> 'n \<Rightarrow> nat \<Rightarrow> 'n" where
  "polled env i n 0 = n"
| "polled env i n (Suc k) = polled env (Suc i) (env i n) k"

lemma window_wait_open:
  assumes "\<And>j. j < k \<Longrightarrow> \<not> window_open ops w topic (polled env i n j) \<and> cancel (i + j) = None"
    and "window_open ops w topic (polled env i n k)"
  shows "window_wait ops w topic cancel env i n = Some (None, polled env i n k)"
  using assms
proof (induction k arbitrary: i n)
  case 0
  then show ?case by (subst window_wait.simps) simp
next
  case (Suc k)
  have "\<not> window_open ops w topic n" "cancel i = None" using Suc.prems(1) [of 0] by simp_all
  moreover have "window_wait ops w topic cancel env (Suc i) (env i n) = Some (None, polled env (Suc i) (env i n) k)"
    using Suc.prems(1) [of "Suc _"] Suc.prems(2) by (intro Suc.IH) auto
  ultimately show ?case by (subst window_wait.simps) simp
qed

lemma window_wait_cancelled:
  assumes "\<And>j. j \<le> k \<Longrightarrow> \<not> window_open ops w topic (polled env i n j)"
    and "\<And>j. j < k \<Longrightarrow> cancel (i + j) = None" and "cancel (i + k) = Some err"
  shows "window_wait ops w topic cancel env i n = Some (Some err, polled env i n k)"
  using assms
proof (induction k arbitrary: i n)
  case 0
  then show ?case by (subst window_wait.simps) simp
next
  case (Suc k)
  have "\<not> window_open ops w topic n" "cancel i = None" using Suc.prems(1,2) [of 0] by simp_all
  moreover have "window_wait ops w topic cancel env (Suc i) (env i n)
      = Some (Some err, polled env (Suc i) (env i n) k)"
    using Suc.prems(1,2) [of "Suc _"] Suc.prems(3) by (intro Suc.IH) auto
  ultimately show ?case by (subst window_wait.simps) simp
qed

text \<open>How a wait may end: at some test, with the window open or the context's error.\<close>

definition wait_result ::
  "'s server_ops \<Rightarrow> int \<Rightarrow> string \<Rightarrow> (nat \<Rightarrow> gerror option) \<Rightarrow> (nat \<Rightarrow> 's node \<Rightarrow> 's node) \<Rightarrow>
   nat \<Rightarrow> 's node \<Rightarrow> gerror option \<times> 's node \<Rightarrow> bool" where
  "wait_result ops w topic cancel env i n res \<longleftrightarrow> (\<exists>k. snd res = polled env i n k \<and>
     (fst res = None \<and> window_open ops w topic (polled env i n k)
      \<or> fst res \<noteq> None \<and> fst res = cancel (i + k) \<and> \<not> window_open ops w topic (polled env i n k)))"

lemma wait_result_Suc:
  "wait_result ops w topic cancel env (Suc i) (env i n) res \<Longrightarrow> wait_result ops w topic cancel env i n res"
  unfolding wait_result_def by (metis add_Suc_shift polled.simps(2))

lemma wait_result_0:
  "window_open ops w topic n \<Longrightarrow> wait_result ops w topic cancel env i n (None, n)"
  "\<not> window_open ops w topic n \<Longrightarrow> cancel i = Some err \<Longrightarrow>
     wait_result ops w topic cancel env i n (Some err, n)"
  unfolding wait_result_def by (rule exI [of _ 0], simp)+

lemma window_wait_Some:
  assumes "window_wait ops w topic cancel env i n = Some res"
  shows "wait_result ops w topic cancel env i n res"
  by (rule window_wait.raw_induct [OF _ assms, where P = wait_result])
    (auto intro: wait_result_0 wait_result_Suc split: if_splits option.splits)

lemma window_wait_blocks:
  assumes "\<And>k. \<not> window_open ops w topic (polled env i n k) \<and> cancel (i + k) = None"
  shows "window_wait ops w topic cancel env i n = None"
proof (rule ccontr)
  assume "window_wait ops w topic cancel env i n \<noteq> None"
  then obtain res where "window_wait ops w topic cancel env i n = Some res" by blast
  then show False using window_wait_Some assms by (fastforce simp: wait_result_def)
qed

section \<open>Resending\<close>

lemma word_Suc_le: "mx \<noteq> - 1 \<Longrightarrow> s \<le> mx \<Longrightarrow> s + 1 \<le> t \<longleftrightarrow> s < t" for s t mx :: uint64
  using inc_less_eq_iff [of s t] order_antisym_conv by blast

text \<open>The messages of a sorted buffer from \<open>s\<close> on: the one numbered \<open>s\<close>, then those after it.\<close>

lemma filter_from:
  fixes s mx :: uint64
  assumes "gm_wf m" and "mx \<noteq> - 1" and "s \<le> mx"
  shows "filter (\<lambda>(t, _). s \<le> t \<and> t \<le> mx) m =
    (case gm_get m s of None \<Rightarrow> [] | Some d \<Rightarrow> [(s, d)]) @ filter (\<lambda>(t, _). s + 1 \<le> t \<and> t \<le> mx) m"
  using assms(1)
proof (induction m)
  case (Cons p m)
  obtain t d where p: "p = (t, d)" by (cases p)
  have above: "\<forall>k \<in> fst ` set m. t < k" using Cons.prems p by simp
  note step = word_Suc_le [OF assms(2,3)]
  show ?case
  proof (cases "t = s")
    case True
    then have "gm_get m s = None" using above by (metis gm_get_eq_None less_irrefl)
    then show ?thesis using Cons True p assms(3) by (simp add: step)
  next
    case False
    have "gm_get m s = None" if "s < t" using that above by (metis gm_get_eq_None less_asym)
    then show ?thesis using Cons False p by (auto simp: step)
  qed
qed simp

lemma resend_eq:
  assumes "gm_wf m" and "mx \<noteq> - 1"
  shows "resend b topic m mx s sv =
    Some (fold (\<lambda>(t, d) sv. snd (b topic d t sv)) (filter (\<lambda>(t, _). s \<le> t \<and> t \<le> mx) m) sv)"
proof (induction "unat mx + 1 - unat s" arbitrary: s sv rule: less_induct)
  case less
  show ?case
  proof (cases "s \<le> mx")
    case True
    have "s \<noteq> - 1" using True assms(2) by (metis word_order.extremum_unique)
    then have "unat (s + 1) = unat s + 1" by (metis Suc_eq_plus1 add.commute max_word_wrap unatSuc)
    then have "unat mx + 1 - unat (s + 1) < unat mx + 1 - unat s"
      using True by (simp add: word_le_nat_alt)
    note IH = less [OF this]
    show ?thesis
      using True by (subst resend.simps)
        (simp add: IH filter_from [OF assms True] split: option.splits)
  next
    case False
    then have "filter (\<lambda>(t, _). s \<le> t \<and> t \<le> mx) m = []"
      by (auto simp: filter_empty_conv)
    then show ?thesis using False by (subst resend.simps) simp
  qed
qed

section \<open>Effects on the buffer\<close>

definition msg_at :: "rep \<Rightarrow> string \<Rightarrow> uint64 \<Rightarrow> bytes option" where
  "msg_at r topic seq = gm_get (topic_buf r topic) seq"

definition rep_inv :: "rep \<Rightarrow> bool" where
  "rep_inv r \<longleftrightarrow> gm_wf (rbuf r) \<and> gm_wf (rseq r) \<and> (\<forall>(t, m) \<in> set (rbuf r). gm_wf m)"

lemma topic_buf_wf: "rep_inv r \<Longrightarrow> gm_wf (topic_buf r topic)"
  by (auto simp: topic_buf_def rep_inv_def dest!: gm_get_in split: option.splits)

lemma topic_buf_put [simp]:
  "topic_buf (r\<lparr>rbuf := gm_put t m (rbuf r)\<rparr>) t' = (if t' = t then m else topic_buf r t')"
  "topic_buf (r\<lparr>rseq := q\<rparr>) = topic_buf r"
  by (simp_all add: topic_buf_def fun_eq_iff)

lemma msg_at_put_buf [simp]:
  "msg_at (put_buf t s d r) t' s' = (if t' = t \<and> s' = s then Some d else msg_at r t' s')"
  by (simp add: msg_at_def put_buf_def)

lemma msg_at_rseq [simp]: "msg_at (r\<lparr>rseq := q\<rparr>) = msg_at r"
  by (simp add: msg_at_def fun_eq_iff)

lemma rseq_put_buf [simp]: "rseq (put_buf t s d r) = rseq r"
  by (simp add: put_buf_def)

lemma gm_put_values:
  assumes "gm_wf b" and "\<forall>(t, m) \<in> set b. P m" and "P m'"
  shows "\<forall>(t, m) \<in> set (gm_put t' m' b). P m"
proof (clarify)
  fix t m assume "(t, m) \<in> set (gm_put t' m' b)"
  then have "gm_get (gm_put t' m' b) t = Some m" using assms(1) by (subst gm_get_iff) auto
  then show "P m" using assms(2,3) by (auto dest!: gm_get_in split: if_splits)
qed

lemma rep_inv_rbuf: "rep_inv r \<Longrightarrow> gm_wf m \<Longrightarrow> rep_inv (r\<lparr>rbuf := gm_put t m (rbuf r)\<rparr>)"
  using gm_put_values [of "rbuf r" gm_wf m t] by (simp add: rep_inv_def)

lemma rep_inv_put_buf: "rep_inv r \<Longrightarrow> rep_inv (put_buf t s d r)"
  unfolding put_buf_def by (rule rep_inv_rbuf) (simp_all add: topic_buf_wf)

lemma rep_inv_rseq [simp]: "rep_inv r \<Longrightarrow> rep_inv (r\<lparr>rseq := gm_put t s (rseq r)\<rparr>)"
  by (simp add: rep_inv_def)

lemma publish_now_effect:
  "rseq (nrep (snd (publish_now ops c topic data n))) =
     gm_put topic (gm_val (rseq (nrep n)) topic + 1) (rseq (nrep n))"
  "msg_at (nrep (snd (publish_now ops c topic data n))) t s =
     (if t = topic \<and> s = gm_val (rseq (nrep n)) topic + 1 then Some data else msg_at (nrep n) t s)"
  "rep_inv (nrep n) \<Longrightarrow> rep_inv (nrep (snd (publish_now ops c topic data n)))"
  by (simp_all add: publish_now_def rep_inv_put_buf Let_def split: prod.splits)

lemma gm_get_filter:
  "gm_get (filter (\<lambda>(k, _). P k) m) k = (if P k then gm_get m k else None)"
  by (induction m) auto

lemma gm_wf_filter: "gm_wf m \<Longrightarrow> gm_wf (filter P m)"
  by (induction m) auto

lemma retry_topic_effect:
  assumes "rep_inv (nrep n)" and "gm_val (rseq (nrep n)) topic \<noteq> - 1"
  shows "\<exists>n'. retry_topic ops dir acked topic n = Some n' \<and> rep_inv (nrep n')
    \<and> rseq (nrep n') = rseq (nrep n)
    \<and> (\<forall>t s. msg_at (nrep n') t s =
         (if t = topic \<and> s \<le> gm_val acked topic then None else msg_at (nrep n) t s))"
proof -
  let ?kept = "filter (\<lambda>(s, _). \<not> s \<le> gm_val acked topic) (topic_buf (nrep n) topic)"
  have wf: "gm_wf ?kept" using topic_buf_wf [OF assms(1)] by (rule gm_wf_filter)
  have get: "gm_get ?kept s = (if \<not> s \<le> gm_val acked topic then msg_at (nrep n) topic s else None)" for s
    unfolding msg_at_def by (rule gm_get_filter)
  show ?thesis
    using wf rep_inv_rbuf [OF assms(1) wf, of topic]
    by (cases "Broadcast_op ops")
      (auto simp: retry_topic_def Let_def resend_eq [OF wf assms(2)] msg_at_def get [unfolded msg_at_def])
qed

text \<open>Which messages one topic's turn sends again, in which order, and what it does to the server.\<close>

lemma retry_topic_server:
  assumes "rep_inv (nrep n)" and "gm_val (rseq (nrep n)) topic \<noteq> - 1" and "Broadcast_op ops = Some b"
    and "retry_topic ops dir acked topic n = Some n'"
  shows "server n' = fold (\<lambda>(s, d) sv. snd (b topic d s sv))
      (filter (\<lambda>(s, _). gm_val acked topic < s \<and> s \<le> gm_val (rseq (nrep n)) topic) (topic_buf (nrep n) topic))
      (server n)"
proof -
  let ?a = "gm_val acked topic" and ?mx = "gm_val (rseq (nrep n)) topic"
  let ?kept = "filter (\<lambda>(s, _). \<not> s \<le> ?a) (topic_buf (nrep n) topic)"
  have wf: "gm_wf ?kept" using topic_buf_wf [OF assms(1)] by (rule gm_wf_filter)
  have "(\<not> s \<le> ?a) \<and> ?a + 1 \<le> s \<and> s \<le> ?mx \<longleftrightarrow> ?a < s \<and> s \<le> ?mx" for s
    using inc_le [of ?a s] by auto
  then have "filter (\<lambda>(s, _). ?a + 1 \<le> s \<and> s \<le> ?mx) ?kept =
      filter (\<lambda>(s, _). ?a < s \<and> s \<le> ?mx) (topic_buf (nrep n) topic)"
    by (auto simp: split_def intro!: filter_cong)
  then show ?thesis
    using assms(3,4) by (auto simp: retry_topic_def Let_def resend_eq [OF wf assms(2)])
qed

lemma retry_topics_effect:
  assumes "rep_inv (nrep n)" and "\<forall>t \<in> set ts. gm_val (rseq (nrep n)) t \<noteq> - 1"
  shows "\<exists>n'. retry_topics ops dir acked ts n = Some n' \<and> rep_inv (nrep n')
    \<and> rseq (nrep n') = rseq (nrep n)
    \<and> (\<forall>t s. msg_at (nrep n') t s =
         (if t \<in> set ts \<and> s \<le> gm_val acked t then None else msg_at (nrep n) t s))"
  using assms
proof (induction ts arbitrary: n)
  case (Cons t ts)
  have "gm_val (rseq (nrep n)) t \<noteq> - 1" using Cons.prems(2) by simp
  from retry_topic_effect [OF Cons.prems(1) this, of ops dir acked]
  obtain n1 where n1: "retry_topic ops dir acked t n = Some n1" "rep_inv (nrep n1)"
    "rseq (nrep n1) = rseq (nrep n)"
    "\<And>t' s. msg_at (nrep n1) t' s = (if t' = t \<and> s \<le> gm_val acked t then None else msg_at (nrep n) t' s)"
    by auto
  from Cons.IH [of n1] n1(2,3) Cons.prems(2)
  obtain n2 where "retry_topics ops dir acked ts n1 = Some n2" "rep_inv (nrep n2)"
    "rseq (nrep n2) = rseq (nrep n1)"
    "\<And>t' s. msg_at (nrep n2) t' s = (if t' \<in> set ts \<and> s \<le> gm_val acked t' then None else msg_at (nrep n1) t' s)"
    by auto
  then show ?case using n1 by auto
qed simp

section \<open>Effects on the server\<close>

lemma fold_bcast_inv:
  "P sv \<Longrightarrow> (\<And>d q sv. (q, d) \<in> set ms \<Longrightarrow> P sv \<Longrightarrow> P (snd (b topic d q sv))) \<Longrightarrow>
   P (fold (\<lambda>(q, d) sv. snd (b topic d q sv)) ms sv)"
  by (induction ms arbitrary: sv) auto

text \<open>What every broadcast keeps, publishing and retrying keep.\<close>

lemma publish_now_server_inv:
  assumes "P (server n)" and "\<And>b t d q sv. Broadcast_op ops = Some b \<Longrightarrow> P sv \<Longrightarrow> P (snd (b t d q sv))"
  shows "P (server (snd (publish_now ops c topic data n)))"
proof -
  have "server (snd (publish_now ops c topic data n)) = (case Broadcast_op ops of None \<Rightarrow> server n
      | Some b \<Rightarrow> snd (b topic data (gm_val (rseq (nrep n)) topic + 1) (server n)))"
    by (simp add: publish_now_def Let_def split: option.splits prod.splits)
  then show ?thesis using assms by (auto split: option.splits)
qed

text \<open>A tick broadcasts only messages that are buffered, so it keeps what such broadcasts keep.\<close>

lemma retry_topics_server_inv:
  assumes "rep_inv (nrep n)" and "\<forall>t \<in> set ts. gm_val (rseq (nrep n)) t \<noteq> - 1" and "P (server n)"
    and "\<forall>t q d. msg_at (nrep n) t q = Some d \<longrightarrow> Q t d q"
    and P: "\<And>b t d q sv. Broadcast_op ops = Some b \<Longrightarrow> Q t d q \<Longrightarrow> P sv \<Longrightarrow> P (snd (b t d q sv))"
    and "retry_topics ops dir acked ts n = Some n'"
  shows "P (server n')"
  using assms(1,2,3,4,6)
proof (induction ts arbitrary: n)
  case (Cons t ts)
  have bound: "gm_val (rseq (nrep n)) t \<noteq> - 1" using Cons.prems(2) by simp
  from retry_topic_effect [OF Cons.prems(1) bound, of ops dir acked]
  obtain n1 where n1: "retry_topic ops dir acked t n = Some n1" "rep_inv (nrep n1)"
    "rseq (nrep n1) = rseq (nrep n)"
    "\<forall>t' q. msg_at (nrep n1) t' q = (if t' = t \<and> q \<le> gm_val acked t then None else msg_at (nrep n) t' q)"
    by auto
  have "P (server n1)"
  proof (cases "Broadcast_op ops")
    case None
    then show ?thesis using n1(1) Cons.prems(3) by (auto simp: retry_topic_def Let_def)
  next
    case (Some b)
    have "Q t d q" if "(q, d) \<in> set (topic_buf (nrep n) t)" for q d
      using that Cons.prems(4) topic_buf_wf [OF Cons.prems(1), of t] by (simp add: msg_at_def gm_get_iff)
    then show ?thesis
      using P [OF Some] Cons.prems(3)
      by (subst retry_topic_server [OF Cons.prems(1) bound Some n1(1)]) (auto intro: fold_bcast_inv)
  qed
  moreover have "\<forall>t' q d. msg_at (nrep n1) t' q = Some d \<longrightarrow> Q t' d q"
    using n1(4) Cons.prems(4) by (auto split: if_splits)
  ultimately show ?case using Cons n1(1-3) by auto
qed simp

section \<open>What a client of the server interface sees\<close>

context replication_server
begin

text \<open>Publishing and retrying send messages but acknowledge nothing.\<close>

lemma publish_keeps_acks:
  assumes "Broadcast_op ops = Some bcast"
  shows "acked_all (server (snd (publish_now ops c topic data n))) = acked_all (server n)"
  by (rule publish_now_server_inv) (use assms in \<open>auto simp: bcast_keeps_acks\<close>)

end

section \<open>A leader with the gRPC server\<close>

definition grpc_ops :: "ranges \<Rightarrow> (pointer \<Rightarrow> bool) \<Rightarrow> Server server_ops" where
  "grpc_ops r send =
     \<lparr>AckedAll_op = Some (AckedAll r),
      Broadcast_op = Some (\<lambda>topic data seq s.
        (b_cnt (fst (BroadcastWithSeq r send topic data seq s)), snd (BroadcastWithSeq r send topic data seq s)))\<rparr>"

text \<open>
  The steps of a leader: a publication (its wait is over), a tick of the retry loop, and what
  the followers' streams and acknowledgements do to the server. The side condition on
  sequence numbers says that a topic has had fewer than \<open>2 ^ 64 - 2\<close> messages: at the largest
  number the resend loop would not end.
\<close>

definition seq_bound :: "rep \<Rightarrow> bool" where
  "seq_bound r \<longleftrightarrow> (\<forall>t. gm_val (rseq r) t < - 2)"

inductive leader_step :: "pub_cfg \<Rightarrow> Server node \<Rightarrow> Server node \<Rightarrow> bool" for c where
  publish: "ranges_ok r \<Longrightarrow> seq_bound (nrep n) \<Longrightarrow> window_open (grpc_ops r send) (window_of c) topic n \<Longrightarrow>
    leader_step c n (snd (publish_now (grpc_ops r send) c topic data n))"
| tick: "ranges_ok r \<Longrightarrow> seq_bound (nrep n) \<Longrightarrow> retry_tick (grpc_ops r send) c rng n = Some n' \<Longrightarrow>
    leader_step c n n'"
| ack: "ranges_ok r \<Longrightarrow> leader_step c n (n\<lparr>server := snd (server_Ack r a (server n))\<rparr>)"
| open_stream: "leader_step c n (n\<lparr>server := snd (addSub p m (server n))\<rparr>)"
| close_stream: "leader_step c n (n\<lparr>server := snd (removeSub p (server n))\<rparr>)"

inductive_cases leader_stepE: "leader_step c n n'"

definition leader_inv :: "Server node \<Rightarrow> bool" where
  "leader_inv n \<longleftrightarrow> rep_inv (nrep n) \<and> server_reachable (server n)
     \<and> (\<forall>t s. msg_at (nrep n) t s \<noteq> None \<longrightarrow> 0 < s \<and> s \<le> gm_val (rseq (nrep n)) t)"

lemma grpc_bcast_reachable:
  "ranges_ok r \<Longrightarrow> Broadcast_op (grpc_ops r send) = Some b \<Longrightarrow> server_reachable sv \<Longrightarrow>
   server_reachable (snd (b t d q sv))"
  by (auto simp: grpc_ops_def intro: server_reachable.broadcast)

lemma seq_bound_ne: "seq_bound r \<Longrightarrow> gm_val (rseq r) t \<noteq> - 1"
  unfolding seq_bound_def by (metis word_order.extremum not_le)

lemma seq_bound_Suc:
  assumes "seq_bound r"
  shows "gm_val (rseq r) t < gm_val (rseq r) t + 1" and "0 < gm_val (rseq r) t + 1"
proof -
  show "gm_val (rseq r) t < gm_val (rseq r) t + 1"
    using seq_bound_ne [OF assms, of t] inc_less_eq_self_iff_eq [of "gm_val (rseq r) t"] by auto
  then show "0 < gm_val (rseq r) t + 1" by (metis word_gt_0 word_not_simps(1))
qed

lemma publish_leader_inv:
  assumes "leader_inv n" and "ranges_ok r" and "seq_bound (nrep n)"
  shows "leader_inv (snd (publish_now (grpc_ops r send) c topic data n))"
proof -
  let ?n = "snd (publish_now (grpc_ops r send) c topic data n)"
  have "server_reachable (server ?n)"
  proof (rule publish_now_server_inv [where P = server_reachable])
    show "server_reachable (server n)" using assms(1) by (simp add: leader_inv_def)
  qed (rule grpc_bcast_reachable [OF assms(2)])
  moreover have "0 < s \<and> s \<le> gm_val (rseq (nrep ?n)) t" if m: "msg_at (nrep ?n) t s \<noteq> None" for t s
  proof (cases "t = topic \<and> s = gm_val (rseq (nrep n)) topic + 1")
    case True
    then show ?thesis using seq_bound_Suc(2) [OF assms(3)] by (simp add: publish_now_effect)
  next
    case False
    then have "0 < s \<and> s \<le> gm_val (rseq (nrep n)) t"
      using m assms(1) unfolding publish_now_effect(2) leader_inv_def by metis
    then show ?thesis
      using seq_bound_Suc(1) [OF assms(3), of topic] by (auto simp: publish_now_effect(1))
  qed
  ultimately show ?thesis using assms(1) publish_now_effect(3) by (auto simp: leader_inv_def)
qed

lemma retry_tick_effect:
  assumes "leader_inv n" and "ranges_ok r" and "seq_bound (nrep n)"
    and "retry_tick (grpc_ops r send) c rng n = Some n'"
  shows "leader_inv n' \<and> rseq (nrep n') = rseq (nrep n) \<and>
    (\<forall>t s. msg_at (nrep n') t s = msg_at (nrep n) t s
        \<or> msg_at (nrep n') t s = None \<and> s \<le> gm_val (AckedAll r (server n)) t)"
proof (cases "is_leader c")
  case True
  let ?ts = "rng (map fst (rbuf (nrep n)))"
  have t: "retry_topics (grpc_ops r send) (ReplBufferDir c) (AckedAll r (server n)) ?ts n = Some n'"
    using assms(4) True by (simp add: retry_tick_def grpc_ops_def)
  have b: "\<forall>t \<in> set ?ts. gm_val (rseq (nrep n)) t \<noteq> - 1" using assms(3) seq_bound_ne by blast
  have inv: "rep_inv (nrep n)" "server_reachable (server n)" using assms(1) by (simp_all add: leader_inv_def)
  have "server_reachable (server n')"
    by (rule retry_topics_server_inv [where P = server_reachable and Q = "\<lambda>_ _ _. True", OF inv(1) b inv(2) _ _ t])
      (use grpc_bcast_reachable [OF assms(2)] in auto)
  then show ?thesis
    using retry_topics_effect [OF inv(1) b, of "grpc_ops r send" "ReplBufferDir c" "AckedAll r (server n)"]
      t assms(1) by (auto simp: leader_inv_def)
qed (use assms in \<open>simp add: retry_tick_def\<close>)

lemma leader_step_inv: "leader_step c n n' \<Longrightarrow> leader_inv n \<Longrightarrow> leader_inv n'"
proof (induction rule: leader_step.induct)
  case (publish r n send topic data)
  then show ?case by (intro publish_leader_inv)
next
  case (tick r n send rng n')
  then show ?case using retry_tick_effect by blast
qed (auto simp: leader_inv_def intro: server_reachable.intros)

lemma leader_run_inv: "(leader_step c)\<^sup>*\<^sup>* n n' \<Longrightarrow> leader_inv n \<Longrightarrow> leader_inv n'"
  by (induction rule: rtranclp_induct) (auto intro: leader_step_inv)

text \<open>One step keeps a buffered message, or drops it when its number is acknowledged.\<close>

lemma leader_step_keeps:
  assumes "leader_step c n n'" and "leader_inv n" and "msg_at (nrep n) t s = Some d"
  shows "msg_at (nrep n') t s = Some d \<or> (\<exists>r. ranges_ok r \<and> s \<le> gm_val (AckedAll r (server n)) t)"
  using assms(1)
proof (cases rule: leader_step.cases)
  case (publish r send topic data)
  have "s \<le> gm_val (rseq (nrep n)) t" using assms(2,3) by (simp add: leader_inv_def)
  then have "\<not> (t = topic \<and> s = gm_val (rseq (nrep n)) topic + 1)"
    using seq_bound_Suc(1) [OF publish(3), of t] by auto
  then show ?thesis using publish assms(3) by (auto simp: publish_now_effect)
next
  case (tick r send rng)
  then show ?thesis using retry_tick_effect [OF assms(2) tick] assms(3) by metis
qed (use assms(3) in auto)

lemma leader_run_keeps:
  assumes "(leader_step c)\<^sup>*\<^sup>* n n'" and "leader_inv n" and "msg_at (nrep n) t s = Some d"
  shows "msg_at (nrep n') t s = Some d \<or>
    (\<exists>m r. (leader_step c)\<^sup>*\<^sup>* n m \<and> (leader_step c)\<^sup>*\<^sup>* m n' \<and> leader_inv m \<and> ranges_ok r
       \<and> s \<le> gm_val (AckedAll r (server m)) t)"
  using assms(1)
proof (induction rule: rtranclp_induct)
  case base
  then show ?case using assms(3) by simp
next
  case (step x y)
  have x: "leader_inv x" using step(1) assms(2) by (rule leader_run_inv)
  have xy: "(leader_step c)\<^sup>*\<^sup>* x y" using step(2) by (rule r_into_rtranclp)
  from step.IH show ?case
  proof
    assume "msg_at (nrep x) t s = Some d"
    from leader_step_keeps [OF step(2) x this] show ?thesis using step(1) xy x by blast
  next
    assume "\<exists>m r. (leader_step c)\<^sup>*\<^sup>* n m \<and> (leader_step c)\<^sup>*\<^sup>* m x \<and> leader_inv m \<and> ranges_ok r
       \<and> s \<le> gm_val (AckedAll r (server m)) t"
    then show ?thesis using xy by (meson rtranclp_trans)
  qed
qed

definition node0 :: "fs \<Rightarrow> 's \<Rightarrow> 's node" where
  "node0 f sv = \<lparr>nrep = \<lparr>rseq = [], rbuf = []\<rparr>, disk = f, server = sv\<rparr>"

lemma node0_inv: "server_reachable sv \<Longrightarrow> leader_inv (node0 f sv)"
  by (simp add: leader_inv_def node0_def rep_inv_def msg_at_def topic_buf_def)

section \<open>Properties\<close>

text \<open>
  C1. At-least-once: in every run of a leader with the gRPC server, a buffered message stays in
  the retry buffer until a moment at which some node has acknowledged on its topic and no
  node that ever acknowledged on it has an acknowledgement below the message's number.
\<close>

theorem replication_retention:
  assumes "server_reachable sv" and "(leader_step c)\<^sup>*\<^sup>* (node0 f sv) n"
    and "msg_at (nrep n) t s = Some d" and "(leader_step c)\<^sup>*\<^sup>* n n'"
  shows "msg_at (nrep n') t s = Some d \<or>
    (\<exists>m. (leader_step c)\<^sup>*\<^sup>* n m \<and> (leader_step c)\<^sup>*\<^sup>* m n' \<and> (\<exists>node v. ack_of (server m) t node = Some v)
       \<and> (\<forall>node v. ack_of (server m) t node = Some v \<longrightarrow> s \<le> v))"
proof -
  have inv: "leader_inv n" using assms(2) node0_inv [OF assms(1)] by (rule leader_run_inv)
  have s: "0 < s" using inv assms(3) unfolding leader_inv_def by blast
  from leader_run_keeps [OF assms(4) inv assms(3)] show ?thesis
  proof
    assume "\<exists>m r. (leader_step c)\<^sup>*\<^sup>* n m \<and> (leader_step c)\<^sup>*\<^sup>* m n' \<and> leader_inv m \<and> ranges_ok r
       \<and> s \<le> gm_val (AckedAll r (server m)) t"
    then obtain m r where m: "(leader_step c)\<^sup>*\<^sup>* n m" "(leader_step c)\<^sup>*\<^sup>* m n'"
      "server_reachable (server m)" "ranges_ok r" "s \<le> gm_val (AckedAll r (server m)) t"
      by (auto simp: leader_inv_def)
    let ?A = "gm_val (AckedAll r (server m)) t"
    have "ack_of (server m) t node = Some v \<Longrightarrow> ?A \<le> v" for node v
      using AckedAll_le [OF m(3,4)] .
    moreover have "\<exists>node. ack_of (server m) t node = Some ?A"
      using AckedAll_attained [OF m(3,4), of t] s m(5) by auto
    ultimately show ?thesis using m(1,2,5) order.trans by blast
  qed simp
qed

definition cfg1 :: pub_cfg where
  "cfg1 = \<lparr>is_leader = True, ReplWindow = 0, ReplBufferDir = [], has_app = True, has_rpcC = True,
     cur_members = Some [\<lparr>ID = ''n1'', Addr = ''a:1'', Meta = None\<rparr>,
       \<lparr>ID = ''n2'', Addr = ''b:1'', Meta = Some [(''mgmt'', ''b:2'')]\<rparr>], nodeID = ''n1''\<rparr>"

abbreviation ops1 :: "Server server_ops" where
  "ops1 \<equiv> grpc_ops ranges_id (\<lambda>p. True)"

definition fs0 :: fs where
  "fs0 = \<lparr>files = [], dirs = [], io_err = []\<rparr>"

text \<open>The node after a first publication on the topic \<open>u\<close>.\<close>

definition node1 :: "Server node" where
  "node1 = snd (publish_now ops1 cfg1 ''u'' ''x'' (node0 fs0 server_two))"

lemma node1_run: "(leader_step cfg1)\<^sup>*\<^sup>* (node0 fs0 server_two) node1"
proof -
  have "window_open ops1 (window_of cfg1) ''u'' (node0 fs0 server_two)"
    by (simp add: window_open_def read_minAck_def grpc_ops_def gm_val_AckedAll minAck_eq topic_acks_def
        server_two_eq node0_def window_of_def cfg1_def)
  moreover have "seq_bound (nrep (node0 fs0 server_two))"
    by (simp add: seq_bound_def node0_def word_gt_0)
  ultimately have "leader_step cfg1 (node0 fs0 server_two) node1"
    unfolding node1_def by (intro leader_step.publish) simp_all
  then show ?thesis by blast
qed

lemma node1_msg: "msg_at (nrep node1) ''u'' 1 = Some ''x''"
  by (simp add: node1_def publish_now_effect node0_def)

theorem replication_retention_witness:
  "msg_at (nrep node1) ''u'' 1 = Some ''x'' \<or>
    (\<exists>m. (leader_step cfg1)\<^sup>*\<^sup>* node1 m \<and> (leader_step cfg1)\<^sup>*\<^sup>* m node1
       \<and> (\<exists>node v. ack_of (server m) ''u'' node = Some v)
       \<and> (\<forall>node v. ack_of (server m) ''u'' node = Some v \<longrightarrow> 1 \<le> v))"
  by (rule replication_retention [OF server_two_reachable node1_run node1_msg rtranclp.rtrancl_refl])

text \<open>
  What a successful publication from the state \<open>m\<close> amounts to: the topic's number goes up by
  one, the message is buffered under it, nothing else in the buffer changes, the local
  handler runs first, and the message is posted to every other member exactly when the
  broadcast reached no subscriber.
\<close>

definition published ::
  "'s server_ops \<Rightarrow> pub_cfg \<Rightarrow> string \<Rightarrow> bytes \<Rightarrow> 's node \<Rightarrow> pub_effect list \<Rightarrow> 's node \<Rightarrow> bool" where
  "published ops c topic data m effs n' \<longleftrightarrow>
     (let seq = gm_val (rseq (nrep m)) topic + 1;
          reached = (case Broadcast_op ops of None \<Rightarrow> 0 | Some b \<Rightarrow> fst (b topic data seq (server m)))
      in rseq (nrep n') = gm_put topic seq (rseq (nrep m))
       \<and> (\<forall>t s. msg_at (nrep n') t s = (if t = topic \<and> s = seq then Some data else msg_at (nrep m) t s))
       \<and> effs = (if has_app c then [HandleSync topic data] else [])
            @ [Metric (MInc ReplicationPublishedTotal [topic]), Metric (MSet ReplicationSeq [topic] (uint seq))]
            @ (if reached = 0 then post_all c topic data else []))"

lemma publish_now_published:
  "published ops c topic data m (fst (publish_now ops c topic data m)) (snd (publish_now ops c topic data m))"
  unfolding published_def Let_def publish_now_effect
  by (simp add: publish_now_def Let_def split: option.splits prod.splits)

text \<open>
  C9. What \<open>Publish\<close> does. A follower gets \<open>ErrNotLeader\<close> and nothing happens; a cancelled
  wait returns the context's error and nothing happens. Otherwise it succeeds at a moment
  when the window is open, with exactly the effects of one publication (the predicate
  \<open>published\<close>): next number, buffered message, local handler first, fan-out.
\<close>

theorem publish_spec:
  assumes "Publish ops c cancel env topic data n = Some (err, effs, n')"
  shows "case err of
      Some e \<Rightarrow> effs = [] \<and> (\<not> is_leader c \<and> e = err_not_leader \<and> n' = n
        \<or> is_leader c \<and> (\<exists>k. cancel k = Some e \<and> n' = polled env 0 n k))
    | None \<Rightarrow> is_leader c \<and> (\<exists>k. window_open ops (window_of c) topic (polled env 0 n k)
        \<and> published ops c topic data (polled env 0 n k) effs n')"
proof (cases "is_leader c")
  case False
  then have "err = Some err_not_leader" "effs = []" "n' = n" using assms by (simp_all add: Publish_def)
  then show ?thesis using False by simp
next
  case True
  then obtain e m where w: "window_wait ops (window_of c) topic cancel env 0 n = Some (e, m)"
    using assms by (auto simp: Publish_def split: option.splits)
  then obtain k where k: "m = polled env 0 n k"
    "e = None \<and> window_open ops (window_of c) topic m \<or> e \<noteq> None \<and> e = cancel k"
    using window_wait_Some [OF w] by (auto simp: wait_result_def)
  show ?thesis
  proof (cases e)
    case None
    then have r: "err = None" "(effs, n') = publish_now ops c topic data m"
      using assms True w by (simp_all add: Publish_def)
    have "published ops c topic data m effs n'"
      using publish_now_published [of ops c topic data m] r(2) by (metis fst_conv snd_conv)
    then show ?thesis using r(1) k None True by auto
  next
    case (Some x)
    then have "err = Some x" "effs = []" "n' = m" using assms True w by (simp_all add: Publish_def)
    moreover have "cancel k = Some x" using k(2) Some by auto
    ultimately show ?thesis using True k(1) by auto
  qed
qed

theorem publish_spec_witness:
  "\<exists>n'. Publish ops1 cfg1 (\<lambda>_. None) (\<lambda>_ n. n) ''u'' ''x'' (node0 fs0 (NewServer ''b''))
      = Some (None, [HandleSync ''u'' ''x'', Metric (MInc ReplicationPublishedTotal [''u'']),
          Metric (MSet ReplicationSeq [''u''] 1), PostAppSync ''b:2'' \<lparr>sq_Topic = ''u'', sq_Data = ''x''\<rparr>], n')
    \<and> msg_at (nrep n') ''u'' 1 = Some ''x''"
proof -
  let ?n = "node0 fs0 (NewServer ''b'')"
  have "window_open ops1 (window_of cfg1) ''u'' ?n"
    by (simp add: window_open_def read_minAck_def grpc_ops_def gm_val_AckedAll minAck_eq topic_acks_def
        NewServer_def node0_def window_of_def cfg1_def)
  then have "Publish ops1 cfg1 (\<lambda>_. None) (\<lambda>_ n. n) ''u'' ''x'' ?n
      = Some (None, publish_now ops1 cfg1 ''u'' ''x'' ?n)"
    by (simp add: Publish_def window_wait.simps cfg1_def)
  then obtain effs n' where P: "Publish ops1 cfg1 (\<lambda>_. None) (\<lambda>_ n. n) ''u'' ''x'' ?n = Some (None, effs, n')"
    by (metis surj_pair)
  have i: "polled (\<lambda>_ n. n) i m k = m" for i k :: nat and m :: "Server node"
    by (induction k arbitrary: i) auto
  show ?thesis
    using publish_spec [OF P] P
    by (auto simp: published_def Let_def i node0_def grpc_ops_def BroadcastWithSeq_def NewServer_def
        post_all_def mgmt_addr_def cfg1_def)
qed

text \<open>
  C19. When \<open>Publish\<close> comes back. On a leader it returns exactly when, at some poll, the
  window is open or the context is done: it blocks forever if neither ever happens, and if the window is open at the first
  poll it does not wait.
\<close>

theorem publish_returns_iff:
  assumes "is_leader c"
  shows "(Publish ops c cancel env topic data n \<noteq> None \<longleftrightarrow>
      (\<exists>k. window_open ops (window_of c) topic (polled env 0 n k) \<or> cancel k \<noteq> None))
    \<and> (window_open ops (window_of c) topic n \<longrightarrow>
      Publish ops c cancel env topic data n = Some (None, publish_now ops c topic data n))"
proof
  let ?open = "\<lambda>k. window_open ops (window_of c) topic (polled env 0 n k)"
  let ?w = "window_wait ops (window_of c) topic cancel env 0 n"
  have P: "Publish ops c cancel env topic data n \<noteq> None \<longleftrightarrow> ?w \<noteq> None"
    using assms by (auto simp: Publish_def split: option.splits)
  have "?w \<noteq> None" if "\<exists>k. ?open k \<or> cancel k \<noteq> None"
  proof -
    define k where "k = (LEAST k. ?open k \<or> cancel k \<noteq> None)"
    have k: "?open k \<or> cancel k \<noteq> None" unfolding k_def using that by (rule LeastI_ex)
    have before: "\<not> ?open j \<and> cancel j = None" if "j < k" for j
      using not_less_Least [of j] that unfolding k_def by blast
    show ?thesis
    proof (cases "?open k")
      case True
      then show ?thesis using window_wait_open [of k ops _ topic env 0 n cancel] before by simp
    next
      case False
      then obtain e where "cancel k = Some e" using k by blast
      then show ?thesis
        using window_wait_cancelled [of k ops _ topic env 0 n cancel e] before False
        by (metis add_0 le_less option.distinct(1))
    qed
  qed
  then show "Publish ops c cancel env topic data n \<noteq> None \<longleftrightarrow> (\<exists>k. ?open k \<or> cancel k \<noteq> None)"
    using P window_wait_blocks [of ops "window_of c" topic env 0 n cancel] by fastforce
  show "window_open ops (window_of c) topic n \<longrightarrow>
      Publish ops c cancel env topic data n = Some (None, publish_now ops c topic data n)"
    using assms by (auto simp: Publish_def window_wait.simps)
qed

theorem publish_returns_iff_witness:
  "Publish ops1 cfg1 (\<lambda>_. None) (\<lambda>_ n. n) ''u'' ''x'' (node0 fs0 server_two) = Some (None, [HandleSync ''u'' ''x'',
      Metric (MInc ReplicationPublishedTotal [''u'']), Metric (MSet ReplicationSeq [''u''] 1)], node1)"
proof -
  let ?n = "node0 fs0 server_two"
  have c: "is_leader cfg1" by (simp add: cfg1_def)
  have "window_open ops1 (window_of cfg1) ''u'' ?n"
    by (simp add: window_open_def read_minAck_def grpc_ops_def gm_val_AckedAll minAck_eq topic_acks_def
        server_two_eq node0_def window_of_def cfg1_def)
  then have "Publish ops1 cfg1 (\<lambda>_. None) (\<lambda>_ n. n) ''u'' ''x'' ?n
      = Some (None, publish_now ops1 cfg1 ''u'' ''x'' ?n)"
    using publish_returns_iff [OF c, of ops1 "\<lambda>_. None" "\<lambda>_ n. n" "''u''" "''x''" ?n] by blast
  moreover have "fst (publish_now ops1 cfg1 ''u'' ''x'' ?n) = [HandleSync ''u'' ''x'',
      Metric (MInc ReplicationPublishedTotal [''u'']), Metric (MSet ReplicationSeq [''u''] 1)]"
    by (simp add: publish_now_def Let_def grpc_ops_def server_two_eq node0_def cfg1_def BroadcastWithSeq_def
        ranges_id_def)
  ultimately show ?thesis by (simp add: node1_def prod_eq_iff)
qed

text \<open>
  With a server that cannot report acknowledgements (the HTTP server, or none), once a
  topic's number has reached the window, \<open>Publish\<close> on that topic never returns unless its
  context is cancelled or another component changes the topic's number.
\<close>

theorem publish_blocks_without_acks:
  assumes "is_leader c" and "AckedAll_op ops = None" and "window_of c \<le> sint (gm_val (rseq (nrep n)) topic)"
    and "\<forall>i m. rseq (nrep (env i m)) = rseq (nrep m)" and "\<forall>i. cancel i = None"
  shows "Publish ops c cancel env topic data n = None"
proof -
  have "rseq (nrep (polled env i m k)) = rseq (nrep m)" for i k m
    using assms(4) by (induction k arbitrary: i m) auto
  then have "\<not> window_open ops (window_of c) topic (polled env 0 n k)" for k
    using assms(2,3) by (simp add: window_open_def read_minAck_def)
  then have "window_wait ops (window_of c) topic cancel env 0 n = None"
    using assms(5) by (intro window_wait_blocks) simp
  then show ?thesis using assms(1) by (simp add: Publish_def)
qed

theorem publish_blocks_without_acks_witness:
  "Publish \<lparr>AckedAll_op = None, Broadcast_op = None\<rparr> (cfg1\<lparr>ReplWindow := 2\<rparr>) (\<lambda>_. None) (\<lambda>_ n. n) ''t'' ''x''
     \<lparr>nrep = \<lparr>rseq = [(''t'', 2)], rbuf = []\<rparr>, disk = fs0, server = ()\<rparr> = None"
  by (rule publish_blocks_without_acks) (simp_all add: cfg1_def window_of_def gm_val_def)

text \<open>
  C35. A tick of the retry loop returns whenever no topic has reached the largest number. It
  takes out of the buffer exactly the messages whose number is acknowledged on their topic,
  keeps all others with their data, and leaves the sequence numbers alone.
\<close>

theorem retry_tick_cleanup:
  assumes "rep_inv (nrep n)" and "\<forall>t. gm_val (rseq (nrep n)) t \<noteq> - 1" and "is_leader c"
    and "\<forall>ks. set (rng ks) = set ks"
  shows "\<exists>n'. retry_tick ops c rng n = Some n' \<and> rseq (nrep n') = rseq (nrep n)
    \<and> (\<forall>t s. msg_at (nrep n') t s =
         (if s \<le> read_minAck ops t (server n) then None else msg_at (nrep n) t s))"
proof -
  let ?a = "case AckedAll_op ops of None \<Rightarrow> [] | Some f \<Rightarrow> f (server n)"
  have a: "gm_val ?a t = read_minAck ops t (server n)" for t
    by (simp add: read_minAck_def split: option.splits)
  have out: "msg_at (nrep n) t s = None" if "t \<notin> fst ` set (rbuf (nrep n))" for t s
    using that gm_get_eq_None [of "rbuf (nrep n)" t] by (simp add: msg_at_def topic_buf_def)
  obtain n' where "retry_topics ops (ReplBufferDir c) ?a (rng (map fst (rbuf (nrep n)))) n = Some n'"
    "rseq (nrep n') = rseq (nrep n)"
    "\<forall>t s. msg_at (nrep n') t s = (if t \<in> set (rng (map fst (rbuf (nrep n)))) \<and> s \<le> gm_val ?a t then None
        else msg_at (nrep n) t s)"
    using retry_topics_effect [OF assms(1), of "rng (map fst (rbuf (nrep n)))"] assms(2) by blast
  then show ?thesis using assms(3,4) out unfolding a by (auto simp: retry_tick_def)
qed

definition node_two :: "Server node" where
  "node_two = \<lparr>nrep = \<lparr>rseq = [(''t'', 4)], rbuf = [(''t'', [(3, ''x''), (4, ''y'')])]\<rparr>, disk = fs0,
     server = server_two\<rparr>"

theorem retry_tick_cleanup_witness:
  "\<exists>n'. retry_tick ops1 cfg1 rev node_two = Some n'
    \<and> msg_at (nrep n') ''t'' 3 = None \<and> msg_at (nrep n') ''t'' 4 = Some ''y''"
proof -
  have i: "rep_inv (nrep node_two)" by (simp add: node_two_def rep_inv_def)
  have b: "\<forall>t. gm_val (rseq (nrep node_two)) t \<noteq> - 1" by (simp add: node_two_def gm_val_def)
  have c: "is_leader cfg1" by (simp add: cfg1_def)
  have m: "read_minAck ops1 ''t'' (server node_two) = 3"
    by (simp add: read_minAck_def grpc_ops_def gm_val_AckedAll minAck_eq node_two_def server_two_eq topic_acks_def)
  have g: "msg_at (nrep node_two) ''t'' 4 = Some ''y''" by (simp add: msg_at_def topic_buf_def node_two_def)
  show ?thesis using retry_tick_cleanup [OF i b c, of rev ops1] m g by auto
qed

text \<open>
  C20. The resend loop of a topic: unless the largest number is \<open>2 ^ 64 - 1\<close> it ends, having
  broadcast exactly the buffered messages with numbers from \<open>s\<close> to \<open>mx\<close>, each once and in
  ascending order; if the largest number is \<open>2 ^ 64 - 1\<close> the counter wraps and it never ends.
\<close>

theorem resend_loop:
  assumes "gm_wf m"
  shows "resend b topic m mx s sv =
    (if mx = - 1 then None
     else Some (fold (\<lambda>(t, d) sv. snd (b topic d t sv)) (filter (\<lambda>(t, _). s \<le> t \<and> t \<le> mx) m) sv))"
proof (cases "mx = - 1")
  case True
  have "mx \<noteq> - 1" if r: "resend b topic m mx s sv = Some y" for y
    by (rule resend.raw_induct [OF _ r, where P = "\<lambda>_ _ _ mx _ _ _. mx \<noteq> - 1"]) (auto split: if_splits)
  then show ?thesis using True by (metis not_Some_eq)
qed (simp add: resend_eq assms)

theorem resend_loop_witness:
  "resend (\<lambda>_ d q log. (1, log @ [(q, d)])) ''t'' [(2, ''a''), (3, ''b''), (5, ''c'')] 4 3 []
    = Some [(3::uint64, ''b'')]"
proof -
  have "gm_wf [(2::uint64, ''a''), (3, ''b''), (5, ''c'')]" by simp
  from resend_loop [OF this, of "\<lambda>_ d q log. (1, log @ [(q, d)])" "''t''" 4 3 "[]"]
  show ?thesis by simp
qed

lemma sint_small: "uint x < 2 ^ 63 \<Longrightarrow> sint x = uint x" for x :: uint64
  using signed_take_bit_int_eq_self [of 63 "uint x"] uint_nonnegative [of x] by (simp add: sint_uint)



end
