(* ===== verification/DiskBuffer.thy ===== *)
theory DiskBuffer
  imports Replication
begin

text \<open>
  The disk-backed retry buffer: what \<open>Publish\<close> and the retry loop keep on disk, and what
  \<open>restoreBufferFromDisk\<close> makes of it after a restart. A topic is clean when \<open>sanitizeTopic\<close>
  leaves it as it is; the file names of clean topics are unambiguous.
\<close>

section \<open>File names\<close>

definition clean_topic :: "string \<Rightarrow> bool" where
  "clean_topic t \<longleftrightarrow> t \<noteq> [] \<and> CHR ''/'' \<notin> set t \<and> CHR 0x5C \<notin> set t \<and> CHR '' '' \<notin> set t"

lemma sanitize_clean: "clean_topic t \<Longrightarrow> sanitizeTopic t = t"
  by (auto simp: clean_topic_def sanitizeTopic_def intro: map_idI)

lemma sanitizeTopic_clean: "t \<noteq> [] \<Longrightarrow> clean_topic (sanitizeTopic t)"
  by (auto simp: clean_topic_def sanitizeTopic_def)

lemma sanitizeTopic_Nil [simp]: "sanitizeTopic t = [] \<longleftrightarrow> t = []"
  by (simp add: sanitizeTopic_def)

lemma FormatUint_no_underscore: "CHR ''_'' \<notin> set (FormatUint w)"
  using FormatUint_digits is_digit_neq(1) by blast

lemma plain_bufFileName: "plain_name (bufFileName t s)"
proof -
  have "CHR ''/'' \<notin> set (FormatUint s)" by (auto dest!: FormatUint_digits simp: is_digit_def)
  moreover have "4 < length (bufFileName t s)" by (simp add: bufFileName_def)
  ultimately show ?thesis
    by (auto simp: plain_name_def bufFileName_def sanitizeTopic_def)
qed

lemma parse_bufFileName:
  assumes "t \<noteq> []"
  shows "parseBufName (bufFileName t s) = Some (sanitizeTopic t, s)"
proof -
  let ?base = "sanitizeTopic t @ CHR ''_'' # FormatUint s"
  have name: "bufFileName t s = ?base @ ''.bin''" by (simp add: bufFileName_def)
  have "LastIndex ?base (CHR ''_'') = int (length (sanitizeTopic t))"
    by (rule LastIndex_append) (rule FormatUint_no_underscore)
  moreover have "0 < length (sanitizeTopic t)" using assms by simp
  moreover have "HasSuffix (bufFileName t s) ''.bin''" "TrimSuffix (bufFileName t s) ''.bin'' = ?base"
    unfolding name by (rule HasSuffix_append, rule TrimSuffix_append)
  ultimately show ?thesis by (simp add: parseBufName_def Let_def)
qed

lemma parse_clean: "clean_topic t \<Longrightarrow> parseBufName (bufFileName t s) = Some (t, s)"
  by (metis clean_topic_def parse_bufFileName sanitize_clean)

lemma parseBufName_nonempty: "parseBufName n = Some (t, s) \<Longrightarrow> t \<noteq> []"
  by (auto simp: parseBufName_def Let_def LastIndex_def split: if_splits)

lemma bufFileName_inj:
  assumes "clean_topic t" and "clean_topic t'"
  shows "bufFileName t s = bufFileName t' s' \<longleftrightarrow> t = t' \<and> s = s'"
proof -
  have "parseBufName (bufFileName t s) = Some (t, s)" "parseBufName (bufFileName t' s') = Some (t', s')"
    using assms by (simp_all add: parse_clean)
  then show ?thesis by (metis old.prod.inject option.inject)
qed

lemma bufFilePath_inj:
  assumes "dir \<noteq> []" and "clean_topic t" and "clean_topic t'"
  shows "bufFilePath dir t s = bufFilePath dir t' s' \<longleftrightarrow> t = t' \<and> s = s'"
  using assms by (simp add: bufFilePath_def path_Join_inj plain_bufFileName bufFileName_inj)

section \<open>The buffer on disk\<close>

text \<open>
  The directory holds the buffered messages and no other file with a name that would be
  taken for one; all topics are clean, and input and output work.
\<close>

definition on_disk :: "string \<Rightarrow> fs \<Rightarrow> (string \<Rightarrow> uint64 \<Rightarrow> bytes option) \<Rightarrow> bool" where
  "on_disk dir f b \<longleftrightarrow> dir \<noteq> [] \<and> gm_wf (files f) \<and> io_err f = [] \<and> Clean dir \<in> set (dirs f)
     \<and> (\<forall>t s. b t s \<noteq> None \<longrightarrow> clean_topic t)
     \<and> (\<forall>n t s. plain_name n \<longrightarrow> parseBufName n = Some (t, s) \<longrightarrow>
          gm_get (files f) (path_Join dir n) = (if n = bufFileName t s then b t s else None))"

lemma on_disk_file:
  assumes "on_disk dir f b" and "clean_topic t"
  shows "gm_get (files f) (bufFilePath dir t s) = b t s"
proof -
  have "parseBufName (bufFileName t s) = Some (t, s)" using assms(2) by (rule parse_clean)
  then show ?thesis
    using assms(1) plain_bufFileName unfolding on_disk_def bufFilePath_def by metis
qed

lemma on_disk_write:
  assumes "on_disk dir f b" and "clean_topic t"
  shows "on_disk dir (WriteFile (bufFilePath dir t s) d f) (\<lambda>t' s'. if t' = t \<and> s' = s then Some d else b t' s')"
  using assms
  by (auto simp: on_disk_def WriteFile_def bufFilePath_def path_Join_inj plain_bufFileName parse_clean)

lemma on_disk_remove:
  assumes "on_disk dir f b" and "clean_topic t"
  shows "on_disk dir (Remove (bufFilePath dir t s) f) (\<lambda>t' s'. if t' = t \<and> s' = s then None else b t' s')"
  using assms
  by (auto simp: on_disk_def Remove_def bufFilePath_def path_Join_inj plain_bufFileName parse_clean)

lemma on_disk_cong: "on_disk dir f b \<Longrightarrow> (\<And>t s. b t s = b' t s) \<Longrightarrow> on_disk dir f b'"
  by (simp add: on_disk_def)

lemma publish_on_disk:
  assumes "on_disk (ReplBufferDir c) (disk n) (msg_at (nrep n))" and "clean_topic topic"
  shows "on_disk (ReplBufferDir c) (disk (snd (publish_now ops c topic data n)))
    (msg_at (nrep (snd (publish_now ops c topic data n))))"
proof (rule on_disk_cong)
  let ?q = "gm_val (rseq (nrep n)) topic + 1"
  have "disk (snd (publish_now ops c topic data n))
      = WriteFile (bufFilePath (ReplBufferDir c) topic ?q) data (disk n)"
    using assms(1) by (simp add: publish_now_def on_disk_def Let_def split: prod.splits)
  then show "on_disk (ReplBufferDir c) (disk (snd (publish_now ops c topic data n)))
      (\<lambda>t s. if t = topic \<and> s = ?q then Some data else msg_at (nrep n) t s)"
    using on_disk_write [OF assms] by simp
qed (simp add: publish_now_effect)

lemma on_disk_removes:
  assumes "on_disk dir f b" and "ms \<noteq> [] \<longrightarrow> clean_topic t"
  shows "on_disk dir (fold (\<lambda>(s, _). Remove (bufFilePath dir t s)) ms f)
    (\<lambda>t' s'. if t' = t \<and> s' \<in> fst ` set ms then None else b t' s')"
  using assms
proof (induction ms arbitrary: f b)
  case (Cons m ms)
  have "on_disk dir (Remove (bufFilePath dir t (fst m)) f)
      (\<lambda>t' s'. if t' = t \<and> s' = fst m then None else b t' s')"
    using Cons.prems by (intro on_disk_remove) auto
  then have "on_disk dir (fold (\<lambda>(s, _). Remove (bufFilePath dir t s)) ms (Remove (bufFilePath dir t (fst m)) f))
      (\<lambda>t' s'. if t' = t \<and> s' \<in> fst ` set ms then None else if t' = t \<and> s' = fst m then None else b t' s')"
    using Cons.prems(2) by (intro Cons.IH) auto
  then show ?case by (auto simp: split_def elim: on_disk_cong)
qed (auto elim: on_disk_cong)

lemma retry_topic_on_disk:
  assumes inv: "rep_inv (nrep n)" "gm_val (rseq (nrep n)) topic \<noteq> - 1"
    and disk: "on_disk dir (disk n) (msg_at (nrep n))"
    and r: "retry_topic ops dir acked topic n = Some n'"
  shows "on_disk dir (disk n') (msg_at (nrep n'))"
proof (rule on_disk_cong)
  let ?gone = "filter (\<lambda>(s, _). s \<le> gm_val acked topic) (topic_buf (nrep n) topic)"
  have d: "disk n' = fold (\<lambda>(s, _). Remove (bufFilePath dir topic s)) ?gone (disk n)"
    using r disk by (auto simp: retry_topic_def on_disk_def Let_def)
  have "?gone \<noteq> [] \<longrightarrow> clean_topic topic"
  proof
    assume gone: "?gone \<noteq> []"
    obtain s d where "(s, d) \<in> set (topic_buf (nrep n) topic)"
      using gone by (cases "topic_buf (nrep n) topic") auto
    then have "msg_at (nrep n) topic s = Some d"
      using topic_buf_wf [OF inv(1)] by (simp add: msg_at_def gm_get_iff)
    then show "clean_topic topic" using disk unfolding on_disk_def by blast
  qed
  then show "on_disk dir (disk n')
      (\<lambda>t s. if t = topic \<and> s \<in> fst ` set ?gone then None else msg_at (nrep n) t s)"
    unfolding d by (rule on_disk_removes [OF disk])
  have "s \<in> fst ` set ?gone \<longleftrightarrow> s \<le> gm_val acked topic \<and> msg_at (nrep n) topic s \<noteq> None" for s
    using gm_get_eq_None [of "topic_buf (nrep n) topic" s] by (auto simp: msg_at_def)
  then show "(if t = topic \<and> s \<in> fst ` set ?gone then None else msg_at (nrep n) t s) = msg_at (nrep n') t s" for t s
    using retry_topic_effect [OF inv, of ops dir acked] r by auto
qed

lemma retry_topics_on_disk:
  assumes "rep_inv (nrep n)" and "\<forall>t \<in> set ts. gm_val (rseq (nrep n)) t \<noteq> - 1"
    and "on_disk dir (disk n) (msg_at (nrep n))" and "retry_topics ops dir acked ts n = Some n'"
  shows "on_disk dir (disk n') (msg_at (nrep n'))"
  using assms
proof (induction ts arbitrary: n)
  case (Cons t ts)
  have bound: "gm_val (rseq (nrep n)) t \<noteq> - 1" using Cons.prems(2) by simp
  obtain n1 where n1: "retry_topic ops dir acked t n = Some n1" "rep_inv (nrep n1)"
    "rseq (nrep n1) = rseq (nrep n)"
    using retry_topic_effect [OF Cons.prems(1) bound, of ops dir acked] by auto
  have "on_disk dir (disk n1) (msg_at (nrep n1))"
    using Cons.prems(1) bound Cons.prems(3) n1(1) by (rule retry_topic_on_disk)
  then show ?case using Cons n1 by auto
qed simp

section \<open>Restoring\<close>

definition restored :: "string \<Rightarrow> fs \<Rightarrow> string \<times> bool \<Rightarrow> string \<Rightarrow> uint64 \<Rightarrow> bytes \<Rightarrow> bool" where
  "restored dir f e t s d \<longleftrightarrow>
     \<not> snd e \<and> parseBufName (fst e) = Some (t, s) \<and> ReadFile (path_Join dir (fst e)) f = Some d"

lemma restore_entry_cases:
  "(\<exists>t s d. restored dir f e t s d \<and> restore_entry dir f e r =
      (let r' = put_buf t s d r in if gm_val (rseq r) t < s then r'\<lparr>rseq := gm_put t s (rseq r)\<rparr> else r'))
   \<or> (\<forall>t s d. \<not> restored dir f e t s d) \<and> restore_entry dir f e r = r"
  by (auto simp: restore_entry_def restored_def Let_def split: option.splits)

lemma restore_entry_msg:
  assumes "\<forall>t s d. restored dir f e t s d \<longrightarrow> b t s = Some d"
  shows "msg_at (restore_entry dir f e r) t s = (if \<exists>d. restored dir f e t s d then b t s else msg_at r t s)"
  using restore_entry_cases [of dir f e r]
proof
  assume "\<exists>t s d. restored dir f e t s d \<and> restore_entry dir f e r =
      (let r' = put_buf t s d r in if gm_val (rseq r) t < s then r'\<lparr>rseq := gm_put t s (rseq r)\<rparr> else r')"
  then obtain t' s' d' where e: "restored dir f e t' s' d'"
    "msg_at (restore_entry dir f e r) t s = (if t = t' \<and> s = s' then Some d' else msg_at r t s)"
    by (auto simp: Let_def)
  have "(\<exists>d. restored dir f e t s d) \<longleftrightarrow> t = t' \<and> s = s'" using e(1) by (auto simp: restored_def)
  then show ?thesis using e assms by auto
qed auto

lemma restore_fold_msg:
  assumes "\<forall>e \<in> set es. \<forall>t s d. restored dir f e t s d \<longrightarrow> b t s = Some d"
  shows "msg_at (fold (restore_entry dir f) es r) t s =
    (if \<exists>e \<in> set es. \<exists>d. restored dir f e t s d then b t s else msg_at r t s)"
  using assms by (induction es arbitrary: r) (auto simp: restore_entry_msg)

text \<open>The sequence number of a topic is the largest number buffered on it, or 0.\<close>

definition seq_is_max :: "rep \<Rightarrow> bool" where
  "seq_is_max r \<longleftrightarrow> (\<forall>t. (\<forall>s. msg_at r t s \<noteq> None \<longrightarrow> s \<le> gm_val (rseq r) t)
     \<and> (gm_val (rseq r) t = 0 \<or> msg_at r t (gm_val (rseq r) t) \<noteq> None))"

lemma seq_is_max_put:
  assumes "seq_is_max r"
  shows "seq_is_max (if gm_val (rseq r) t < s then (put_buf t s d r)\<lparr>rseq := gm_put t s (rseq r)\<rparr>
      else put_buf t s d r)"
proof -
  have le: "s' \<le> gm_val (rseq r) t'" if "msg_at r t' s' = Some d'" for t' s' d'
    using assms that by (auto simp: seq_is_max_def)
  have at: "gm_val (rseq r) t' = 0 \<or> msg_at r t' (gm_val (rseq r) t') \<noteq> None" for t'
    using assms by (auto simp: seq_is_max_def)
  show ?thesis
  proof (cases "gm_val (rseq r) t < s")
    case True
    have "s' \<le> s" if "msg_at r t s' = Some d'" for s' d' using le [OF that] True by simp
    then show ?thesis using True le at by (auto simp: seq_is_max_def split: if_splits)
  next
    case False
    then show ?thesis using le at by (auto simp: seq_is_max_def split: if_splits)
  qed
qed

lemma restore_entry_seq: "seq_is_max r \<Longrightarrow> seq_is_max (restore_entry dir f e r)"
  using restore_entry_cases [of dir f e r] seq_is_max_put [of r] by (auto simp: Let_def)

lemma restore_fold_seq: "seq_is_max r \<Longrightarrow> seq_is_max (fold (restore_entry dir f) es r)"
  by (induction es arbitrary: r) (auto intro: restore_entry_seq)

abbreviation rep0 :: rep where
  "rep0 \<equiv> \<lparr>rseq = [], rbuf = []\<rparr>"

lemma restore_on_disk:
  assumes "on_disk dir f b"
  shows "msg_at (restoreBufferFromDisk dir f rep0) t s = b t s"
    and "seq_is_max (restoreBufferFromDisk dir f rep0)"
proof -
  have dir: "dir \<noteq> []" and io: "io_err f = []" using assms by (simp_all add: on_disk_def)
  obtain es where es: "ReadDir dir f = Some es" using assms by (auto simp: on_disk_def ReadDir_def)
  have read: "ReadFile p f = gm_get (files f) p" for p by (simp add: ReadFile_def io)
  have r: "plain_name n \<and> n = bufFileName t s \<and> b t s = Some d"
    if "(n, x) \<in> set es" "restored dir f (n, x) t s d" for n x t s d
  proof -
    have n: "parseBufName n = Some (t, s)" "gm_get (files f) (path_Join dir n) = Some d" "(n, False) \<in> set es"
      using that by (auto simp: restored_def read)
    then have "plain_name n" using ReadDir_file [OF es dir] by blast
    then show ?thesis using assms n(1,2) unfolding on_disk_def by (metis option.distinct(1))
  qed
  have "\<exists>e \<in> set es. restored dir f e t s d" if "b t s = Some d" for d
  proof -
    have c: "clean_topic t" using assms that by (auto simp: on_disk_def)
    then have g: "gm_get (files f) (path_Join dir (bufFileName t s)) = Some d"
      using on_disk_file [OF assms c, of s] that by (simp add: bufFilePath_def)
    then have "(bufFileName t s, False) \<in> set es"
      using ReadDir_file [OF es dir] plain_bufFileName by blast
    then show ?thesis using c g by (auto simp: restored_def read parse_clean intro: bexI [rotated])
  qed
  moreover have "\<forall>e \<in> set es. \<forall>t s d. restored dir f e t s d \<longrightarrow> b t s = Some d" using r by auto
  ultimately show "msg_at (restoreBufferFromDisk dir f rep0) t s = b t s"
    using es restore_fold_msg [of es dir f b rep0 t s]
    by (cases "b t s") (auto simp: restoreBufferFromDisk_def msg_at_def topic_buf_def)
  have "seq_is_max rep0" by (simp add: seq_is_max_def msg_at_def topic_buf_def)
  then show "seq_is_max (restoreBufferFromDisk dir f rep0)"
    using es by (simp add: restoreBufferFromDisk_def restore_fold_seq)
qed

section \<open>Properties\<close>

text \<open>
  The states of a leader with a disk buffer that publishes on clean topics: it starts on a
  directory without buffer files, publishes, retries, and its server changes in any way
  streams and acknowledgements can change it.
\<close>

inductive durable :: "pub_cfg \<Rightarrow> Server node \<Rightarrow> bool" for c where
  start: "server_reachable sv \<Longrightarrow> on_disk (ReplBufferDir c) f (\<lambda>_ _. None) \<Longrightarrow> durable c (node0 f sv)"
| publish: "durable c n \<Longrightarrow> ranges_ok r \<Longrightarrow> seq_bound (nrep n) \<Longrightarrow> clean_topic topic \<Longrightarrow>
    durable c (snd (publish_now (grpc_ops r send) c topic data n))"
| tick: "durable c n \<Longrightarrow> ranges_ok r \<Longrightarrow> seq_bound (nrep n) \<Longrightarrow>
    retry_tick (grpc_ops r send) c rng n = Some n' \<Longrightarrow> durable c n'"
| followers: "durable c n \<Longrightarrow> server_reachable sv \<Longrightarrow> durable c (n\<lparr>server := sv\<rparr>)"

lemma durable_inv: "durable c n \<Longrightarrow> leader_inv n \<and> on_disk (ReplBufferDir c) (disk n) (msg_at (nrep n))"
proof (induction rule: durable.induct)
  case (start sv f)
  then show ?case
    by (auto simp: node0_inv node0_def msg_at_def topic_buf_def elim: on_disk_cong intro: node0_inv [unfolded node0_def])
next
  case (publish n r topic send data)
  then show ?case by (auto intro: publish_leader_inv publish_on_disk)
next
  case (tick n r send rng n')
  have inv: "leader_inv n" "on_disk (ReplBufferDir c) (disk n) (msg_at (nrep n))" using tick.IH by blast+
  have "leader_inv n'" using retry_tick_effect [OF inv(1) tick.hyps(2,3,4)] by blast
  moreover have "on_disk (ReplBufferDir c) (disk n') (msg_at (nrep n'))"
  proof (cases "is_leader c")
    case True
    then show ?thesis
      using tick.hyps(3,4) inv seq_bound_ne
      by (intro retry_topics_on_disk [OF _ _ inv(2)]) (auto simp: retry_tick_def leader_inv_def)
  next
    case False
    then show ?thesis using tick.hyps(4) inv(2) by (simp add: retry_tick_def)
  qed
  ultimately show ?case by blast
next
  case (followers n sv)
  then show ?case by (simp add: leader_inv_def)
qed


definition cfg_disk :: pub_cfg where
  "cfg_disk = cfg1\<lparr>ReplBufferDir := ''d''\<rparr>"

definition fs_d :: fs where
  "fs_d = \<lparr>files = [], dirs = [Clean ''d''], io_err = []\<rparr>"

definition node_d :: "Server node" where
  "node_d = snd (publish_now ops1 cfg_disk ''t'' ''x'' (node0 fs_d server_two))"

lemma node_d_durable: "durable cfg_disk node_d"
proof -
  have s: "durable cfg_disk (node0 fs_d server_two)"
    by (rule durable.start) (simp_all add: server_two_reachable on_disk_def fs_d_def cfg_disk_def)
  have b: "seq_bound (nrep (node0 fs_d server_two))" by (simp add: seq_bound_def node0_def word_gt_0)
  show ?thesis
    unfolding node_d_def by (rule durable.publish [OF s ranges_ok_id b]) (simp add: clean_topic_def)
qed


text \<open>
  File names of the disk buffer: the name written for a topic and a number is read back
  as the sanitized topic and that number, for every topic but the empty one; the names for
  two clean topics or two numbers differ, and sanitizing twice is sanitizing once.
\<close>

theorem disk_buffer_file_names:
  "(t \<noteq> [] \<longrightarrow> parseBufName (bufFileName t s) = Some (sanitizeTopic t, s))
   \<and> parseBufName (bufFileName [] s) = None
   \<and> (clean_topic t \<and> clean_topic t' \<and> dir \<noteq> [] \<longrightarrow>
        (bufFilePath dir t s = bufFilePath dir t' s' \<longleftrightarrow> t = t' \<and> s = s'))
   \<and> sanitizeTopic (sanitizeTopic t) = sanitizeTopic t"
proof (intro conjI impI)
  have "bufFileName [] s = (CHR ''_'' # FormatUint s) @ ''.bin''" by (simp add: bufFileName_def sanitizeTopic_def)
  moreover have "LastIndex ([] @ CHR ''_'' # FormatUint s) (CHR ''_'') = 0"
    by (subst LastIndex_append) (simp_all add: FormatUint_no_underscore)
  ultimately show "parseBufName (bufFileName [] s) = None"
    using TrimSuffix_append [of "CHR ''_'' # FormatUint s" "''.bin''"] by (simp add: parseBufName_def Let_def)
  show "sanitizeTopic (sanitizeTopic t) = sanitizeTopic t" by (simp add: sanitizeTopic_def)
qed (auto simp: parse_bufFileName bufFilePath_inj)

theorem disk_buffer_file_names_witness:
  "parseBufName (bufFileName ''a b'' 7) = Some (''a_b'', 7)
   \<and> bufFilePath ''d'' ''a_b'' 7 \<noteq> bufFilePath ''d'' ''a_b'' 8"
  using disk_buffer_file_names [of "''a b''" 7 "[]" "[]" 0]
    disk_buffer_file_names [of "''a_b''" 7 "''a_b''" "''d''" 8]
  by (simp add: sanitizeTopic_def clean_topic_def)

section \<open>Two behaviours of the code\<close>

text \<open>Topics that differ only in separators share a file, so one message overwrites the other.\<close>

lemma topics_collide_on_disk: "bufFilePath dir ''a/b'' s = bufFilePath dir ''a b'' s"
  by (simp add: bufFilePath_def bufFileName_def sanitizeTopic_def)

text \<open>After a restart a message is buffered, and sent again, under the sanitized topic.\<close>

lemma restored_under_sanitized_topic:
  assumes "ReadFile (bufFilePath dir ''a b'' s) f = Some d"
  shows "msg_at (restore_entry dir f (bufFileName ''a b'' s, False) rep0) ''a_b'' s = Some d
    \<and> msg_at (restore_entry dir f (bufFileName ''a b'' s, False) rep0) ''a b'' s = None"
  using assms
  by (simp add: restore_entry_def parse_bufFileName sanitizeTopic_def bufFilePath_def Let_def
      msg_at_def [of rep0] topic_buf_def [of rep0])

end
