(* ===== verification/Cluster.thy ===== *)
theory Cluster
  imports Fsm EventBus DiskBuffer "HOL-Library.State_Monad"
begin

text \<open>
  \<open>pkg/cluster/cluster.go\<close> and \<open>options.go\<close>: the facade. A \<open>Cluster\<close> drives components behind
  interfaces (consensus, membership, RPC server and client, discovery, application
  handlers). The calls it makes are recorded in a history, and what a call returns is a
  function of the history up to and including it: this covers every behaviour the component
  may show, also one that changes between two calls, such as losing leadership. Handlers are
  programs in the state monad over the node's own state and that history.
\<close>

section \<open>Calls and interfaces\<close>

datatype call =
    ConsStart | ConsApply Command duration | ConsIsLeader | ConsLeader | ConsTerm | ConsStop
  | ConsAddVoter string string duration | ConsRemoveServer string duration
  | MemStart | MemJoin "string list" | MemMembers | MemLeave | MemStop
  | ServerStart | ServerAddr | ServerStop
  | ClientGetStatus string | ClientPostJoin string JoinRequest | ClientPostAppWrite string AppWriteRequest
  | ClientSubscribe string string | Sleep duration
  | DiscoverySeeds
  | AppHandleWrite string bytes | AppHandleSync string bytes
  | MetricsRegister | MetricCall metric_call | BusPublish AppEvent | Spawn string
  | HookLeaderChange LeaderInfo | HookElectionStart | HookElectionEnd LeaderInfo

type_synonym trace = "call list"

record reconfigurer =
  rc_AddVoter :: "trace \<Rightarrow> gerror option"
  rc_RemoveServer :: "trace \<Rightarrow> gerror option"

text \<open>\<open>c_Reconf\<close> and \<open>c_Notifier\<close> are what the type assertions on the consensus engine find.\<close>

record consensus =
  c_Start :: "trace \<Rightarrow> gerror option"
  c_Apply :: "trace \<Rightarrow> gerror option"
  c_IsLeader :: "trace \<Rightarrow> bool"
  c_Leader :: "trace \<Rightarrow> (string \<times> string) option"
  c_Term :: "trace \<Rightarrow> uint64"
  c_Stop :: "trace \<Rightarrow> gerror option"
  c_Reconf :: "reconfigurer option"
  c_Notifier :: bool

record membership =
  m_Start :: "trace \<Rightarrow> gerror option"
  m_Join :: "trace \<Rightarrow> gerror option"
  m_Members :: "trace \<Rightarrow> MemberInfo list"
  m_Leave :: "trace \<Rightarrow> gerror option"
  m_Stop :: "trace \<Rightarrow> gerror option"

record rpc_server =
  s_Start :: "trace \<Rightarrow> gerror option"
  s_Addr :: "trace \<Rightarrow> string"
  s_Stop :: "trace \<Rightarrow> gerror option"

record rpc_client =
  k_GetStatus :: "trace \<Rightarrow> gerror + bytes"
  k_PostJoin :: "trace \<Rightarrow> gerror + JoinResponse"
  k_PostAppWrite :: "trace \<Rightarrow> gerror + AppWriteResponse"

record app_handlers =
  a_HandleWrite :: "trace \<Rightarrow> gerror + bytes"
  a_HandleSync :: "trace \<Rightarrow> gerror option"

text \<open>\<open>Options\<close>: an interface that may be nil is an option, a hook or the logger a flag
  that it is set. The clock is not part of the Go type: it stands for \<open>time.Now\<close>.\<close>

record Options =
  o_NodeID :: string
  o_Transport :: "string option"
  o_Discovery :: "(trace \<Rightarrow> string list) option"
  o_Logger :: bool
  o_Consensus :: "consensus option"
  o_Membership :: "membership option"
  o_RPCServer :: "rpc_server option"
  o_RPCClient :: "rpc_client option"
  o_AppHandlers :: "app_handlers option"
  o_ReplWindow :: int
  o_ReplRetry :: duration
  o_BufferDir :: string
  o_OnLeaderChange :: bool
  o_OnElectionStart :: bool
  o_OnElectionEnd :: bool
  o_Clock :: "trace \<Rightarrow> time"

definition Validate :: "Options \<Rightarrow> gerror option" where
  "Validate o1 =
     (if o_NodeID o1 = [] then Some ''cluster: empty NodeID''
      else if o_Transport o1 = None then Some ''cluster: nil Transport''
      else if o_Discovery o1 = None then Some ''cluster: nil Discovery''
      else if \<not> o_Logger o1 then Some ''cluster: nil Logger''
      else if o_Membership o1 = None then Some ''cluster: nil Membership''
      else None)"

section \<open>The node's state\<close>

record Cluster =
  started :: bool
  stopped :: bool
  hadLeader :: bool
  inProgress :: bool
  crep :: rep
  cdisk :: fs
  hist :: trace

definition cluster_New :: "Options \<Rightarrow> fs \<Rightarrow> gerror + Cluster" where
  "cluster_New o1 f =
     (case Validate o1 of
        Some err \<Rightarrow> Inl err
      | None \<Rightarrow> Inr \<lparr>started = False, stopped = False, hadLeader = False, inProgress = False,
          crep = rep0, cdisk = f, hist = []\<rparr>)"

type_synonym 'a prog = "(Cluster, 'a) state"

abbreviation ret :: "'a \<Rightarrow> 'a prog" where
  "ret \<equiv> State_Monad.return"

text \<open>A call: its answer is read off the history that ends with it.\<close>

definition call :: "call \<Rightarrow> (trace \<Rightarrow> 'a) \<Rightarrow> 'a prog" where
  "call c f = State (\<lambda>s. (f (hist s @ [c]), s\<lparr>hist := hist s @ [c]\<rparr>))"

definition act :: "call \<Rightarrow> unit prog" where
  "act c = call c (\<lambda>_. ())"

definition upd :: "(Cluster \<Rightarrow> Cluster) \<Rightarrow> unit prog" where
  "upd f = State (\<lambda>s. ((), f s))"

definition gets :: "(Cluster \<Rightarrow> 'a) \<Rightarrow> 'a prog" where
  "gets f = State (\<lambda>s. (f s, s))"

lemma run_call [simp]:
  "run_state (call c f) s = (f (hist s @ [c]), s\<lparr>hist := hist s @ [c]\<rparr>)"
  "run_state (act c) s = ((), s\<lparr>hist := hist s @ [c]\<rparr>)"
  "run_state (upd g) s = ((), g s)"
  "run_state (gets h) s = (h s, s)"
  by (simp_all add: call_def act_def upd_def gets_def)

section \<open>Shared steps of the handlers\<close>

text \<open>\<open>c.cons != nil && c.cons.IsLeader()\<close>\<close>

definition leading :: "Options \<Rightarrow> bool prog" where
  "leading o1 = (case o_Consensus o1 of None \<Rightarrow> ret False | Some k \<Rightarrow> call ConsIsLeader (c_IsLeader k))"

definition lookupMemberAddr :: "Options \<Rightarrow> string \<Rightarrow> string prog" where
  "lookupMemberAddr o1 i =
     (case o_Membership o1 of
        None \<Rightarrow> ret []
      | Some m \<Rightarrow> do {
          ms \<leftarrow> call MemMembers (m_Members m);
          ret (case find (\<lambda>x. ID x = i) ms of None \<Rightarrow> [] | Some x \<Rightarrow> mgmt_addr x)
        })"

text \<open>The management address of the leader the consensus engine knows, or the empty string.\<close>

definition leader_mgmt :: "Options \<Rightarrow> consensus \<Rightarrow> string prog" where
  "leader_mgmt o1 k = do {
     r \<leftarrow> call ConsLeader (c_Leader k);
     case r of None \<Rightarrow> ret [] | Some (i, _) \<Rightarrow> lookupMemberAddr o1 i
   }"

definition applyAddNode :: "Options \<Rightarrow> MemberInfo \<Rightarrow> unit prog" where
  "applyAddNode o1 mi = do {
     l \<leftarrow> leading o1;
     if \<not> l then ret ()
     else act (ConsApply \<lparr>Op = ''AddNode'', Payload = Marshal (enc_MemberInfo mi)\<rparr> (2 * second))
   }"

definition applyRemoveNode :: "Options \<Rightarrow> string \<Rightarrow> unit prog" where
  "applyRemoveNode o1 i = do {
     l \<leftarrow> leading o1;
     if \<not> l then ret ()
     else act (ConsApply \<lparr>Op = ''RemoveNode'', Payload = Marshal (enc_remove i)\<rparr> (2 * second))
   }"

definition removeServer :: "Options \<Rightarrow> string \<Rightarrow> unit prog" where
  "removeServer o1 i = do {
     l \<leftarrow> leading o1;
     if \<not> l then ret ()
     else (case o_Consensus o1 of
         None \<Rightarrow> ret ()
       | Some k \<Rightarrow> (case c_Reconf k of
             None \<Rightarrow> ret ()
           | Some rc \<Rightarrow> act (ConsRemoveServer i (3 * second))))
   }"

section \<open>Management handlers\<close>

definition handleJoin :: "Options \<Rightarrow> JoinRequest \<Rightarrow> JoinResponse prog" where
  "handleJoin o1 req = do {
     l \<leftarrow> leading o1;
     if \<not> l then do {
       leaderMgmt \<leftarrow> (case o_Consensus o1 of None \<Rightarrow> ret [] | Some k \<Rightarrow> leader_mgmt o1 k);
       act (MetricCall (MInc JoinRequests [''rejected'']));
       ret \<lparr>jr_Accepted = False, jr_Leader = leaderMgmt, jr_Error = ''not leader''\<rparr>
     } else do {
       err \<leftarrow> (case o_Consensus o1 of
            None \<Rightarrow> ret None
          | Some k \<Rightarrow> (case c_Reconf k of
                None \<Rightarrow> ret None
              | Some rc \<Rightarrow> call (ConsAddVoter (jq_ID req) (jq_RaftAddr req) (3 * second)) (rc_AddVoter rc)));
       case err of
         Some x \<Rightarrow> ret \<lparr>jr_Accepted = False, jr_Leader = [], jr_Error = x\<rparr>
       | None \<Rightarrow> do {
           act (MetricCall (MInc JoinRequests [''accepted'']));
           ret \<lparr>jr_Accepted = True, jr_Leader = [], jr_Error = []\<rparr>
         }
     }
   }"

definition handleLeave :: "Options \<Rightarrow> LeaveRequest \<Rightarrow> LeaveResponse prog" where
  "handleLeave o1 req = do {
     l \<leftarrow> leading o1;
     if \<not> l then ret \<lparr>lr_Accepted = False, lr_Error = ''not leader''\<rparr>
     else do {
       removeServer o1 (lq_ID req);
       applyRemoveNode o1 (lq_ID req);
       ret \<lparr>lr_Accepted = True, lr_Error = []\<rparr>
     }
   }"

definition handleAppWrite :: "Options \<Rightarrow> AppWriteRequest \<Rightarrow> AppWriteResponse prog" where
  "handleAppWrite o1 req = do {
     l \<leftarrow> leading o1;
     if \<not> l then ret \<lparr>wr_Data = [], wr_Error = ''not leader''\<rparr>
     else (case o_AppHandlers o1 of
         None \<Rightarrow> ret \<lparr>wr_Data = [], wr_Error = ''no app handlers''\<rparr>
       | Some h \<Rightarrow> do {
           r \<leftarrow> call (AppHandleWrite (wq_Op req) (wq_Data req)) (a_HandleWrite h);
           ret (case r of Inl err \<Rightarrow> \<lparr>wr_Data = [], wr_Error = err\<rparr> | Inr out \<Rightarrow> \<lparr>wr_Data = out, wr_Error = []\<rparr>)
         })
   }"

definition handleAppSync :: "Options \<Rightarrow> AppSyncRequest \<Rightarrow> AppSyncResponse prog" where
  "handleAppSync o1 req =
     (case o_AppHandlers o1 of
        None \<Rightarrow> ret \<lparr>sr_Error = []\<rparr>
      | Some h \<Rightarrow> do {
          r \<leftarrow> call (AppHandleSync (sq_Topic req) (sq_Data req)) (a_HandleSync h);
          ret \<lparr>sr_Error = (case r of None \<Rightarrow> [] | Some err \<Rightarrow> err)\<rparr>
        })"

section \<open>Membership events\<close>

definition members_gauge :: "Options \<Rightarrow> unit prog" where
  "members_gauge o1 =
     (case o_Membership o1 of
        None \<Rightarrow> ret ()
      | Some m \<Rightarrow> do {
          ms \<leftarrow> call MemMembers (m_Members m);
          act (MetricCall (MSet ClusterMembers [] (int (length ms))))
        })"

definition member_event :: "AppEventType \<Rightarrow> Event \<Rightarrow> AppEvent" where
  "member_event t e = (app_event t (At e))\<lparr>AMember := Some (Member e)\<rparr>"

text \<open>The body of \<open>membershipEventsLoop\<close> for one event received.\<close>

definition on_membership_event :: "Options \<Rightarrow> Event \<Rightarrow> unit prog" where
  "on_membership_event o1 e = do {
     l \<leftarrow> leading o1;
     if \<not> l then ret ()
     else (case Type e of
         EventJoin \<Rightarrow> do {
           applyAddNode o1 (Member e);
           members_gauge o1;
           act (BusPublish (member_event EventMemberJoin e))
         }
       | _ \<Rightarrow> do {
           removeServer o1 (ID (Member e));
           applyRemoveNode o1 (ID (Member e));
           members_gauge o1;
           act (BusPublish (member_event (if Type e = EventFailed then EventMemberFailed else EventMemberLeave) e))
         })
   }"

fun apply_all :: "Options \<Rightarrow> MemberInfo list \<Rightarrow> unit prog" where
  "apply_all o1 [] = ret ()"
| "apply_all o1 (m # ms) = do { applyAddNode o1 m; apply_all o1 ms }"

definition reconcileMembersLoop :: "Options \<Rightarrow> unit prog" where
  "reconcileMembersLoop o1 = do {
     l \<leftarrow> leading o1;
     if \<not> l then ret ()
     else (case o_Membership o1 of
         None \<Rightarrow> ret ()
       | Some m \<Rightarrow> do { ms \<leftarrow> call MemMembers (m_Members m); apply_all o1 ms })
   }"

section \<open>Status\<close>

record ClusterStatus =
  Healthy :: bool
  Term :: uint64
  LeaderID :: string
  LeaderAddr :: string
  SMembers :: "MemberInfo list option"
  Warnings :: "string list option"

definition zero_status :: ClusterStatus where
  [wire_defs]: "zero_status =
     \<lparr>Healthy = False, Term = 0, LeaderID = [], LeaderAddr = [], SMembers = None, Warnings = None\<rparr>"

text \<open>A nil slice is written as \<open>null\<close>.\<close>

definition enc_slice :: "('a \<Rightarrow> json) \<Rightarrow> 'a list option \<Rightarrow> json" where
  "enc_slice f xs = (case xs of None \<Rightarrow> JNull | Some ys \<Rightarrow> JArr (map f ys))"

fun dec_slice :: "'a decoder \<Rightarrow> 'a \<Rightarrow> 'a list option decoder" where
  "dec_slice d z (JArr js) old = apfst Some (dec_list d z (JArr js) [])"
| "dec_slice d z JNull old = (None, True)"
| "dec_slice d z _ old = (old, False)"

definition enc_status :: "ClusterStatus \<Rightarrow> json" where
  [wire_defs]: "enc_status s =
     JObj [(''Healthy'', JBool (Healthy s)), (''Term'', JNum (FormatUint (Term s))),
           (''LeaderID'', JStr (LeaderID s)), (''LeaderAddr'', JStr (LeaderAddr s)),
           (''Members'', enc_slice enc_MemberInfo (SMembers s)), (''Warnings'', enc_slice JStr (Warnings s))]"

definition status_fields :: "ClusterStatus field list" where
  [wire_defs]: "status_fields =
     [(''Healthy'', \<lambda>j s. apfst (\<lambda>x. s\<lparr>Healthy := x\<rparr>) (dec_bool j (Healthy s))),
      (''Term'', \<lambda>j s. apfst (\<lambda>x. s\<lparr>Term := x\<rparr>) (dec_uint64 j (Term s))),
      (''LeaderID'', \<lambda>j s. apfst (\<lambda>x. s\<lparr>LeaderID := x\<rparr>) (dec_string j (LeaderID s))),
      (''LeaderAddr'', \<lambda>j s. apfst (\<lambda>x. s\<lparr>LeaderAddr := x\<rparr>) (dec_string j (LeaderAddr s))),
      (''Members'', \<lambda>j s. apfst (\<lambda>x. s\<lparr>SMembers := x\<rparr>) (dec_slice dec_MemberInfo zero_MemberInfo j (SMembers s))),
      (''Warnings'', \<lambda>j s. apfst (\<lambda>x. s\<lparr>Warnings := x\<rparr>) (dec_slice dec_string [] j (Warnings s)))]"

definition parse_status :: "bytes \<Rightarrow> ClusterStatus option" where
  "parse_status b =
     (case Unmarshal (dec_struct status_fields) b zero_status of (st, None) \<Rightarrow> Some st | _ \<Rightarrow> None)"

text \<open>The part of \<open>Status\<close> after the leader has been looked at.\<close>

definition status_tail :: "Options \<Rightarrow> ClusterStatus \<Rightarrow> ClusterStatus prog" where
  "status_tail o1 s = do {
     s' \<leftarrow> (case o_Membership o1 of
          None \<Rightarrow> ret s
        | Some m \<Rightarrow> do {
            ms \<leftarrow> call MemMembers (m_Members m);
            act (MetricCall (MSet ClusterMembers [] (int (length ms))));
            ret (s\<lparr>SMembers := Some ms\<rparr>)
          });
     l \<leftarrow> leading o1;
     act (MetricCall (MSet IsLeaderGauge [] (if l then 1 else 0)));
     ret s'
   }"

text \<open>A follower asks the leader; an unreachable leader or an unreadable answer is ignored.\<close>

definition proxy_status :: "Options \<Rightarrow> string \<Rightarrow> ClusterStatus option prog" where
  "proxy_status o1 i =
     (case (o_RPCClient o1, o_Membership o1) of
        (Some c, Some m) \<Rightarrow> do {
          la \<leftarrow> lookupMemberAddr o1 i;
          if la = [] then ret None
          else do {
            r \<leftarrow> call (ClientGetStatus la) (k_GetStatus c);
            ret (case r of Inl err \<Rightarrow> None | Inr data \<Rightarrow> parse_status data)
          }
        }
      | _ \<Rightarrow> ret None)"

definition Status :: "Options \<Rightarrow> ClusterStatus prog" where
  "Status o1 =
     (case o_Consensus o1 of
        None \<Rightarrow> status_tail o1 zero_status
      | Some k \<Rightarrow> do {
          t \<leftarrow> call ConsTerm (c_Term k);
          r \<leftarrow> call ConsLeader (c_Leader k);
          (case r of
             None \<Rightarrow> status_tail o1 (zero_status\<lparr>Term := t\<rparr>)
           | Some (i, _) \<Rightarrow> do {
               l \<leftarrow> call ConsIsLeader (c_IsLeader k);
               (case (l, o_RPCServer o1) of
                  (True, Some rs) \<Rightarrow> do {
                    a \<leftarrow> call ServerAddr (s_Addr rs);
                    status_tail o1 (zero_status\<lparr>Term := t, LeaderID := i, Healthy := True, LeaderAddr := a\<rparr>)
                  }
                | _ \<Rightarrow> do {
                    p \<leftarrow> proxy_status o1 i;
                    (case p of
                       Some rs \<Rightarrow> ret rs
                     | None \<Rightarrow> status_tail o1 (zero_status\<lparr>Term := t, LeaderID := i, Healthy := True\<rparr>))
                  })
             })
        })"

definition statusLocalJSON :: "Options \<Rightarrow> bytes prog" where
  "statusLocalJSON o1 = do { st \<leftarrow> Status o1; ret (Marshal (enc_status st)) }"

section \<open>Life cycle\<close>

definition start_membership :: "Options \<Rightarrow> gerror option prog" where
  "start_membership o1 =
     (case o_Membership o1 of
        None \<Rightarrow> ret None
      | Some m \<Rightarrow> do {
          err \<leftarrow> call MemStart (m_Start m);
          case err of
            Some x \<Rightarrow> ret (Some x)
          | None \<Rightarrow> do {
              seeds \<leftarrow> (case o_Discovery o1 of None \<Rightarrow> ret [] | Some d \<Rightarrow> call DiscoverySeeds d);
              (if seeds \<noteq> [] then act (MemJoin seeds) else ret ());
              ret None
            }
        })"

definition start_consensus :: "Options \<Rightarrow> gerror option prog" where
  "start_consensus o1 =
     (case o_Consensus o1 of
        None \<Rightarrow> ret None
      | Some k \<Rightarrow> do {
          err \<leftarrow> call ConsStart (c_Start k);
          case err of
            Some x \<Rightarrow> ret (Some x)
          | None \<Rightarrow> do {
              act (Spawn ''reconcileMembersLoop'');
              act (Spawn ''membershipEventsLoop'');
              act (Spawn ''replicationSubscribeLoop'');
              act (Spawn ''replicationRetryLoop'');
              act (Spawn ''electionWatchLoop'');
              (if c_Notifier k then act (Spawn ''leaderObserver'') else ret ());
              ret None
            }
        })"

definition start_server :: "Options \<Rightarrow> gerror option prog" where
  "start_server o1 =
     (case o_RPCServer o1 of
        None \<Rightarrow> ret None
      | Some rs \<Rightarrow> do {
          err \<leftarrow> call ServerStart (s_Start rs);
          case err of
            Some x \<Rightarrow> ret (Some x)
          | None \<Rightarrow> do { _ \<leftarrow> call ServerAddr (s_Addr rs); ret None }
        })"

definition prepare_buffer :: "Options \<Rightarrow> unit prog" where
  "prepare_buffer o1 =
     (if o_BufferDir o1 = [] then ret ()
      else upd (\<lambda>s. let f = MkdirAll (o_BufferDir o1) (cdisk s)
                    in s\<lparr>cdisk := f, crep := restoreBufferFromDisk (o_BufferDir o1) f (crep s)\<rparr>))"

definition Start :: "Options \<Rightarrow> gerror option prog" where
  "Start o1 = do {
     st \<leftarrow> gets started;
     if st then ret None
     else do {
       upd (\<lambda>s. s\<lparr>started := True\<rparr>);
       act MetricsRegister;
       prepare_buffer o1;
       e1 \<leftarrow> start_membership o1;
       case e1 of
         Some x \<Rightarrow> ret (Some x)
       | None \<Rightarrow> do {
           e2 \<leftarrow> start_consensus o1;
           case e2 of Some x \<Rightarrow> ret (Some x) | None \<Rightarrow> start_server o1
         }
     }
   }"

definition Stop :: "Options \<Rightarrow> gerror option prog" where
  "Stop o1 = do {
     st \<leftarrow> gets stopped;
     if st then ret None
     else do {
       upd (\<lambda>s. s\<lparr>stopped := True\<rparr>);
       (case o_Consensus o1 of None \<Rightarrow> ret () | Some k \<Rightarrow> act ConsStop);
       (case o_Membership o1 of None \<Rightarrow> ret () | Some m \<Rightarrow> do { act MemLeave; act MemStop });
       (case o_RPCServer o1 of None \<Rightarrow> ret () | Some rs \<Rightarrow> act ServerStop);
       ret None
     }
   }"

definition cluster_Close :: "Options \<Rightarrow> gerror option prog" where
  "cluster_Close o1 = Stop o1"

section \<open>Elections\<close>

text \<open>The body of the goroutine that observes leader changes.\<close>

definition on_leader_change :: "Options \<Rightarrow> LeaderInfo \<Rightarrow> unit prog" where
  "on_leader_change o1 li = do {
     act (MetricCall (MInc LeaderChanges []));
     now \<leftarrow> gets (\<lambda>s. o_Clock o1 (hist s));
     act (BusPublish ((app_event EventLeaderChanged now)\<lparr>ALeader := Some li, ATerm := LTerm li\<rparr>));
     (if o_OnLeaderChange o1 then act (HookLeaderChange li) else ret ());
     (if o_OnElectionEnd o1 then act (HookElectionEnd li) else ret ());
     upd (\<lambda>s. s\<lparr>inProgress := False, hadLeader := True\<rparr>)
   }"

text \<open>The channel of leader changes: that of the consensus engine (\<open>ch\<close>), if it has one.\<close>

definition cluster_LeaderCh :: "Options \<Rightarrow> 'ch \<Rightarrow> 'ch option" where
  "cluster_LeaderCh o1 ch =
     (case o_Consensus o1 of None \<Rightarrow> None | Some k \<Rightarrow> if c_Notifier k then Some ch else None)"

text \<open>One tick of \<open>electionWatchLoop\<close>.\<close>

definition election_tick :: "Options \<Rightarrow> unit prog" where
  "election_tick o1 =
     (case o_Consensus o1 of
        None \<Rightarrow> ret ()
      | Some k \<Rightarrow> do {
          r \<leftarrow> call ConsLeader (c_Leader k);
          had \<leftarrow> gets hadLeader;
          inProg \<leftarrow> gets inProgress;
          if had \<and> r = None \<and> \<not> inProg then do {
            upd (\<lambda>s. s\<lparr>inProgress := True\<rparr>);
            now \<leftarrow> gets (\<lambda>s. o_Clock o1 (hist s));
            act (BusPublish (app_event EventElectionStart now));
            (if o_OnElectionStart o1 then act HookElectionStart else ret ())
          } else ret ()
        })"

section \<open>Client operations\<close>

definition join_error :: "JoinResponse \<Rightarrow> gerror option" where
  "join_error resp =
     (if jr_Accepted resp then None
      else if jr_Error resp = ''not leader'' then Some err_not_leader
      else if jr_Error resp \<noteq> [] then Some (jr_Error resp)
      else Some ''cluster: join rejected'')"

text \<open>The address a join is sent to: the leader a seed names, the seed itself, or the leader known here.\<close>

definition resolve_join :: "Options \<Rightarrow> rpc_client \<Rightarrow> string \<Rightarrow> (gerror + string) prog" where
  "resolve_join o1 c seedLeader =
     (if seedLeader = [] then
        (case o_Consensus o1 of
           None \<Rightarrow> ret (Inl ''cluster: no consensus to discover leader'')
         | Some k \<Rightarrow> do { a \<leftarrow> leader_mgmt o1 k; ret (Inr a) })
      else do {
        r \<leftarrow> call (ClientGetStatus seedLeader) (k_GetStatus c);
        ret (Inr (case r of
            Inl err \<Rightarrow> seedLeader
          | Inr data \<Rightarrow> (case parse_status data of
                Some st \<Rightarrow> if LeaderAddr st \<noteq> [] then LeaderAddr st else seedLeader
              | None \<Rightarrow> seedLeader)))
      })"

definition Join :: "Options \<Rightarrow> string \<Rightarrow> gerror option prog" where
  "Join o1 seedLeader =
     (case o_RPCClient o1 of
        None \<Rightarrow> ret (Some ''cluster: no RPC client configured'')
      | Some c \<Rightarrow> do {
          r \<leftarrow> resolve_join o1 c seedLeader;
          case r of
            Inl err \<Rightarrow> ret (Some err)
          | Inr leaderMgmt \<Rightarrow>
              if leaderMgmt = [] then ret (Some ''cluster: cannot resolve leader management address'')
              else do {
                resp \<leftarrow> call (ClientPostJoin leaderMgmt
                  \<lparr>jq_ID = o_NodeID o1, jq_RaftAddr = (case o_Transport o1 of None \<Rightarrow> [] | Some a \<Rightarrow> a)\<rparr>) (k_PostJoin c);
                ret (case resp of Inl err \<Rightarrow> Some err | Inr x \<Rightarrow> join_error x)
              }
        })"

text \<open>
  \<open>AppWrite\<close>; the outer \<open>None\<close> is the panic of calling \<open>Leader\<close> on a nil consensus engine, which
  the code does not test for on the forwarding path.
\<close>

definition forward_addr :: "Options \<Rightarrow> consensus \<Rightarrow> rpc_client \<Rightarrow> string prog" where
  "forward_addr o1 k c = do {
     a \<leftarrow> leader_mgmt o1 k;
     (case (a, o_RPCServer o1) of
        ([], Some rs) \<Rightarrow> do {
          self \<leftarrow> call ServerAddr (s_Addr rs);
          r \<leftarrow> call (ClientGetStatus self) (k_GetStatus c);
          ret (case r of
              Inl err \<Rightarrow> []
            | Inr data \<Rightarrow> (case parse_status data of Some st \<Rightarrow> LeaderAddr st | None \<Rightarrow> []))
        }
      | _ \<Rightarrow> ret a)
   }"

definition AppWrite :: "Options \<Rightarrow> string \<Rightarrow> bytes \<Rightarrow> (gerror + bytes) option prog" where
  "AppWrite o1 op data = do {
     l \<leftarrow> leading o1;
     if l then
       (case o_AppHandlers o1 of
          None \<Rightarrow> ret (Some (Inl ''cluster: no app handlers''))
        | Some h \<Rightarrow> do { r \<leftarrow> call (AppHandleWrite op data) (a_HandleWrite h); ret (Some r) })
     else
       (case o_RPCClient o1 of
          None \<Rightarrow> ret (Some (Inl ''cluster: no RPC client configured''))
        | Some c \<Rightarrow>
            (case o_Consensus o1 of
               None \<Rightarrow> ret None
             | Some k \<Rightarrow> do {
                 leaderMgmt \<leftarrow> forward_addr o1 k c;
                 if leaderMgmt = [] then ret (Some (Inl err_not_leader))
                 else do {
                   resp \<leftarrow> call (ClientPostAppWrite leaderMgmt \<lparr>wq_Op = op, wq_Data = data\<rparr>) (k_PostAppWrite c);
                   ret (Some (case resp of
                       Inl err \<Rightarrow> Inl err
                     | Inr x \<Rightarrow> if wr_Error x \<noteq> [] then Inl (wr_Error x) else Inr (wr_Data x)))
                 }
               }))
   }"

section \<open>The status on the wire\<close>

lemma dec_enc_slice:
  assumes "\<And>x. x \<in> set (case xs of None \<Rightarrow> [] | Some ys \<Rightarrow> ys) \<Longrightarrow> d (f x) z = (x, True)"
  shows "dec_slice d z (enc_slice f xs) old = (xs, True)"
  using assms by (cases xs) (auto simp: enc_slice_def list_all_iff intro: map_idI)

lemma fold_name_status [simp]:
  "fold_name ''Healthy'' = ''HEALTHY''" "fold_name ''Term'' = ''TERM''" "fold_name ''LeaderID'' = ''LEADERID''"
  "fold_name ''LeaderAddr'' = ''LEADERADDR''" "fold_name ''Members'' = ''MEMBERS''"
  "fold_name ''Warnings'' = ''WARNINGS''"
  by (simp_all add: fold_name.simps upper_def char_of_eq_iff)

definition status_ok :: "ClusterStatus \<Rightarrow> bool" where
  "status_ok s \<longleftrightarrow> valid_utf8 (LeaderID s) \<and> valid_utf8 (LeaderAddr s)
     \<and> pred_option (list_all member_ok) (SMembers s) \<and> pred_option (list_all valid_utf8) (Warnings s)"

interpretation statusMsg: wire_format enc_status status_fields zero_status status_ok
proof
  fix x assume ok: "status_ok x"
  have "dec_slice dec_MemberInfo zero_MemberInfo (enc_slice enc_MemberInfo (SMembers x)) None = (SMembers x, True)"
    using ok by (cases "SMembers x") (auto simp: status_ok_def list_all_iff intro!: dec_enc_slice dec_enc_MemberInfo)
  moreover have "dec_slice dec_string [] (enc_slice JStr (Warnings x)) None = (Warnings x, True)"
    by (intro dec_enc_slice) simp
  ultimately show "dec_struct status_fields (enc_status x) zero_status = (x, True)"
    by (simp add: wire_defs)
  have "json_ok (enc_slice enc_MemberInfo (SMembers x))"
    using ok by (cases "SMembers x") (auto simp: status_ok_def enc_slice_def list_all_iff json_ok_enc_MemberInfo)
  moreover have "json_ok (enc_slice JStr (Warnings x))"
    using ok by (cases "Warnings x") (auto simp: status_ok_def enc_slice_def list_all_iff)
  ultimately show "json_ok (enc_status x)"
    using ok by (simp add: wire_defs status_ok_def)
qed

lemma parse_status_enc: "status_ok st \<Longrightarrow> parse_status (Marshal (enc_status st)) = Some st"
  by (simp add: parse_status_def statusMsg.received)

section \<open>What a handler adds to the history\<close>

definition new_calls :: "'a prog \<Rightarrow> Cluster \<Rightarrow> trace" where
  "new_calls m s = drop (length (hist s)) (hist (snd (run_state m s)))"

text \<open>
  The entries a history puts into the Raft log: \<open>Node.Apply\<close> (\<open>consensus/raft/raft.go\<close>) appends
  the JSON form of the command.
\<close>

definition log_entries :: "trace \<Rightarrow> bytes list" where
  "log_entries h = concat (map (\<lambda>c. case c of ConsApply cmd t \<Rightarrow> [Marshal (enc_Command cmd)] | _ \<Rightarrow> []) h)"

lemma log_entries_append [simp]: "log_entries (h @ h') = log_entries h @ log_entries h'"
  by (simp add: log_entries_def)

lemma log_entries_simps [simp]:
  "log_entries [] = []"
  "log_entries (c # h) = (case c of ConsApply cmd t \<Rightarrow> [Marshal (enc_Command cmd)] | _ \<Rightarrow> []) @ log_entries h"
  by (simp_all add: log_entries_def)

named_theorems prog_defs "programs and their shared steps"

declare leading_def [prog_defs] lookupMemberAddr_def [prog_defs] leader_mgmt_def [prog_defs]
  applyAddNode_def [prog_defs] applyRemoveNode_def [prog_defs] removeServer_def [prog_defs]
  members_gauge_def [prog_defs]

text \<open>The abstract command a membership event stands for.\<close>

definition event_op :: "Event \<Rightarrow> member_op" where
  "event_op e = (case Type e of EventJoin \<Rightarrow> AddNode (Member e) | _ \<Rightarrow> RemoveNode (ID (Member e)))"

lemma view_apply_op:
  assumes "op_ok x"
  shows "view (apply_log [op_bytes x] st) = spec_apply x (view st)"
  using assms
  by (cases x) (auto simp: replay_def fsm_Apply_op ApplyAddNode_def ApplyRemoveNode_def simp del: op_cmd.simps)

lemma event_entries:
  assumes "o_Consensus o1 = Some k" and "\<forall>h. c_IsLeader k h"
  shows "log_entries (hist (snd (run_state (on_membership_event o1 e) s)))
    = log_entries (hist s) @ [op_bytes (event_op e)]"
  using assms
  by (cases "Type e"; cases "c_Reconf k"; cases "o_Membership o1")
    (auto simp: on_membership_event_def event_op_def prog_defs)

section \<open>Properties\<close>

text \<open>
  Membership events reach the replicated state: while a node leads, an event of the gossip
  layer appends exactly one entry to the Raft log, and applying the log up to that entry
  changes the replicated membership by exactly the event's command: a join adds or replaces
  the member, a leave or failure removes it.
\<close>

theorem membership_event_replicated:
  assumes "o_Consensus o1 = Some k" and "\<forall>h. c_IsLeader k h" and "op_ok (event_op e)"
  shows "let s' = snd (run_state (on_membership_event o1 e) s) in
    log_entries (hist s') = log_entries (hist s) @ [op_bytes (event_op e)]
    \<and> view (apply_log (log_entries (hist s')) st) = spec_apply (event_op e) (view (apply_log (log_entries (hist s)) st))"
  using event_entries [OF assms(1,2), of e s] assms(3)
  by (simp add: Let_def replay_append view_apply_op)

text \<open>
  A node that does not lead leaves the replicated state alone: an event only makes it ask
  for leadership, and no log entry, reconfiguration, metric or application event follows.
\<close>

theorem follower_ignores_events:
  assumes "o_Consensus o1 = None \<or> (\<exists>k. o_Consensus o1 = Some k \<and> \<not> c_IsLeader k (hist s @ [ConsIsLeader]))"
  shows "set (new_calls (on_membership_event o1 e) s) \<subseteq> {ConsIsLeader}"
  using assms by (auto simp: new_calls_def on_membership_event_def prog_defs)

text \<open>A consensus engine that leads throughout, and options with it.\<close>

definition leader1 :: consensus where
  "leader1 = \<lparr>c_Start = (\<lambda>_. None), c_Apply = (\<lambda>_. None), c_IsLeader = (\<lambda>_. True),
     c_Leader = (\<lambda>_. Some (''n1'', ''r:1'')), c_Term = (\<lambda>_. 3), c_Stop = (\<lambda>_. None),
     c_Reconf = Some \<lparr>rc_AddVoter = (\<lambda>_. None), rc_RemoveServer = (\<lambda>_. None)\<rparr>, c_Notifier = True\<rparr>"

definition members1 :: membership where
  "members1 = \<lparr>m_Start = (\<lambda>_. None), m_Join = (\<lambda>_. None),
     m_Members = (\<lambda>_. [\<lparr>ID = ''n1'', Addr = ''a:1'', Meta = Some [(''mgmt'', ''a:2'')]\<rparr>]),
     m_Leave = (\<lambda>_. None), m_Stop = (\<lambda>_. None)\<rparr>"

definition opts1 :: Options where
  "opts1 = \<lparr>o_NodeID = ''n1'', o_Transport = Some ''r:1'', o_Discovery = Some (\<lambda>_. [''b:1'']), o_Logger = True,
     o_Consensus = Some leader1, o_Membership = Some members1, o_RPCServer = None, o_RPCClient = None,
     o_AppHandlers = None, o_ReplWindow = 0, o_ReplRetry = 0, o_BufferDir = [], o_OnLeaderChange = True, o_OnElectionStart = True,
     o_OnElectionEnd = False, o_Clock = (\<lambda>h. int (length h))\<rparr>"

definition cluster1 :: Cluster where
  "cluster1 = \<lparr>started = False, stopped = False, hadLeader = False, inProgress = False, crep = rep0,
     cdisk = fs0, hist = []\<rparr>"

definition leave1 :: Event where
  "leave1 = \<lparr>Type = EventFailed, Member = \<lparr>ID = ''n2'', Addr = ''b:1'', Meta = None\<rparr>, At = 5\<rparr>"

theorem membership_event_replicated_witness:
  "log_entries (hist (snd (run_state (on_membership_event opts1 leave1) cluster1)))
     = [op_bytes (RemoveNode ''n2'')]"
proof -
  have e: "event_op leave1 = RemoveNode ''n2''" by (simp add: event_op_def leave1_def)
  have k: "o_Consensus opts1 = Some leader1" "\<forall>h. c_IsLeader leader1 h"
    by (simp_all add: opts1_def leader1_def)
  have "op_ok (event_op leave1)" by (simp add: e valid_utf8_all_ascii)
  from membership_event_replicated [OF k this, of cluster1 New] show ?thesis
    unfolding e Let_def by (simp add: cluster1_def)
qed

theorem follower_ignores_events_witness:
  "set (new_calls (on_membership_event (opts1\<lparr>o_Consensus := Some (leader1\<lparr>c_IsLeader := (\<lambda>_. False)\<rparr>)\<rparr>) leave1)
      cluster1) \<subseteq> {ConsIsLeader}"
  by (rule follower_ignores_events) simp

text \<open>
  Join requests, on every branch. A node that does not lead refuses with \<open>not leader\<close> and
  names the leader's management address as far as it knows it, without touching the Raft
  configuration. A leader asks Raft to add the voter, once, with the request's ID and
  address; it accepts exactly when that succeeds and otherwise passes the error on. An
  engine without reconfiguration accepts every request.
\<close>

theorem handleJoin_spec:
  fixes o1 s req
  defines "resp \<equiv> fst (run_state (handleJoin o1 req) s)" and "calls \<equiv> new_calls (handleJoin o1 req) s"
    and "ask \<equiv> hist s @ [ConsIsLeader]"
    and "add \<equiv> ConsAddVoter (jq_ID req) (jq_RaftAddr req) (3 * second)"
  shows "case o_Consensus o1 of
      None \<Rightarrow> resp = \<lparr>jr_Accepted = False, jr_Leader = [], jr_Error = ''not leader''\<rparr> \<and> add \<notin> set calls
    | Some k \<Rightarrow>
        if \<not> c_IsLeader k ask
        then resp = \<lparr>jr_Accepted = False,
               jr_Leader = fst (run_state (leader_mgmt o1 k) (s\<lparr>hist := ask\<rparr>)), jr_Error = ''not leader''\<rparr>
             \<and> add \<notin> set calls
        else (case c_Reconf k of
            None \<Rightarrow> jr_Accepted resp \<and> add \<notin> set calls
          | Some rc \<Rightarrow> count_list calls add = 1 \<and>
              resp = (case rc_AddVoter rc (ask @ [add]) of
                  None \<Rightarrow> \<lparr>jr_Accepted = True, jr_Leader = [], jr_Error = []\<rparr>
                | Some err \<Rightarrow> \<lparr>jr_Accepted = False, jr_Leader = [], jr_Error = err\<rparr>))"
  unfolding resp_def calls_def ask_def add_def
  by (auto simp: handleJoin_def new_calls_def prog_defs split: option.splits prod.splits)

text \<open>
  Leave requests: a node that does not lead refuses and does nothing. A leader that stays
  leader removes the server from the Raft configuration (if the engine supports it), then
  appends the one log entry that removes the node from the replicated membership, in this
  order, and accepts.
\<close>

theorem handleLeave_spec:
  assumes "o_Consensus o1 = Some k" and "(\<forall>h. c_IsLeader k h) \<or> (\<forall>h. \<not> c_IsLeader k h)"
  shows "if c_IsLeader k (hist s @ [ConsIsLeader])
    then lr_Accepted (fst (run_state (handleLeave o1 req) s))
      \<and> filter (\<lambda>c. c \<noteq> ConsIsLeader) (new_calls (handleLeave o1 req) s)
        = (if c_Reconf k = None then [] else [ConsRemoveServer (lq_ID req) (3 * second)])
          @ [ConsApply (op_cmd (RemoveNode (lq_ID req))) (2 * second)]
    else fst (run_state (handleLeave o1 req) s) = \<lparr>lr_Accepted = False, lr_Error = ''not leader''\<rparr>
      \<and> new_calls (handleLeave o1 req) s = [ConsIsLeader]"
  using assms by (cases "c_Reconf k") (auto simp: handleLeave_def new_calls_def prog_defs)

theorem handleLeave_spec_witness:
  "filter (\<lambda>c. c \<noteq> ConsIsLeader) (new_calls (handleLeave opts1 \<lparr>lq_ID = ''n2''\<rparr>) cluster1)
     = [ConsRemoveServer ''n2'' (3 * second), ConsApply (op_cmd (RemoveNode ''n2'')) (2 * second)]"
proof -
  have k: "o_Consensus opts1 = Some leader1" "(\<forall>h. c_IsLeader leader1 h) \<or> (\<forall>h. \<not> c_IsLeader leader1 h)"
    by (simp_all add: opts1_def leader1_def)
  show ?thesis
    using handleLeave_spec [OF k, of cluster1 "\<lparr>lq_ID = ''n2''\<rparr>"] by (simp add: leader1_def del: op_cmd.simps)
qed

text \<open>
  C29. The status is consistent with the roles. Without a known leader it is unhealthy and names
  none. On the leader it is healthy, names the leader and this node's management address and
  lists the members. On a follower whose leader answers with a readable status, that status
  is returned unchanged.
\<close>

theorem Status_spec:
  fixes o1 k s
  assumes "o_Consensus o1 = Some k"
  defines "st \<equiv> fst (run_state (Status o1) s)"
    and "h1 \<equiv> hist s @ [ConsTerm]" and "h2 \<equiv> hist s @ [ConsTerm, ConsLeader]"
    and "h3 \<equiv> hist s @ [ConsTerm, ConsLeader, ConsIsLeader]"
  shows "(c_Leader k h2 = None \<longrightarrow> \<not> Healthy st \<and> LeaderID st = [] \<and> Term st = c_Term k h1)
    \<and> (\<forall>i a rs m. c_Leader k h2 = Some (i, a) \<and> c_IsLeader k h3 \<and> o_RPCServer o1 = Some rs
          \<and> o_Membership o1 = Some m \<longrightarrow>
        st = \<lparr>Healthy = True, Term = c_Term k h1, LeaderID = i, LeaderAddr = s_Addr rs (h3 @ [ServerAddr]),
              SMembers = Some (m_Members m (h3 @ [ServerAddr, MemMembers])), Warnings = None\<rparr>)
    \<and> (\<forall>i a c m la data rs. c_Leader k h2 = Some (i, a) \<and> \<not> c_IsLeader k h3 \<and> o_RPCClient o1 = Some c
          \<and> o_Membership o1 = Some m
          \<and> la = (case find (\<lambda>x. ID x = i) (m_Members m (h3 @ [MemMembers])) of None \<Rightarrow> [] | Some x \<Rightarrow> mgmt_addr x)
          \<and> la \<noteq> [] \<and> k_GetStatus c (h3 @ [MemMembers, ClientGetStatus la]) = Inr data
          \<and> parse_status data = Some rs \<longrightarrow> st = rs)"
  unfolding st_def h1_def h2_def h3_def
  using assms(1)
  by (auto simp: Status_def status_tail_def proxy_status_def zero_status_def prog_defs split: option.splits)

text \<open>A follower whose leader serves a status, and what the leader's handler returned.\<close>

definition client1 :: "ClusterStatus \<Rightarrow> rpc_client" where
  "client1 st = \<lparr>k_GetStatus = (\<lambda>_. Inr (Marshal (enc_status st))),
     k_PostJoin = (\<lambda>_. Inr \<lparr>jr_Accepted = True, jr_Leader = [], jr_Error = []\<rparr>),
     k_PostAppWrite = (\<lambda>_. Inr \<lparr>wr_Data = ''done'', wr_Error = []\<rparr>)\<rparr>"

definition opts_follower :: "ClusterStatus \<Rightarrow> Options" where
  "opts_follower st = opts1\<lparr>o_NodeID := ''n2'', o_Consensus := Some (leader1\<lparr>c_IsLeader := (\<lambda>_. False)\<rparr>),
     o_RPCClient := Some (client1 st)\<rparr>"

definition status1 :: ClusterStatus where
  "status1 = \<lparr>Healthy = True, Term = 3, LeaderID = ''n1'', LeaderAddr = ''a:2'', SMembers = Some [], Warnings = None\<rparr>"

theorem Status_spec_witness: "fst (run_state (Status (opts_follower status1)) cluster1) = status1"
proof -
  have k: "o_Consensus (opts_follower status1) = Some (leader1\<lparr>c_IsLeader := (\<lambda>_. False)\<rparr>)"
    by (simp add: opts_follower_def)
  have "status_ok status1" by (simp add: status_ok_def status1_def valid_utf8_all_ascii)
  then have "parse_status (Marshal (enc_status status1)) = Some status1" by (rule parse_status_enc)
  then show ?thesis
    using Status_spec [OF k, of cluster1]
    by (simp add: opts_follower_def opts1_def client1_def leader1_def members1_def mgmt_addr_def)
qed

text \<open>
  Forwarding writes: a write submitted on a follower that can resolve its leader returns
  what the leader's handler answered to exactly that operation and payload: its data, or an
  error with its message. Without a resolvable leader the write fails with \<open>ErrNotLeader\<close>
  and nothing is sent.
\<close>

theorem AppWrite_forwarding:
  fixes o1 k c s op data
  assumes "o_Consensus o1 = Some k" and "o_RPCClient o1 = Some c" and "\<not> c_IsLeader k (hist s @ [ConsIsLeader])"
  defines "s1 \<equiv> s\<lparr>hist := hist s @ [ConsIsLeader]\<rparr>"
  defines "addr \<equiv> fst (run_state (forward_addr o1 k c) s1)" and "h \<equiv> hist (snd (run_state (forward_addr o1 k c) s1))"
  defines "post \<equiv> ClientPostAppWrite addr \<lparr>wq_Op = op, wq_Data = data\<rparr>"
  shows "fst (run_state (AppWrite o1 op data) s) =
    (if addr = [] then Some (Inl err_not_leader)
     else Some (case k_PostAppWrite c (h @ [post]) of
         Inl err \<Rightarrow> Inl err
       | Inr r \<Rightarrow> if wr_Error r \<noteq> [] then Inl (wr_Error r) else Inr (wr_Data r)))"
  unfolding addr_def h_def post_def s1_def
  using assms(1-3) by (simp add: AppWrite_def leading_def split: prod.splits)

theorem AppWrite_forwarding_witness:
  "fst (run_state (AppWrite (opts_follower status1) ''put'' ''x'') cluster1) = Some (Inr ''done'')"
proof -
  have k: "o_Consensus (opts_follower status1) = Some (leader1\<lparr>c_IsLeader := (\<lambda>_. False)\<rparr>)"
    "o_RPCClient (opts_follower status1) = Some (client1 status1)"
    "\<not> c_IsLeader (leader1\<lparr>c_IsLeader := (\<lambda>_. False)\<rparr>) (hist cluster1 @ [ConsIsLeader])"
    by (simp_all add: opts_follower_def)
  show ?thesis
    by (subst AppWrite_forwarding [OF k])
      (simp add: forward_addr_def prog_defs opts_follower_def opts1_def leader1_def members1_def mgmt_addr_def client1_def)
qed

definition start_calls :: "trace \<Rightarrow> trace" where
  "start_calls h = filter (\<lambda>c. c \<in> {MemStart, ConsStart, ServerStart}) h"

lemma run_start_membership:
  "o_Membership o1 = Some m \<Longrightarrow> \<exists>cs. run_state (start_membership o1) s
     = (m_Start m (hist s @ [MemStart]), s\<lparr>hist := hist s @ MemStart # cs\<rparr>) \<and> start_calls cs = []"
  by (cases "m_Start m (hist s @ [MemStart])"; cases "o_Discovery o1")
    (auto simp: start_membership_def start_calls_def split: option.splits)

lemma run_start_consensus:
  "o_Consensus o1 = Some k \<Longrightarrow> \<exists>cs. run_state (start_consensus o1) s
     = (c_Start k (hist s @ [ConsStart]), s\<lparr>hist := hist s @ ConsStart # cs\<rparr>) \<and> start_calls cs = []"
  by (cases "c_Start k (hist s @ [ConsStart])")
    (auto simp: start_consensus_def start_calls_def split: option.splits)

lemma run_start_server:
  "o_RPCServer o1 = Some rs \<Longrightarrow> \<exists>cs. run_state (start_server o1) s
     = (s_Start rs (hist s @ [ServerStart]), s\<lparr>hist := hist s @ ServerStart # cs\<rparr>) \<and> start_calls cs = []"
  by (cases "s_Start rs (hist s @ [ServerStart])")
    (auto simp: start_server_def start_calls_def split: option.splits)

lemma run_prepare_buffer:
  "\<exists>r f. run_state (prepare_buffer o1) s = ((), s\<lparr>crep := r, cdisk := f\<rparr>)"
  by (cases s) (auto simp: prepare_buffer_def Let_def)

text \<open>A first \<open>Start\<close>: the starts it attempts, in order, and the error it returns.\<close>

definition start_outcome ::
  "membership \<Rightarrow> consensus \<Rightarrow> rpc_server \<Rightarrow> trace \<Rightarrow> gerror option \<Rightarrow> bool" where
  "start_outcome m k rs cs res \<longleftrightarrow>
     (\<exists>h1. start_calls cs = [MemStart] \<and> res \<noteq> None \<and> res = m_Start m h1)
     \<or> (\<exists>h1 h2. start_calls cs = [MemStart, ConsStart] \<and> m_Start m h1 = None \<and> res \<noteq> None \<and> res = c_Start k h2)
     \<or> (\<exists>h1 h2 h3. start_calls cs = [MemStart, ConsStart, ServerStart] \<and> m_Start m h1 = None
          \<and> c_Start k h2 = None \<and> res = s_Start rs h3)"

lemma first_Start:
  assumes "o_Membership o1 = Some m" and "o_Consensus o1 = Some k" and "o_RPCServer o1 = Some rs" and "\<not> started s"
  shows "started (snd (run_state (Start o1) s))"
    and "start_outcome m k rs (new_calls (Start o1) s) (fst (run_state (Start o1) s))"
proof -
  obtain r f where p: "run_state (prepare_buffer o1) (s\<lparr>started := True, hist := hist s @ [MetricsRegister]\<rparr>)
      = ((), s\<lparr>started := True, hist := hist s @ [MetricsRegister], crep := r, cdisk := f\<rparr>)"
    using run_prepare_buffer by blast
  let ?s0 = "s\<lparr>started := True, hist := hist s @ [MetricsRegister], crep := r, cdisk := f\<rparr>"
  obtain c1 where m: "run_state (start_membership o1) ?s0
      = (m_Start m (hist ?s0 @ [MemStart]), ?s0\<lparr>hist := hist ?s0 @ MemStart # c1\<rparr>)" "start_calls c1 = []"
    using run_start_membership [OF assms(1)] by blast
  let ?s1 = "?s0\<lparr>hist := hist ?s0 @ MemStart # c1\<rparr>"
  obtain c2 where k: "run_state (start_consensus o1) ?s1
      = (c_Start k (hist ?s1 @ [ConsStart]), ?s1\<lparr>hist := hist ?s1 @ ConsStart # c2\<rparr>)" "start_calls c2 = []"
    using run_start_consensus [OF assms(2)] by blast
  let ?s2 = "?s1\<lparr>hist := hist ?s1 @ ConsStart # c2\<rparr>"
  obtain c3 where v: "run_state (start_server o1) ?s2
      = (s_Start rs (hist ?s2 @ [ServerStart]), ?s2\<lparr>hist := hist ?s2 @ ServerStart # c3\<rparr>)" "start_calls c3 = []"
    using run_start_server [OF assms(3)] by blast
  have run: "run_state (Start o1) s = (case m_Start m (hist ?s0 @ [MemStart]) of
      Some x \<Rightarrow> (Some x, ?s1)
    | None \<Rightarrow> (case c_Start k (hist ?s1 @ [ConsStart]) of
        Some x \<Rightarrow> (Some x, ?s2)
      | None \<Rightarrow> (s_Start rs (hist ?s2 @ [ServerStart]), ?s2\<lparr>hist := hist ?s2 @ ServerStart # c3\<rparr>)))"
    using assms(4) p m(1) k(1) v(1) by (simp add: Start_def split: option.splits)
  have c: "start_calls (xs @ ys) = start_calls xs @ start_calls ys"
    "start_calls (MemStart # xs) = MemStart # start_calls xs"
    "start_calls (ConsStart # xs) = ConsStart # start_calls xs"
    "start_calls (ServerStart # xs) = ServerStart # start_calls xs"
    "start_calls (MetricsRegister # xs) = start_calls xs" "start_calls [] = []" for xs ys
    by (simp_all add: start_calls_def)
  show "started (snd (run_state (Start o1) s))" unfolding run by (simp split: option.splits)
  show "start_outcome m k rs (new_calls (Start o1) s) (fst (run_state (Start o1) s))"
    unfolding new_calls_def run start_outcome_def
    by (cases "m_Start m (hist ?s0 @ [MemStart])"; cases "c_Start k (hist ?s1 @ [ConsStart])")
      (auto simp: c m(2) k(2) v(2) simp del: ex_simps, metis+)
qed

text \<open>
  C26. Starting and stopping. A first \<open>Start\<close> attempts membership, then consensus, then the
  management server, and stops at the first error, which it returns. \<open>Start\<close> on a started
  node and \<open>Stop\<close> on a stopped one return nil and do nothing. \<open>Stop\<close> makes its calls once, in
  the order consensus, leave, membership, server.
\<close>

theorem cluster_life_cycle:
  assumes "o_Membership o1 = Some m" and "o_Consensus o1 = Some k" and "o_RPCServer o1 = Some rs"
    and "\<not> started s" and "\<not> stopped s"
  shows "start_outcome m k rs (new_calls (Start o1) s) (fst (run_state (Start o1) s))
    \<and> run_state (Start o1) (snd (run_state (Start o1) s)) = (None, snd (run_state (Start o1) s))
    \<and> new_calls (Stop o1) s = [ConsStop, MemLeave, MemStop, ServerStop]
    \<and> fst (run_state (Stop o1) s) = None
    \<and> run_state (Stop o1) (snd (run_state (Stop o1) s)) = (None, snd (run_state (Stop o1) s))"
proof (intro conjI)
  show "start_outcome m k rs (new_calls (Start o1) s) (fst (run_state (Start o1) s))"
    using assms(1-4) by (rule first_Start(2))
  show "run_state (Start o1) (snd (run_state (Start o1) s)) = (None, snd (run_state (Start o1) s))"
    using first_Start(1) [OF assms(1-4)] by (subst Start_def) simp
qed (use assms in \<open>simp_all add: Stop_def new_calls_def\<close>)

definition server1 :: rpc_server where
  "server1 = \<lparr>s_Start = (\<lambda>_. None), s_Addr = (\<lambda>_. ''a:2''), s_Stop = (\<lambda>_. None)\<rparr>"

theorem cluster_life_cycle_witness:
  "new_calls (Stop (opts1\<lparr>o_RPCServer := Some server1\<rparr>)) cluster1 = [ConsStop, MemLeave, MemStop, ServerStop]
   \<and> start_outcome members1 leader1 server1 (new_calls (Start (opts1\<lparr>o_RPCServer := Some server1\<rparr>)) cluster1)
        (fst (run_state (Start (opts1\<lparr>o_RPCServer := Some server1\<rparr>)) cluster1))"
proof -
  have "o_Membership (opts1\<lparr>o_RPCServer := Some server1\<rparr>) = Some members1"
    "o_Consensus (opts1\<lparr>o_RPCServer := Some server1\<rparr>) = Some leader1"
    "o_RPCServer (opts1\<lparr>o_RPCServer := Some server1\<rparr>) = Some server1" "\<not> started cluster1" "\<not> stopped cluster1"
    by (simp_all add: opts1_def cluster1_def)
  from cluster_life_cycle [OF this] show ?thesis by blast
qed

text \<open>
  The events an application sees of elections, and the runs of the two goroutines that
  announce them: ticks of the watch loop and observed leader changes, in any order.
\<close>

inductive election_run :: "Options \<Rightarrow> Cluster \<Rightarrow> bool" for o1 where
  init: "hist s = [] \<Longrightarrow> \<not> hadLeader s \<Longrightarrow> \<not> inProgress s \<Longrightarrow> election_run o1 s"
| tick: "election_run o1 s \<Longrightarrow> election_run o1 (snd (run_state (election_tick o1) s))"
| change: "election_run o1 s \<Longrightarrow> election_run o1 (snd (run_state (on_leader_change o1 li) s))"

definition announced :: "AppEventType \<Rightarrow> trace \<Rightarrow> nat" where
  "announced t h = length (filter (\<lambda>c. case c of BusPublish ev \<Rightarrow> AType ev = t | _ \<Rightarrow> False) h)"

lemma announced_simps [simp]:
  "announced t [] = 0" "announced t (h @ h') = announced t h + announced t h'"
  "announced t (c # h) = (case c of BusPublish ev \<Rightarrow> if AType ev = t then 1 else 0 | _ \<Rightarrow> 0) + announced t h"
  by (auto simp: announced_def split: call.splits)

lemma election_run_inv:
  "election_run o1 s \<Longrightarrow>
   announced EventElectionStart (hist s) + (if hadLeader s \<and> \<not> inProgress s then 1 else 0)
     \<le> announced EventLeaderChanged (hist s)
   \<and> announced EventElectionEnd (hist s) = 0"
proof (induction rule: election_run.induct)
  case (tick s)
  then show ?case
    by (auto simp: election_tick_def app_event_def split: option.splits if_splits)
next
  case (change s li)
  then show ?case by (auto simp: on_leader_change_def app_event_def split: if_splits)
qed simp



text \<open>
  Joining through a seed: the request carries this node's ID and Raft address and goes to
  the leader the seed's status names, or to the seed itself if it names none; a refusal as
  \<open>not leader\<close> is \<open>ErrNotLeader\<close>, any other refusal an error, and nil is returned only when the
  request was accepted.
\<close>

theorem Join_through_seed:
  fixes o1 c s seed
  assumes "o_RPCClient o1 = Some c" and "seed \<noteq> []" and "o_Transport o1 = Some raft"
  defines "h \<equiv> hist s @ [ClientGetStatus seed]"
  defines "target \<equiv> (case k_GetStatus c h of Inl err \<Rightarrow> seed | Inr data \<Rightarrow> (case parse_status data of
       None \<Rightarrow> seed | Some st \<Rightarrow> if LeaderAddr st \<noteq> [] then LeaderAddr st else seed))"
  defines "post \<equiv> ClientPostJoin target \<lparr>jq_ID = o_NodeID o1, jq_RaftAddr = raft\<rparr>"
  shows "new_calls (Join o1 seed) s = [ClientGetStatus seed, post]
    \<and> (fst (run_state (Join o1 seed) s) = None \<longleftrightarrow> (\<exists>r. k_PostJoin c (h @ [post]) = Inr r \<and> jr_Accepted r))
    \<and> (\<forall>r. k_PostJoin c (h @ [post]) = Inr r \<and> \<not> jr_Accepted r \<and> jr_Error r = ''not leader'' \<longrightarrow>
          fst (run_state (Join o1 seed) s) = Some err_not_leader)
    \<and> (\<forall>err. k_PostJoin c (h @ [post]) = Inl err \<longrightarrow> fst (run_state (Join o1 seed) s) = Some err)"
proof -
  have t: "target \<noteq> []" unfolding target_def using assms(2) by (auto split: sum.splits option.splits)
  have "run_state (Join o1 seed) s = (case k_PostJoin c (h @ [post]) of Inl err \<Rightarrow> Some err | Inr x \<Rightarrow> join_error x,
      s\<lparr>hist := h @ [post]\<rparr>)"
    using assms(1-3) t unfolding Join_def resolve_join_def post_def h_def
    by (auto simp: target_def h_def split: sum.splits option.splits)
  then show ?thesis
    by (auto simp: new_calls_def h_def join_error_def split: sum.splits)
qed

theorem Join_through_seed_witness:
  "fst (run_state (Join (opts_follower status1) ''s:1'') cluster1) = None
   \<and> new_calls (Join (opts_follower status1) ''s:1'') cluster1
     = [ClientGetStatus ''s:1'', ClientPostJoin ''a:2'' \<lparr>jq_ID = ''n2'', jq_RaftAddr = ''r:1''\<rparr>]"
proof -
  have c: "o_RPCClient (opts_follower status1) = Some (client1 status1)" "''s:1'' \<noteq> []"
    "o_Transport (opts_follower status1) = Some ''r:1''"
    by (simp_all add: opts_follower_def opts1_def)
  have "status_ok status1" by (simp add: status_ok_def status1_def valid_utf8_all_ascii)
  then have "parse_status (Marshal (enc_status status1)) = Some status1" by (rule parse_status_enc)
  then show ?thesis
    using Join_through_seed [OF c, of cluster1]
    by (simp add: client1_def status1_def opts_follower_def)
qed

section \<open>Behaviours of the code\<close>

text \<open>A \<open>Start\<close> that failed is not tried again: the next one returns nil without starting anything.\<close>

lemma failed_Start_not_retried:
  assumes "o_Membership o1 = Some m" and "o_Consensus o1 = Some k" and "o_RPCServer o1 = Some rs"
    and "\<not> started s" and "fst (run_state (Start o1) s) = Some err"
  shows "run_state (Start o1) (snd (run_state (Start o1) s)) = (None, snd (run_state (Start o1) s))"
  using first_Start(1) [OF assms(1-4)] by (subst Start_def) simp

text \<open>A leave is accepted although leadership was lost before anything was removed.\<close>

lemma leave_accepted_without_effect:
  assumes "o_Consensus o1 = Some k" and "c_IsLeader k (hist s @ [ConsIsLeader])"
    and "\<forall>h. h \<noteq> hist s @ [ConsIsLeader] \<longrightarrow> \<not> c_IsLeader k h"
  shows "lr_Accepted (fst (run_state (handleLeave o1 req) s))
    \<and> set (new_calls (handleLeave o1 req) s) = {ConsIsLeader}"
  using assms by (auto simp: handleLeave_def new_calls_def prog_defs)

text \<open>Without a consensus engine a write with an RPC client configured panics.\<close>

lemma AppWrite_nil_consensus:
  "o_Consensus o1 = None \<Longrightarrow> o_RPCClient o1 = Some c \<Longrightarrow> fst (run_state (AppWrite o1 op data) s) = None"
  by (simp add: AppWrite_def leading_def)

end
