(* ===== verification/ConnMgr.thy ===== *)
theory ConnMgr
  imports Metrics
begin

text \<open>
  \<open>pkg/transport/grpc/connmgr.go\<close>: the cache of client connections per address, with
  reference counts and eviction of idle connections. A connection is known by a number.
  Every operation is what one locked region does; \<open>Get\<close> has two of them, around the dial, so
  other goroutines may come in between.
\<close>

section \<open>State and operations\<close>

type_synonym conn = nat

record managedConn =
  cc :: conn
  lastUsed :: time
  ref :: int

record ConnManager =
  conns :: "(string, managedConn) gomap"
  ttl :: duration
  closing :: bool

definition NewConnManager :: "duration \<Rightarrow> ConnManager" where
  "NewConnManager t = \<lparr>conns = [], ttl = (if t \<le> 0 then 30 * second else t), closing = False\<rparr>"

text \<open>The first locked region of \<open>Get\<close>: a cached connection, or none.\<close>

definition Get_cached :: "string \<Rightarrow> time \<Rightarrow> ConnManager \<Rightarrow> (conn \<times> ConnManager) option" where
  "Get_cached target now m =
     (case gm_get (conns m) target of
        None \<Rightarrow> None
      | Some mc \<Rightarrow> Some (cc mc, m\<lparr>conns := gm_put target (mc\<lparr>ref := ref mc + 1, lastUsed := now\<rparr>) (conns m)\<rparr>))"

text \<open>
  The second region, with the connection \<open>c\<close> dialed in between: the connection returned, the
  connections closed, the metrics, and the manager.
\<close>

definition Get_dialed ::
  "string \<Rightarrow> conn \<Rightarrow> time \<Rightarrow> ConnManager \<Rightarrow> conn \<times> conn list \<times> metric_call list \<times> ConnManager" where
  "Get_dialed target c now m =
     (case gm_get (conns m) target of
        Some mc \<Rightarrow> (cc mc, [c], [MInc GRPCConnReuse []],
          m\<lparr>conns := gm_put target (mc\<lparr>ref := ref mc + 1, lastUsed := now\<rparr>) (conns m)\<rparr>)
      | None \<Rightarrow> (c, [], [MInc GRPCConnDials [], MInc GRPCConnActive []],
          m\<lparr>conns := gm_put target \<lparr>cc = c, lastUsed = now, ref = 1\<rparr> (conns m)\<rparr>))"

definition release :: "string \<Rightarrow> time \<Rightarrow> ConnManager \<Rightarrow> ConnManager" where
  "release target now m =
     (case gm_get (conns m) target of
        None \<Rightarrow> m
      | Some mc \<Rightarrow> m\<lparr>conns := gm_put target
          (mc\<lparr>ref := (if 0 < ref mc then ref mc - 1 else ref mc), lastUsed := now\<rparr>) (conns m)\<rparr>)"

text \<open>\<open>Close\<close> closes the channel first, which panics (\<open>None\<close>) the second time.\<close>

definition Close_all :: "ConnManager \<Rightarrow> (conn list \<times> ConnManager) option" where
  "Close_all m =
     (if closing m then None
      else Some (map (cc \<circ> snd) (conns m), m\<lparr>closing := True, conns := []\<rparr>))"

definition idle :: "time \<Rightarrow> managedConn \<Rightarrow> bool" where
  "idle cutoff mc \<longleftrightarrow> ref mc = 0 \<and> lastUsed mc < cutoff"

text \<open>The body of the janitor's range loop, and one tick of it over the entries in some order.\<close>

definition evict ::
  "time \<Rightarrow> string \<times> managedConn \<Rightarrow> conn list \<times> metric_call list \<times> (string, managedConn) gomap
   \<Rightarrow> conn list \<times> metric_call list \<times> (string, managedConn) gomap" where
  "evict cutoff e acc =
     (case acc of (closed, ms, cs) \<Rightarrow>
        if idle cutoff (snd e)
        then (closed @ [cc (snd e)], ms @ [MInc GRPCConnEvictions [], MDec GRPCConnActive []], gm_del (fst e) cs)
        else acc)"

definition janitor_tick ::
  "((string, managedConn) gomap \<Rightarrow> (string, managedConn) gomap) \<Rightarrow> time \<Rightarrow> ConnManager
   \<Rightarrow> conn list \<times> metric_call list \<times> ConnManager" where
  "janitor_tick rng now m =
     (case fold (evict (now - ttl m)) (rng (conns m)) ([], [], conns m) of
        (closed, ms, cs) \<Rightarrow> (closed, ms, m\<lparr>conns := cs\<rparr>))"

section \<open>The manager and its callers\<close>

text \<open>
  The callers: which connections are held (acquired and not released), which were dialed and
  which are closed. A dial yields a new connection; a caller releases what it holds once.
\<close>

record cm_sys =
  mgr :: ConnManager
  held :: "(string \<times> conn) list"
  dialed :: "conn set"
  closedc :: "conn set"

inductive cm_step :: "cm_sys \<Rightarrow> cm_sys \<Rightarrow> bool" where
  reuse: "Get_cached target now (mgr s) = Some (c, m) \<Longrightarrow>
    cm_step s (s\<lparr>mgr := m, held := (target, c) # held s\<rparr>)"
| dial: "c \<notin> dialed s \<Longrightarrow> Get_dialed target c now (mgr s) = (out, cl, ms, m) \<Longrightarrow>
    cm_step s (s\<lparr>mgr := m, held := (target, out) # held s, dialed := insert c (dialed s),
      closedc := closedc s \<union> set cl\<rparr>)"
| release: "(target, c) \<in> set (held s) \<Longrightarrow>
    cm_step s (s\<lparr>mgr := release target now (mgr s), held := remove1 (target, c) (held s)\<rparr>)"
| tick: "mset (rng (conns (mgr s))) = mset (conns (mgr s)) \<Longrightarrow>
    janitor_tick rng now (mgr s) = (cl, ms, m) \<Longrightarrow>
    cm_step s (s\<lparr>mgr := m, closedc := closedc s \<union> set cl\<rparr>)"

definition cm_init :: "duration \<Rightarrow> cm_sys" where
  "cm_init t = \<lparr>mgr = NewConnManager t, held = [], dialed = {}, closedc = {}\<rparr>"

abbreviation holders :: "cm_sys \<Rightarrow> string \<Rightarrow> nat" where
  "holders s target \<equiv> length (filter (\<lambda>h. fst h = target) (held s))"

definition cached :: "cm_sys \<Rightarrow> conn set" where
  "cached s = {c. \<exists>target mc. gm_get (conns (mgr s)) target = Some mc \<and> cc mc = c}"

definition cm_inv :: "cm_sys \<Rightarrow> bool" where
  "cm_inv s \<longleftrightarrow> gm_wf (conns (mgr s))
     \<and> (\<forall>target mc. gm_get (conns (mgr s)) target = Some mc \<longrightarrow>
          ref mc = int (holders s target) \<and> cc mc \<in> dialed s \<and> cc mc \<notin> closedc s)
     \<and> (\<forall>target c. (target, c) \<in> set (held s) \<longrightarrow> (\<exists>mc. gm_get (conns (mgr s)) target = Some mc \<and> cc mc = c))
     \<and> (\<forall>t t' mc mc'. gm_get (conns (mgr s)) t = Some mc \<longrightarrow> gm_get (conns (mgr s)) t' = Some mc' \<longrightarrow>
          cc mc = cc mc' \<longrightarrow> t = t')
     \<and> closedc s \<subseteq> dialed s \<and> dialed s = closedc s \<union> cached s"

section \<open>The janitor\<close>

lemma evict_fold:
  "distinct (map fst es) \<Longrightarrow> gm_wf cs \<Longrightarrow>
   \<exists>cs'. fold (evict cutoff) es (closed, ms, cs) =
      (closed @ map (cc \<circ> snd) (filter (idle cutoff \<circ> snd) es),
       ms @ concat (map (\<lambda>_. [MInc GRPCConnEvictions [], MDec GRPCConnActive []]) (filter (idle cutoff \<circ> snd) es)), cs')
    \<and> gm_wf cs'
    \<and> (\<forall>t. gm_get cs' t = (if \<exists>mc. (t, mc) \<in> set es \<and> idle cutoff mc then None else gm_get cs t))"
proof (induction es arbitrary: closed ms cs)
  case (Cons e es)
  obtain t mc where e: "e = (t, mc)" by (cases e)
  show ?case
  proof (cases "idle cutoff mc")
    case True
    let ?m = "ms @ [MInc GRPCConnEvictions [], MDec GRPCConnActive []]"
    have "evict cutoff e (closed, ms, cs) = (closed @ [cc mc], ?m, gm_del t cs)"
      using True e by (simp add: evict_def)
    then show ?thesis
      using Cons.IH [of "gm_del t cs" "closed @ [cc mc]" ?m] Cons.prems True e by auto
  next
    case False
    then have "evict cutoff e (closed, ms, cs) = (closed, ms, cs)" using e by (simp add: evict_def)
    then show ?thesis using Cons.IH [of cs closed ms] Cons.prems False e by auto
  qed
qed simp

lemma janitor_tick_eq:
  assumes "gm_wf (conns m)" and "mset (rng (conns m)) = mset (conns m)"
    and "janitor_tick rng now m = (cl, ms, m')"
  shows "gm_wf (conns m')"
    and "gm_get (conns m') t = (case gm_get (conns m) t of None \<Rightarrow> None
        | Some mc \<Rightarrow> if idle (now - ttl m) mc then None else Some mc)"
    and "set cl = {cc mc | mc t. gm_get (conns m) t = Some mc \<and> idle (now - ttl m) mc}"
    and "length ms = 2 * length cl" and "ttl m' = ttl m" and "closing m' = closing m"
proof -
  have d: "distinct (map fst (rng (conns m)))"
    using assms(1,2) by (metis gm_wf_distinct mset_eq_imp_distinct_iff mset_map)
  have s: "set (rng (conns m)) = set (conns m)" using assms(2) by (rule mset_eq_setD)
  obtain cs' where f: "fold (evict (now - ttl m)) (rng (conns m)) ([], [], conns m) =
      (map (cc \<circ> snd) (filter (idle (now - ttl m) \<circ> snd) (rng (conns m))),
       concat (map (\<lambda>_. [MInc GRPCConnEvictions [], MDec GRPCConnActive []])
         (filter (idle (now - ttl m) \<circ> snd) (rng (conns m)))), cs')" "gm_wf cs'"
    "\<forall>t. gm_get cs' t = (if \<exists>mc. (t, mc) \<in> set (rng (conns m)) \<and> idle (now - ttl m) mc then None
       else gm_get (conns m) t)"
    using evict_fold [OF d assms(1), of "now - ttl m" "[]" "[]"] by auto
  have m': "m' = m\<lparr>conns := cs'\<rparr>" "cl = map (cc \<circ> snd) (filter (idle (now - ttl m) \<circ> snd) (rng (conns m)))"
    "ms = concat (map (\<lambda>_. [MInc GRPCConnEvictions [], MDec GRPCConnActive []])
         (filter (idle (now - ttl m) \<circ> snd) (rng (conns m))))"
    using assms(3) f(1) by (auto simp: janitor_tick_def)
  show "gm_wf (conns m')" "ttl m' = ttl m" "closing m' = closing m" using m' f(2) by simp_all
  have get: "(t, mc) \<in> set (conns m) \<longleftrightarrow> gm_get (conns m) t = Some mc" for t mc
    using assms(1) by (simp add: gm_get_iff)
  show "gm_get (conns m') t = (case gm_get (conns m) t of None \<Rightarrow> None
        | Some mc \<Rightarrow> if idle (now - ttl m) mc then None else Some mc)"
    using f(3) by (auto simp: m' s get split: option.splits)
  show "set cl = {cc mc | mc t. gm_get (conns m) t = Some mc \<and> idle (now - ttl m) mc}"
    unfolding m' by (auto simp: s get) (auto simp flip: get intro!: image_eqI)
  show "length ms = 2 * length cl" unfolding m' by (simp add: length_concat comp_def sum_list_triv)
qed

section \<open>The invariant\<close>

lemma cm_init_inv: "cm_inv (cm_init t)"
  by (simp add: cm_inv_def cm_init_def NewConnManager_def cached_def)

lemma cm_invD:
  assumes "cm_inv s" and "gm_get (conns (mgr s)) target = Some mc"
  shows "ref mc = int (holders s target)" and "cc mc \<in> dialed s" and "cc mc \<notin> closedc s"
  using assms unfolding cm_inv_def by blast+

lemma cm_inv_held:
  "cm_inv s \<Longrightarrow> (target, c) \<in> set (held s) \<Longrightarrow> \<exists>mc. gm_get (conns (mgr s)) target = Some mc \<and> cc mc = c"
  unfolding cm_inv_def by blast

lemma cm_inv_unique:
  "cm_inv s \<Longrightarrow> gm_get (conns (mgr s)) t = Some mc \<Longrightarrow> gm_get (conns (mgr s)) t' = Some mc' \<Longrightarrow>
   cc mc = cc mc' \<Longrightarrow> t = t'"
  unfolding cm_inv_def by blast

lemma cm_inv_dialed: "cm_inv s \<Longrightarrow> closedc s \<subseteq> dialed s \<and> dialed s = closedc s \<union> cached s"
  unfolding cm_inv_def by blast

lemma cm_invI:
  assumes "gm_wf (conns (mgr s))"
    and "\<And>t mc. gm_get (conns (mgr s)) t = Some mc \<Longrightarrow>
      ref mc = int (holders s t) \<and> cc mc \<in> dialed s \<and> cc mc \<notin> closedc s"
    and "\<And>t c. (t, c) \<in> set (held s) \<Longrightarrow> \<exists>mc. gm_get (conns (mgr s)) t = Some mc \<and> cc mc = c"
    and "\<And>t t' mc mc'. gm_get (conns (mgr s)) t = Some mc \<Longrightarrow> gm_get (conns (mgr s)) t' = Some mc' \<Longrightarrow>
      cc mc = cc mc' \<Longrightarrow> t = t'"
    and "closedc s \<subseteq> dialed s" and "dialed s = closedc s \<union> cached s"
  shows "cm_inv s"
  unfolding cm_inv_def using assms by blast

text \<open>Changing the bookkeeping of a cached connection, with the holders to match.\<close>

lemma cm_inv_touch:
  assumes inv: "cm_inv s" and g: "gm_get (conns (mgr s)) target = Some mc"
    and "mc' = mc\<lparr>ref := int (length (filter (\<lambda>h. fst h = target) hs)), lastUsed := now\<rparr>"
    and hs: "\<forall>t. t \<noteq> target \<longrightarrow> filter (\<lambda>h. fst h = t) hs = filter (\<lambda>h. fst h = t) (held s)"
    and sub: "\<forall>(t, c) \<in> set hs. (t, c) \<in> set (held s) \<or> t = target \<and> c = cc mc"
  shows "cm_inv (s\<lparr>mgr := (mgr s)\<lparr>conns := gm_put target mc' (conns (mgr s))\<rparr>, held := hs\<rparr>)"
proof -
  let ?s = "s\<lparr>mgr := (mgr s)\<lparr>conns := gm_put target mc' (conns (mgr s))\<rparr>, held := hs\<rparr>"
  have cc: "cc mc' = cc mc" using assms(3) by simp
  have get: "gm_get (conns (mgr ?s)) t = (if t = target then Some mc' else gm_get (conns (mgr s)) t)" for t
    by simp
  have cached: "cached ?s = cached s"
    using g cc unfolding cached_def get by (intro set_eqI) (simp, metis option.inject)
  show ?thesis
  proof (rule cm_invI)
    show "gm_wf (conns (mgr ?s))" using inv by (simp add: cm_inv_def)
    show "\<exists>mc. gm_get (conns (mgr ?s)) t = Some mc \<and> cc mc = c" if "(t, c) \<in> set (held ?s)" for t c
      using that sub cm_inv_held [OF inv, of t c] g cc unfolding get by auto
    show "t = t'" if "gm_get (conns (mgr ?s)) t = Some x" "gm_get (conns (mgr ?s)) t' = Some y" "cc x = cc y"
      for t t' x y
      using that cm_inv_unique [OF inv] g cc unfolding get by (metis option.inject)
    show "ref x = int (holders ?s t) \<and> cc x \<in> dialed ?s \<and> cc x \<notin> closedc ?s"
      if "gm_get (conns (mgr ?s)) t = Some x" for t x
      using that cm_invD [OF inv] g hs assms(3) unfolding get by (cases "t = target") auto
    show "closedc ?s \<subseteq> dialed ?s" "dialed ?s = closedc ?s \<union> cached ?s"
      using cm_inv_dialed [OF inv] unfolding cached by auto
  qed
qed

lemma cm_inv_acquire:
  assumes "cm_inv s" and "gm_get (conns (mgr s)) target = Some mc"
  shows "cm_inv (s\<lparr>mgr := (mgr s)\<lparr>conns := gm_put target (mc\<lparr>ref := ref mc + 1, lastUsed := now\<rparr>) (conns (mgr s))\<rparr>,
    held := (target, cc mc) # held s\<rparr>)"
  using cm_invD(1) [OF assms] by (intro cm_inv_touch [OF assms, where now = now]) auto

lemma cm_inv_discard: "cm_inv s \<Longrightarrow> c \<notin> dialed s \<Longrightarrow>
  cm_inv (s\<lparr>dialed := insert c (dialed s), closedc := insert c (closedc s)\<rparr>)"
  by (auto simp: cm_inv_def cached_def)

lemma cm_inv_install:
  assumes "cm_inv s" and "gm_get (conns (mgr s)) target = None" and "c \<notin> dialed s"
  shows "cm_inv (s\<lparr>mgr := (mgr s)\<lparr>conns := gm_put target \<lparr>cc = c, lastUsed = now, ref = 1\<rparr> (conns (mgr s))\<rparr>,
    held := (target, c) # held s, dialed := insert c (dialed s)\<rparr>)"
proof -
  let ?s = "s\<lparr>mgr := (mgr s)\<lparr>conns := gm_put target \<lparr>cc = c, lastUsed = now, ref = 1\<rparr> (conns (mgr s))\<rparr>,
    held := (target, c) # held s, dialed := insert c (dialed s)\<rparr>"
  have none: "filter (\<lambda>h. fst h = target) (held s) = []"
    using cm_inv_held [OF assms(1)] assms(2) by (fastforce simp: filter_empty_conv)
  have fresh: "cc mc \<noteq> c" if "gm_get (conns (mgr s)) t = Some mc" for t mc
    using cm_invD(2) [OF assms(1) that] assms(3) by blast
  have get: "gm_get (conns (mgr ?s)) t =
      (if t = target then Some \<lparr>cc = c, lastUsed = now, ref = 1\<rparr> else gm_get (conns (mgr s)) t)" for t
    by simp
  have cached: "cached ?s = insert c (cached s)"
    using assms(2) unfolding cached_def get by (auto split: if_splits) (metis option.distinct(1))
  show ?thesis
  proof (rule cm_invI)
    show "gm_wf (conns (mgr ?s))" using assms(1) by (simp add: cm_inv_def)
    show "\<exists>mc. gm_get (conns (mgr ?s)) t = Some mc \<and> cc mc = c'" if "(t, c') \<in> set (held ?s)" for t c'
      using that cm_inv_held [OF assms(1), of t c'] assms(2) unfolding get by auto
    show "t = t'" if "gm_get (conns (mgr ?s)) t = Some x" "gm_get (conns (mgr ?s)) t' = Some y" "cc x = cc y"
      for t t' x y
      using that cm_inv_unique [OF assms(1)] fresh unfolding get
      by (metis managedConn.select_convs(1) option.inject)
    show "ref x = int (holders ?s t) \<and> cc x \<in> dialed ?s \<and> cc x \<notin> closedc ?s"
      if "gm_get (conns (mgr ?s)) t = Some x" for t x
      using that cm_invD [OF assms(1)] none assms(3) cm_inv_dialed [OF assms(1)]
      unfolding get by (auto split: if_splits)
    show "closedc ?s \<subseteq> dialed ?s" "dialed ?s = closedc ?s \<union> cached ?s"
      using cm_inv_dialed [OF assms(1)] unfolding cached by auto
  qed
qed

lemma cm_inv_release:
  assumes inv: "cm_inv s" and h: "(target, c) \<in> set (held s)"
  shows "cm_inv (s\<lparr>mgr := release target now (mgr s), held := remove1 (target, c) (held s)\<rparr>)"
proof -
  obtain mc where mc: "gm_get (conns (mgr s)) target = Some mc"
    using cm_inv_held [OF inv h] by blast
  have n: "int (length (filter (\<lambda>h. fst h = target) (remove1 (target, c) (held s)))) = ref mc - 1" "0 < ref mc"
  proof -
    have "(target, c) \<in> set (filter (\<lambda>h. fst h = target) (held s))" using h by simp
    then have "0 < holders s target" by (rule length_pos_if_in_set)
    then obtain k where k: "holders s target = Suc k" using gr0_implies_Suc by blast
    then show "int (length (filter (\<lambda>h. fst h = target) (remove1 (target, c) (held s)))) = ref mc - 1"
      using cm_invD(1) [OF inv mc] h by (simp add: filter_remove1 length_remove1)
    show "0 < ref mc" using cm_invD(1) [OF inv mc] k by simp
  qed
  have "release target now (mgr s) = (mgr s)\<lparr>conns := gm_put target
      (mc\<lparr>ref := int (length (filter (\<lambda>h. fst h = target) (remove1 (target, c) (held s)))), lastUsed := now\<rparr>) (conns (mgr s))\<rparr>"
    using mc n by (simp add: release_def)
  moreover have "filter (\<lambda>h. fst h = t) (remove1 (target, c) (held s)) = filter (\<lambda>h. fst h = t) (held s)"
    if "t \<noteq> target" for t
    using that by (simp add: filter_remove1 remove1_idem)
  ultimately show ?thesis
    using cm_inv_touch [OF inv mc refl, of "remove1 (target, c) (held s)" now]
    by (auto dest: notin_set_remove1) (metis (no_types, lifting) case_prodI2 notin_set_remove1)
qed

lemma cm_inv_tick:
  assumes inv: "cm_inv s" and "mset (rng (conns (mgr s))) = mset (conns (mgr s))"
    and t: "janitor_tick rng now (mgr s) = (cl, ms, m)"
  shows "cm_inv (s\<lparr>mgr := m, closedc := closedc s \<union> set cl\<rparr>)"
proof -
  have wf: "gm_wf (conns (mgr s))" using inv by (simp add: cm_inv_def)
  note j = janitor_tick_eq [OF wf assms(2) t]
  let ?idle = "idle (now - ttl (mgr s))"
  have get: "gm_get (conns m) x = Some mc \<longleftrightarrow> gm_get (conns (mgr s)) x = Some mc \<and> \<not> ?idle mc" for x mc
    using j(2) [of x] by (auto split: option.splits if_splits)
  have cl: "c \<in> set cl \<longleftrightarrow> (\<exists>mc x. gm_get (conns (mgr s)) x = Some mc \<and> ?idle mc \<and> cc mc = c)" for c
    unfolding j(3) by auto
  have kept: "\<not> ?idle mc" if "(x, c) \<in> set (held s)" "gm_get (conns (mgr s)) x = Some mc" for x c mc
  proof -
    have "0 < holders s x" using that(1) by (intro length_pos_if_in_set [of "(x, c)"]) simp
    then show ?thesis using cm_invD(1) [OF inv that(2)] by (simp add: idle_def)
  qed
  let ?s = "s\<lparr>mgr := m, closedc := closedc s \<union> set cl\<rparr>"
  show ?thesis
  proof (rule cm_invI)
    show "gm_wf (conns (mgr ?s))" using j(1) by simp
    show "\<exists>mc. gm_get (conns (mgr ?s)) x = Some mc \<and> cc mc = c" if h: "(x, c) \<in> set (held ?s)" for x c
      using cm_inv_held [OF inv, of x c] kept [of x c] h by (auto simp: get)
    show "t = t'" if "gm_get (conns (mgr ?s)) t = Some x" "gm_get (conns (mgr ?s)) t' = Some y" "cc x = cc y"
      for t t' x y
      using that cm_inv_unique [OF inv] by (auto simp: get)
    have "cc mc \<notin> set cl" if "gm_get (conns m) x = Some mc" for x mc
      using that cm_inv_unique [OF inv] unfolding cl get by (metis option.inject)
    then show "ref x = int (holders ?s t) \<and> cc x \<in> dialed ?s \<and> cc x \<notin> closedc ?s"
      if "gm_get (conns (mgr ?s)) t = Some x" for t x
      using that cm_invD [OF inv, of t x] by (auto simp: get)
    have "set cl \<subseteq> dialed s" using cm_invD(2) [OF inv] by (auto simp: cl)
    then show "closedc ?s \<subseteq> dialed ?s" using cm_inv_dialed [OF inv] by auto
    have "cached s = cached ?s \<union> set cl" by (auto simp: cached_def cl get) metis+
    then show "dialed ?s = closedc ?s \<union> cached ?s" using cm_inv_dialed [OF inv] by auto
  qed
qed

lemma cm_step_inv: "cm_step s s' \<Longrightarrow> cm_inv s \<Longrightarrow> cm_inv s'"
proof (induction rule: cm_step.induct)
  case (reuse target now s c m)
  then show ?case by (auto simp: Get_cached_def cm_inv_acquire split: option.splits)
next
  case (dial c s target now out cl ms m)
  show ?case
  proof (cases "gm_get (conns (mgr s)) target")
    case None
    then show ?thesis using dial cm_inv_install by (auto simp: Get_dialed_def)
  next
    case (Some mc)
    have "cm_inv (s\<lparr>dialed := insert c (dialed s), closedc := insert c (closedc s)\<rparr>)"
      using dial by (intro cm_inv_discard)
    from cm_inv_acquire [OF this, of target mc now] Some dial show ?thesis
      by (cases s) (auto simp: Get_dialed_def)
  qed
next
  case (release target c s now)
  then show ?case by (intro cm_inv_release)
next
  case (tick rng s now cl ms m)
  then show ?case by (intro cm_inv_tick)
qed

lemma cm_reachable_inv: "cm_step\<^sup>*\<^sup>* (cm_init t) s \<Longrightarrow> cm_inv s"
  by (induction rule: rtranclp_induct) (auto intro: cm_init_inv cm_step_inv)

section \<open>Properties\<close>

text \<open>
  C12. No use after close, no leak: however acquisitions, racing dials, releases and the
  janitor interleave, a connection a caller holds is open and is the one cached for its
  target (so callers of one target share it), the reference count of a target is the number
  of its holders, and every connection ever dialed is either closed or still cached.
\<close>

theorem connmgr_safety:
  assumes "cm_step\<^sup>*\<^sup>* (cm_init t) s"
  shows "(\<forall>target c. (target, c) \<in> set (held s) \<longrightarrow> c \<notin> closedc s
      \<and> (\<exists>mc. gm_get (conns (mgr s)) target = Some mc \<and> cc mc = c \<and> ref mc = int (holders s target)))
    \<and> dialed s = closedc s \<union> cached s \<and> closedc s \<inter> cached s = {}"
proof -
  have inv: "cm_inv s" using assms by (rule cm_reachable_inv)
  have "closedc s \<inter> cached s = {}" using cm_invD(3) [OF inv] by (auto simp: cached_def)
  then show ?thesis using cm_inv_held [OF inv] cm_invD(1,3) [OF inv] cm_inv_dialed [OF inv] by metis
qed

definition cm_one :: cm_sys where
  "cm_one = \<lparr>mgr = \<lparr>conns = [(''a:1'', \<lparr>cc = 5, lastUsed = 0, ref = 2\<rparr>)], ttl = 30 * second, closing = False\<rparr>,
     held = [(''a:1'', 5), (''a:1'', 5)], dialed = {5, 6}, closedc = {6}\<rparr>"

text \<open>Two callers race for a target: the second finds the first's connection and closes its own.\<close>

lemma cm_one_reachable: "cm_step\<^sup>*\<^sup>* (cm_init 0) cm_one"
proof -
  let ?a = "\<lparr>mgr = \<lparr>conns = [(''a:1'', \<lparr>cc = 5, lastUsed = 0, ref = 1\<rparr>)], ttl = 30 * second, closing = False\<rparr>,
     held = [(''a:1'', 5)], dialed = {5}, closedc = {}\<rparr>"
  have "cm_step (cm_init 0) ?a"
    using cm_step.dial [of 5 "cm_init 0" "''a:1''" 0] by (simp add: Get_dialed_def cm_init_def NewConnManager_def)
  moreover have "cm_step ?a cm_one"
    using cm_step.dial [of 6 ?a "''a:1''" 0] by (simp add: Get_dialed_def cm_one_def insert_commute)
  ultimately show ?thesis by simp
qed

theorem connmgr_safety_witness:
  "(''a:1'', 5) \<in> set (held cm_one) \<and> 5 \<notin> closedc cm_one \<and> dialed cm_one = closedc cm_one \<union> cached cm_one"
proof -
  have "(''a:1'', 5) \<in> set (held cm_one)" by (simp add: cm_one_def)
  then show ?thesis using connmgr_safety [OF cm_one_reachable] by blast
qed

text \<open>
  The janitor evicts exactly the connections nobody holds that have not been used for the
  time to live: it closes those and no other, whatever order it ranges in, and leaves every
  other entry as it was.
\<close>

theorem connmgr_eviction:
  assumes "cm_step\<^sup>*\<^sup>* (cm_init t) s" and "mset (rng (conns (mgr s))) = mset (conns (mgr s))"
    and "janitor_tick rng now (mgr s) = (cl, ms, m)"
  shows "(\<forall>target mc. gm_get (conns (mgr s)) target = Some mc \<longrightarrow>
      (if holders s target = 0 \<and> lastUsed mc < now - ttl (mgr s)
       then gm_get (conns m) target = None \<and> cc mc \<in> set cl
       else gm_get (conns m) target = Some mc \<and> cc mc \<notin> set cl))
    \<and> (\<forall>target. gm_get (conns (mgr s)) target = None \<longrightarrow> gm_get (conns m) target = None)
    \<and> length ms = 2 * length cl"
proof -
  have inv: "cm_inv s" using assms(1) by (rule cm_reachable_inv)
  then have wf: "gm_wf (conns (mgr s))" by (simp add: cm_inv_def)
  note j = janitor_tick_eq [OF wf assms(2,3)]
  have idle: "idle (now - ttl (mgr s)) mc \<longleftrightarrow> holders s target = 0 \<and> lastUsed mc < now - ttl (mgr s)"
    if "gm_get (conns (mgr s)) target = Some mc" for target mc
    using cm_invD(1) [OF inv that] by (simp add: idle_def)
  have "cc mc \<in> set cl \<longleftrightarrow> idle (now - ttl (mgr s)) mc" if "gm_get (conns (mgr s)) target = Some mc" for target mc
    using that cm_inv_unique [OF inv] unfolding j(3) by (auto, metis option.inject)
  then show ?thesis using idle j(2,4) by (auto split: option.splits)
qed

theorem connmgr_eviction_witness:
  "gm_get (conns (snd (snd (janitor_tick rev (60 * second) (mgr cm_one))))) ''a:1''
     = Some \<lparr>cc = 5, lastUsed = 0, ref = 2\<rparr>"
proof -
  obtain cl ms m where t: "janitor_tick rev (60 * second) (mgr cm_one) = (cl, ms, m)" by (metis surj_pair)
  have g: "gm_get (conns (mgr cm_one)) ''a:1'' = Some \<lparr>cc = 5, lastUsed = 0, ref = 2\<rparr>" by (simp add: cm_one_def)
  have h: "holders cm_one ''a:1'' \<noteq> 0" by (simp add: cm_one_def)
  have "gm_get (conns m) ''a:1'' = Some \<lparr>cc = 5, lastUsed = 0, ref = 2\<rparr>"
    using connmgr_eviction [OF cm_one_reachable _ t] g h by (metis mset_rev)
  then show ?thesis unfolding t by simp
qed

section \<open>A behaviour of the code\<close>

text \<open>Closing the manager twice panics: the channel is closed without a guard.\<close>

lemma Close_twice_panics: "Close_all m = Some (cl, m') \<Longrightarrow> Close_all m' = None"
  by (auto simp: Close_all_def split: if_splits)

end
