(* ===== verification/GrpcMgmt.thy ===== *)
theory GrpcMgmt
  imports Transport ConnMgr
begin

text \<open>
  The management service over gRPC: the methods and handlers of \<open>pkg/transport/grpc/server.go\<close>
  and the client of \<open>client.go\<close>. The handlers given to \<open>Start\<close> are functions over a world
  \<open>'w\<close>. The gRPC library is a parameter: \<open>invoke\<close> carries a method name and the bytes of a
  request to a server and brings an error or the bytes of the reply back; dialing may fail.
  That it delivers to the handler registered for the method is a hypothesis (\<open>delivers\<close>).
\<close>

section \<open>The service\<close>

type_synonym ('w, 'q, 'r) rpc_method = "'q \<Rightarrow> 'w \<Rightarrow> (gerror + 'r) \<times> 'w"

record 'w mgmtImpl =
  f_status :: "'w \<Rightarrow> (gerror + bytes) \<times> 'w"
  f_join :: "('w, JoinRequest, JoinResponse) rpc_method"
  f_leave :: "('w, LeaveRequest, LeaveResponse) rpc_method option"
  f_appWrite :: "('w, AppWriteRequest, AppWriteResponse) rpc_method option"
  f_appSync :: "('w, AppSyncRequest, AppSyncResponse) rpc_method option"

definition mgmt_GetStatus :: "'w mgmtImpl \<Rightarrow> unit \<Rightarrow> 'w \<Rightarrow> (gerror + statusBlob) \<times> 'w" where
  "mgmt_GetStatus m inp w =
     (case f_status m w of (Inl err, w') \<Rightarrow> (Inl err, w') | (Inr b, w') \<Rightarrow> (Inr \<lparr>sb_Data = b\<rparr>, w'))"

definition mgmt_Join :: "'w mgmtImpl \<Rightarrow> JoinRequest \<Rightarrow> 'w \<Rightarrow> (gerror + JoinResponse) \<times> 'w" where
  "mgmt_Join m inp w =
     (case f_join m inp w of
        (Inl err, w') \<Rightarrow> (Inr \<lparr>jr_Accepted = False, jr_Leader = [], jr_Error = err\<rparr>, w')
      | (Inr out, w') \<Rightarrow> (Inr out, w'))"

definition mgmt_Leave :: "'w mgmtImpl \<Rightarrow> LeaveRequest \<Rightarrow> 'w \<Rightarrow> (gerror + LeaveResponse) \<times> 'w" where
  "mgmt_Leave m inp w =
     (case f_leave m of
        None \<Rightarrow> (Inr \<lparr>lr_Accepted = False, lr_Error = ''leave not supported''\<rparr>, w)
      | Some f \<Rightarrow> (case f inp w of
            (Inl err, w') \<Rightarrow> (Inr \<lparr>lr_Accepted = False, lr_Error = err\<rparr>, w')
          | (Inr out, w') \<Rightarrow> (Inr out, w')))"

definition mgmt_AppWrite :: "'w mgmtImpl \<Rightarrow> AppWriteRequest \<Rightarrow> 'w \<Rightarrow> (gerror + AppWriteResponse) \<times> 'w" where
  "mgmt_AppWrite m inp w =
     (case f_appWrite m of
        None \<Rightarrow> (Inr \<lparr>wr_Data = [], wr_Error = ''not implemented''\<rparr>, w)
      | Some f \<Rightarrow> (case f inp w of
            (Inl err, w') \<Rightarrow> (Inr \<lparr>wr_Data = [], wr_Error = err\<rparr>, w')
          | (Inr out, w') \<Rightarrow> (Inr out, w')))"

definition mgmt_AppSync :: "'w mgmtImpl \<Rightarrow> AppSyncRequest \<Rightarrow> 'w \<Rightarrow> (gerror + AppSyncResponse) \<times> 'w" where
  "mgmt_AppSync m inp w =
     (case f_appSync m of
        None \<Rightarrow> (Inr \<lparr>sr_Error = ''not implemented''\<rparr>, w)
      | Some f \<Rightarrow> (case f inp w of
            (Inl err, w') \<Rightarrow> (Inr \<lparr>sr_Error = err\<rparr>, w')
          | (Inr out, w') \<Rightarrow> (Inr out, w')))"

text \<open>
  The hand-written handlers decode the request into a zero value and call the method, through
  the interceptor if there is one; the library gives an interceptor the full method name and
  encodes the reply with the JSON codec. \<open>Start\<close> registers no interceptor.
\<close>

type_synonym ('w, 'q, 'r) interceptor = "string \<Rightarrow> ('w, 'q, 'r) rpc_method \<Rightarrow> ('w, 'q, 'r) rpc_method"

definition unary_handler ::
  "string \<Rightarrow> 'q field list \<Rightarrow> 'q \<Rightarrow> ('r \<Rightarrow> json) \<Rightarrow> ('w, 'q, 'r) interceptor option \<Rightarrow>
   ('w, 'q, 'r) rpc_method \<Rightarrow> bytes \<Rightarrow> 'w \<Rightarrow> (gerror + bytes) \<times> 'w" where
  "unary_handler info fs z enc intercept f body w =
     (case Unmarshal (dec_struct fs) body z of
        (_, Some err) \<Rightarrow> (Inl err, w)
      | (inp, None) \<Rightarrow>
          (case (case intercept of None \<Rightarrow> f inp w | Some i \<Rightarrow> i info f inp w) of
             (Inl err, w') \<Rightarrow> (Inl err, w')
           | (Inr r, w') \<Rightarrow> (Inr (Marshal (enc r)), w')))"

definition enc_empty :: "unit \<Rightarrow> json" where
  [wire_defs]: "enc_empty u = JObj []"

definition empty_fields :: "unit field list" where
  [wire_defs]: "empty_fields = []"

interpretation emptyMsg: wire_format enc_empty empty_fields "()" "\<lambda>u. True"
  by unfold_locales (auto simp: wire_defs)

definition Management_GetStatus_Handler ::
  "'w mgmtImpl \<Rightarrow> ('w, unit, statusBlob) interceptor option \<Rightarrow> bytes \<Rightarrow> 'w \<Rightarrow> (gerror + bytes) \<times> 'w" where
  "Management_GetStatus_Handler m i =
     unary_handler ''/cluster.v1.Management/GetStatus'' empty_fields () enc_statusBlob i (mgmt_GetStatus m)"

definition Management_Join_Handler ::
  "'w mgmtImpl \<Rightarrow> ('w, JoinRequest, JoinResponse) interceptor option \<Rightarrow> bytes \<Rightarrow> 'w \<Rightarrow> (gerror + bytes) \<times> 'w" where
  "Management_Join_Handler m i =
     unary_handler ''/cluster.v1.Management/Join'' JoinRequest_fields zero_JoinRequest enc_JoinResponse i (mgmt_Join m)"

definition Management_Leave_Handler ::
  "'w mgmtImpl \<Rightarrow> ('w, LeaveRequest, LeaveResponse) interceptor option \<Rightarrow> bytes \<Rightarrow> 'w \<Rightarrow> (gerror + bytes) \<times> 'w" where
  "Management_Leave_Handler m i =
     unary_handler ''/cluster.v1.Management/Leave'' LeaveRequest_fields zero_LeaveRequest enc_LeaveResponse i (mgmt_Leave m)"

definition Management_AppWrite_Handler ::
  "'w mgmtImpl \<Rightarrow> ('w, AppWriteRequest, AppWriteResponse) interceptor option \<Rightarrow> bytes \<Rightarrow> 'w \<Rightarrow> (gerror + bytes) \<times> 'w" where
  "Management_AppWrite_Handler m i =
     unary_handler ''/cluster.v1.Management/AppWrite'' AppWriteRequest_fields zero_AppWriteRequest enc_AppWriteResponse i (mgmt_AppWrite m)"

definition Management_AppSync_Handler ::
  "'w mgmtImpl \<Rightarrow> ('w, AppSyncRequest, AppSyncResponse) interceptor option \<Rightarrow> bytes \<Rightarrow> 'w \<Rightarrow> (gerror + bytes) \<times> 'w" where
  "Management_AppSync_Handler m i =
     unary_handler ''/cluster.v1.Management/AppSync'' AppSyncRequest_fields zero_AppSyncRequest enc_AppSyncResponse i (mgmt_AppSync m)"

text \<open>The service descriptor: full method names and their handlers.\<close>

definition Management_serviceDesc :: "'w mgmtImpl \<Rightarrow> (string \<times> (bytes \<Rightarrow> 'w \<Rightarrow> (gerror + bytes) \<times> 'w)) list" where
  "Management_serviceDesc m =
     [(''/cluster.v1.Management/GetStatus'', Management_GetStatus_Handler m None),
      (''/cluster.v1.Management/Join'', Management_Join_Handler m None),
      (''/cluster.v1.Management/Leave'', Management_Leave_Handler m None),
      (''/cluster.v1.Management/AppWrite'', Management_AppWrite_Handler m None),
      (''/cluster.v1.Management/AppSync'', Management_AppSync_Handler m None)]"

section \<open>The client\<close>

text \<open>
  The client's own state: the connection manager is made by the first call that needs it
  (\<open>getConn\<close>), with the client's dialer.
\<close>

record grpc_Client =
  gc_timeout :: duration
  gc_tls :: bool
  gc_cm :: "ConnManager option"

definition grpc_NewClient :: "duration \<Rightarrow> grpc_Client" where
  "grpc_NewClient t = \<lparr>gc_timeout = (if t \<le> 0 then 3 * second else t), gc_tls = False, gc_cm = None\<rparr>"

definition grpc_UseTLS :: "bool \<Rightarrow> grpc_Client \<Rightarrow> grpc_Client" where
  "grpc_UseTLS cfg c = c\<lparr>gc_tls := cfg\<rparr>"

definition grpc_getConn :: "string \<Rightarrow> time \<Rightarrow> grpc_Client \<Rightarrow> conn option \<times> grpc_Client" where
  "grpc_getConn addr now c =
     (let m = (case gc_cm c of Some m \<Rightarrow> m | None \<Rightarrow> NewConnManager (30 * second))
      in case Get_cached addr now m of
           None \<Rightarrow> (None, c\<lparr>gc_cm := Some m\<rparr>)
         | Some (x, m') \<Rightarrow> (Some x, c\<lparr>gc_cm := Some m'\<rparr>))"

text \<open>
  The network as the client uses it: dialing an address may fail, and \<open>Invoke\<close> exchanges
  bytes. \<open>getConn\<close> differs from \<open>dialCtx\<close> only in reusing a connection, so both are \<open>n_dial\<close>.
\<close>

record 'w net =
  n_dial :: "string \<Rightarrow> 'w \<Rightarrow> gerror option"
  n_invoke :: "string \<Rightarrow> string \<Rightarrow> bytes \<Rightarrow> 'w \<Rightarrow> (gerror + bytes) \<times> 'w"

definition Invoke ::
  "'w net \<Rightarrow> string \<Rightarrow> string \<Rightarrow> json \<Rightarrow> 'r field list \<Rightarrow> 'r \<Rightarrow> 'w \<Rightarrow> (gerror + 'r) \<times> 'w" where
  "Invoke n addr name req fs z w =
     (case n_dial n addr w of
        Some err \<Rightarrow> (Inl err, w)
      | None \<Rightarrow>
          (case n_invoke n addr name (Marshal req) w of
             (Inl err, w') \<Rightarrow> (Inl err, w')
           | (Inr reply, w') \<Rightarrow>
               (case Unmarshal (dec_struct fs) reply z of
                  (_, Some err) \<Rightarrow> (Inl err, w')
                | (r, None) \<Rightarrow> (Inr r, w'))))"

definition client_GetStatus :: "'w net \<Rightarrow> string \<Rightarrow> 'w \<Rightarrow> (gerror + bytes) \<times> 'w" where
  "client_GetStatus n addr w =
     (case Invoke n addr ''/cluster.v1.Management/GetStatus'' (enc_empty ()) statusBlob_fields zero_statusBlob w of
        (Inl err, w') \<Rightarrow> (Inl err, w') | (Inr b, w') \<Rightarrow> (Inr (sb_Data b), w'))"

definition client_PostJoin :: "'w net \<Rightarrow> string \<Rightarrow> JoinRequest \<Rightarrow> 'w \<Rightarrow> (gerror + JoinResponse) \<times> 'w" where
  "client_PostJoin n addr req w =
     Invoke n addr ''/cluster.v1.Management/Join'' (enc_JoinRequest req) JoinResponse_fields zero_JoinResponse w"

definition client_PostLeave :: "'w net \<Rightarrow> string \<Rightarrow> LeaveRequest \<Rightarrow> 'w \<Rightarrow> (gerror + LeaveResponse) \<times> 'w" where
  "client_PostLeave n addr req w =
     Invoke n addr ''/cluster.v1.Management/Leave'' (enc_LeaveRequest req) LeaveResponse_fields zero_LeaveResponse w"

text \<open>
  An error in the response becomes the error returned, through \<open>fmt.Errorf\<close> with the message
  as the format; \<open>errorf\<close> is that call.
\<close>

definition client_PostAppWrite ::
  "(string \<Rightarrow> gerror) \<Rightarrow> 'w net \<Rightarrow> string \<Rightarrow> AppWriteRequest \<Rightarrow> 'w \<Rightarrow> (gerror + AppWriteResponse) \<times> 'w" where
  "client_PostAppWrite errorf n addr req w =
     (case Invoke n addr ''/cluster.v1.Management/AppWrite'' (enc_AppWriteRequest req)
             AppWriteResponse_fields zero_AppWriteResponse w of
        (Inl err, w') \<Rightarrow> (Inl err, w')
      | (Inr r, w') \<Rightarrow> (if wr_Error r \<noteq> [] then Inl (errorf (wr_Error r)) else Inr r, w'))"

definition client_PostAppSync ::
  "(string \<Rightarrow> gerror) \<Rightarrow> 'w net \<Rightarrow> string \<Rightarrow> AppSyncRequest \<Rightarrow> 'w \<Rightarrow> (gerror + AppSyncResponse) \<times> 'w" where
  "client_PostAppSync errorf n addr req w =
     (case Invoke n addr ''/cluster.v1.Management/AppSync'' (enc_AppSyncRequest req)
             AppSyncResponse_fields zero_AppSyncResponse w of
        (Inl err, w') \<Rightarrow> (Inl err, w')
      | (Inr r, w') \<Rightarrow> (if sr_Error r \<noteq> [] then Inl (errorf (sr_Error r)) else Inr r, w'))"

section \<open>Calls end to end\<close>

text \<open>The gRPC library delivers: a dialed address serves \<open>m\<close>, and each method reaches its handler.\<close>

definition delivers :: "'w net \<Rightarrow> string \<Rightarrow> 'w mgmtImpl \<Rightarrow> bool" where
  "delivers n addr m \<longleftrightarrow> (\<forall>w. n_dial n addr w = None)
     \<and> (\<forall>name h body w. map_of (Management_serviceDesc m) name = Some h \<longrightarrow> n_invoke n addr name body w = h body w)"

context wire_format
begin

lemma handled:
  assumes "ok x"
  shows "unary_handler info fields zero enc_r None f (Marshal (enc x)) w =
    (case f x w of (Inl err, w') \<Rightarrow> (Inl err, w') | (Inr r, w') \<Rightarrow> (Inr (Marshal (enc_r r)), w'))"
  using assms by (simp add: unary_handler_def received)

lemma invoked:
  assumes "n_dial n addr w = None"
    and "n_invoke n addr name (Marshal req) w =
      (case res of (Inl err, w') \<Rightarrow> (Inl err, w') | (Inr r, w') \<Rightarrow> (Inr (Marshal (enc r)), w'))"
    and "case res of (Inl _, _) \<Rightarrow> True | (Inr r, _) \<Rightarrow> ok r"
  shows "Invoke n addr name req fields zero w = res"
  using assms by (auto simp: Invoke_def received split: prod.splits sum.splits)

end

lemma delivers_dial: "delivers n addr m \<Longrightarrow> n_dial n addr w = None"
  by (simp add: delivers_def)

lemma delivers_methods:
  assumes "delivers n addr m"
  shows "n_invoke n addr ''/cluster.v1.Management/GetStatus'' = Management_GetStatus_Handler m None"
    and "n_invoke n addr ''/cluster.v1.Management/Join'' = Management_Join_Handler m None"
    and "n_invoke n addr ''/cluster.v1.Management/Leave'' = Management_Leave_Handler m None"
    and "n_invoke n addr ''/cluster.v1.Management/AppWrite'' = Management_AppWrite_Handler m None"
    and "n_invoke n addr ''/cluster.v1.Management/AppSync'' = Management_AppSync_Handler m None"
  using assms by (auto simp: delivers_def Management_serviceDesc_def fun_eq_iff)

lemmas grpc_exchange =
  delivers_methods Management_GetStatus_Handler_def Management_Join_Handler_def Management_Leave_Handler_def
  Management_AppWrite_Handler_def Management_AppSync_Handler_def
  emptyMsg.handled joinReq.handled leaveReq.handled writeReq.handled syncReq.handled

text \<open>What an error of a membership handler becomes on its way to the caller.\<close>

definition valid_result :: "('r \<Rightarrow> string) \<Rightarrow> ('r \<Rightarrow> string) \<Rightarrow> (gerror + 'r) \<times> 'w \<Rightarrow> bool" where
  "valid_result s1 s2 res =
     (case res of (Inl err, _) \<Rightarrow> valid_utf8 err | (Inr r, _) \<Rightarrow> valid_utf8 (s1 r) \<and> valid_utf8 (s2 r))"

lemma valid_utf8_consts [simp]:
  "valid_utf8 []" "valid_utf8 ''leave not supported''" "valid_utf8 ''not implemented''"
  by (simp_all add: valid_utf8_all_ascii)

lemma join_call:
  assumes "delivers n addr m" and "valid_utf8 (jq_ID req)" and "valid_utf8 (jq_RaftAddr req)"
    and "valid_result jr_Leader jr_Error (f_join m req w)"
  shows "client_PostJoin n addr req w = mgmt_Join m req w"
  unfolding client_PostJoin_def
  by (rule joinResp.invoked)
    (use assms in \<open>auto simp: grpc_exchange delivers_dial mgmt_Join_def valid_result_def split: prod.splits sum.splits\<close>)

lemma leave_call:
  assumes "delivers n addr m" and "valid_utf8 (lq_ID req)"
    and "\<And>f. f_leave m = Some f \<Longrightarrow> valid_result lr_Error lr_Error (f req w)"
  shows "client_PostLeave n addr req w = mgmt_Leave m req w"
  unfolding client_PostLeave_def
  by (rule leaveResp.invoked)
    (use assms in \<open>auto simp: grpc_exchange delivers_dial mgmt_Leave_def valid_result_def
       split: option.splits prod.splits sum.splits\<close>)

lemma status_call:
  assumes "delivers n addr m"
  shows "client_GetStatus n addr w = f_status m w"
proof -
  have "Invoke n addr ''/cluster.v1.Management/GetStatus'' (enc_empty ()) statusBlob_fields zero_statusBlob w =
      mgmt_GetStatus m () w"
    by (rule blobMsg.invoked)
      (use assms in \<open>auto simp: grpc_exchange delivers_dial mgmt_GetStatus_def split: prod.splits sum.splits\<close>)
  then show ?thesis
    by (auto simp: client_GetStatus_def mgmt_GetStatus_def split: prod.splits sum.splits)
qed

text \<open>
  Membership calls end to end. If the library delivers requests for an address to the
  service there, and the strings involved are valid UTF-8, then \<open>GetStatus\<close> returns what the
  status function returned, error or bytes; \<open>PostJoin\<close> and \<open>PostLeave\<close> return the response of
  the join and leave function unchanged, and turn an error of the function into a refusal that
  carries its message, never into a transport error; a server without a leave function refuses.
\<close>

theorem grpc_membership_calls:
  assumes "delivers n addr m"
    and "valid_utf8 (jq_ID jq)" and "valid_utf8 (jq_RaftAddr jq)" and "valid_utf8 (lq_ID lq)"
    and "valid_result jr_Leader jr_Error (f_join m jq w)"
    and "\<And>f. f_leave m = Some f \<Longrightarrow> valid_result lr_Error lr_Error (f lq w)"
  shows "client_GetStatus n addr w = f_status m w
    \<and> client_PostJoin n addr jq w =
        (case f_join m jq w of
           (Inl err, w') \<Rightarrow> (Inr \<lparr>jr_Accepted = False, jr_Leader = [], jr_Error = err\<rparr>, w')
         | res \<Rightarrow> res)
    \<and> client_PostLeave n addr lq w =
        (case f_leave m of
           None \<Rightarrow> (Inr \<lparr>lr_Accepted = False, lr_Error = ''leave not supported''\<rparr>, w)
         | Some f \<Rightarrow> (case f lq w of
              (Inl err, w') \<Rightarrow> (Inr \<lparr>lr_Accepted = False, lr_Error = err\<rparr>, w')
            | res \<Rightarrow> res))"
  using assms
  by (simp add: status_call join_call leave_call)
    (simp add: mgmt_Join_def mgmt_Leave_def split: prod.splits sum.splits option.splits)

text \<open>A service over a list of joined identifiers, and a network that reaches it.\<close>

definition demo_mgmt :: "string list mgmtImpl" where
  "demo_mgmt = \<lparr>f_status = (\<lambda>w. (Inr (concat w), w)),
     f_join = (\<lambda>q w. if jq_ID q = [] then (Inl ''not leader'', w)
        else (Inr \<lparr>jr_Accepted = True, jr_Leader = ''n1'', jr_Error = []\<rparr>, jq_ID q # w)),
     f_leave = None,
     f_appWrite = Some (\<lambda>q w. if wq_Op q = ''bad'' then (Inl ''no handler'', w)
        else (Inr \<lparr>wr_Data = wq_Data q, wr_Error = []\<rparr>, w)),
     f_appSync = None\<rparr>"

definition demo_net :: "string list net" where
  "demo_net = \<lparr>n_dial = (\<lambda>_ _. None),
     n_invoke = (\<lambda>_ name body w. case map_of (Management_serviceDesc demo_mgmt) name of
        None \<Rightarrow> (Inl ''unimplemented'', w) | Some h \<Rightarrow> h body w)\<rparr>"

lemma demo_delivers: "delivers demo_net addr demo_mgmt"
  by (simp add: delivers_def demo_net_def)

theorem grpc_membership_calls_witness:
  "client_PostJoin demo_net ''a'' \<lparr>jq_ID = ''n2'', jq_RaftAddr = ''h:1''\<rparr> [] =
     (Inr \<lparr>jr_Accepted = True, jr_Leader = ''n1'', jr_Error = []\<rparr>, [''n2''])"
proof -
  have "valid_utf8 ''n2''" "valid_utf8 ''h:1''" "valid_utf8 ''n1''" by (simp_all add: valid_utf8_all_ascii)
  then show ?thesis
    using grpc_membership_calls [OF demo_delivers,
        of "\<lparr>jq_ID = ''n2'', jq_RaftAddr = ''h:1''\<rparr>" "\<lparr>lq_ID = []\<rparr>" "[]" "''a''"]
    by (simp add: demo_mgmt_def valid_result_def)
qed

lemma write_call:
  assumes "delivers n addr m" and "valid_utf8 (wq_Op req)"
    and "\<And>f. f_appWrite m = Some f \<Longrightarrow> valid_result wr_Error wr_Error (f req w)"
  shows "Invoke n addr ''/cluster.v1.Management/AppWrite'' (enc_AppWriteRequest req)
    AppWriteResponse_fields zero_AppWriteResponse w = mgmt_AppWrite m req w"
  by (rule writeResp.invoked)
    (use assms in \<open>auto simp: grpc_exchange delivers_dial mgmt_AppWrite_def valid_result_def
       split: option.splits prod.splits sum.splits\<close>)

lemma sync_call:
  assumes "delivers n addr m" and "valid_utf8 (sq_Topic req)"
    and "\<And>f. f_appSync m = Some f \<Longrightarrow> valid_result sr_Error sr_Error (f req w)"
  shows "Invoke n addr ''/cluster.v1.Management/AppSync'' (enc_AppSyncRequest req)
    AppSyncResponse_fields zero_AppSyncResponse w = mgmt_AppSync m req w"
  by (rule syncResp.invoked)
    (use assms in \<open>auto simp: grpc_exchange delivers_dial mgmt_AppSync_def valid_result_def
       split: option.splits prod.splits sum.splits\<close>)

text \<open>
  Application calls end to end. Under the same conditions \<open>PostAppWrite\<close> returns the
  response of the write function when that reports no error; an error of the function, an
  \<open>Error\<close> in its response and a missing function all come back as an error of the call, with the
  message when it holds no \<open>%\<close> (the client passes it to \<open>fmt.Errorf\<close> as a format, and of that
  only what it does to a format without verbs is assumed). An error with an empty message is
  reported as success. The same holds of \<open>PostAppSync\<close>.
\<close>

theorem grpc_app_calls:
  assumes "delivers n addr m" and "valid_utf8 (wq_Op wq)" and "valid_utf8 (sq_Topic sq)"
    and "\<And>f. f_appWrite m = Some f \<Longrightarrow> valid_result wr_Error wr_Error (f wq w)"
    and "\<And>f. f_appSync m = Some f \<Longrightarrow> valid_result sr_Error sr_Error (f sq w)"
    and "\<And>msg. CHR ''%'' \<notin> set msg \<Longrightarrow> errorf msg = msg"
  shows "client_PostAppWrite errorf n addr wq w =
        (case f_appWrite m of
           None \<Rightarrow> (Inl ''not implemented'', w)
         | Some f \<Rightarrow> (case f wq w of
              (Inl err, w') \<Rightarrow> (if err = [] then Inr \<lparr>wr_Data = [], wr_Error = []\<rparr> else Inl (errorf err), w')
            | (Inr r, w') \<Rightarrow> (if wr_Error r = [] then Inr r else Inl (errorf (wr_Error r)), w')))
    \<and> client_PostAppSync errorf n addr sq w =
        (case f_appSync m of
           None \<Rightarrow> (Inl ''not implemented'', w)
         | Some f \<Rightarrow> (case f sq w of
              (Inl err, w') \<Rightarrow> (if err = [] then Inr \<lparr>sr_Error = []\<rparr> else Inl (errorf err), w')
            | (Inr r, w') \<Rightarrow> (if sr_Error r = [] then Inr r else Inl (errorf (sr_Error r)), w')))"
  using assms
  by (simp add: client_PostAppWrite_def client_PostAppSync_def write_call sync_call)
    (auto simp: mgmt_AppWrite_def mgmt_AppSync_def split: prod.splits sum.splits option.splits)

theorem grpc_app_calls_witness:
  "client_PostAppWrite (\<lambda>s. s) demo_net ''a'' \<lparr>wq_Op = ''bad'', wq_Data = [CHR 0xff]\<rparr> [] = (Inl ''no handler'', [])
   \<and> client_PostAppSync (\<lambda>s. s) demo_net ''a'' \<lparr>sq_Topic = ''t'', sq_Data = []\<rparr> [] = (Inl ''not implemented'', [])"
proof -
  have "valid_utf8 ''bad''" "valid_utf8 ''t''" "valid_utf8 ''no handler''" by (simp_all add: valid_utf8_all_ascii)
  then show ?thesis
    using grpc_app_calls [OF demo_delivers,
        of "\<lparr>wq_Op = ''bad'', wq_Data = [CHR 0xff]\<rparr>" "\<lparr>sq_Topic = ''t'', sq_Data = []\<rparr>" "[]" "\<lambda>s. s" "''a''"]
    by (simp add: demo_mgmt_def valid_result_def)
qed

end
