(* ===== verification/ReplStream.thy ===== *)
theory ReplStream
  imports Cluster GrpcMgmt
begin

text \<open>
  The follower's side of replication: the client's \<open>Subscribe\<close>
  (\<open>pkg/transport/grpc/replication_client.go\<close>), the handlers of the replication service
  (\<open>grpc/server.go\<close>), and \<open>replicationSubscribeLoop\<close> of \<open>pkg/cluster/cluster.go\<close>.
\<close>

section \<open>The service\<close>

text \<open>A stream: \<open>p\<close> is the subscription's pointer; it lasts while the events \<open>during\<close> happen.\<close>

definition Subscribe_open :: "pointer \<Rightarrow> repSubReq option \<Rightarrow> Server \<Rightarrow> metric_call list \<times> Server" where
  "Subscribe_open p req s = addSub p (case req of None \<Rightarrow> [] | Some q \<Rightarrow> rs_NodeID q) s"

definition Subscribe_stream ::
  "pointer \<Rightarrow> repSubReq option \<Rightarrow> (Server \<Rightarrow> Server) \<Rightarrow> Server \<Rightarrow> metric_call list \<times> Server" where
  "Subscribe_stream p req during s =
     (let (m1, s1) = Subscribe_open p req s;
          (m2, s2) = removeSub p (during s1)
      in (m1 @ m2, s2))"

definition Replication_Subscribe_Handler ::
  "pointer \<Rightarrow> gerror + bytes \<Rightarrow> (Server \<Rightarrow> Server) \<Rightarrow> Server \<Rightarrow> gerror option \<times> Server" where
  "Replication_Subscribe_Handler p frame during s =
     (case frame of
        Inl err \<Rightarrow> (Some err, s)
      | Inr b \<Rightarrow> (case Unmarshal (dec_struct repSubReq_fields) b zero_repSubReq of
            (_, Some err) \<Rightarrow> (Some err, s)
          | (m, None) \<Rightarrow> (None, snd (Subscribe_stream p (Some m) during s))))"

definition Replication_Ack_Handler ::
  "ranges \<Rightarrow> (Server, repAck, unit) interceptor option \<Rightarrow> bytes \<Rightarrow> Server \<Rightarrow> (gerror + bytes) \<times> Server" where
  "Replication_Ack_Handler r i =
     unary_handler ''/cluster.v1.Replication/Ack'' repAck_fields zero_repAck enc_empty i
       (\<lambda>a s. (Inr (), snd (server_Ack r (Some a) s)))"

section \<open>The client\<close>

text \<open>
  What the stream yields is a list of frames and the error that ends it. \<open>ack\<close> is the unary
  call that carries an acknowledgement; its outcome is ignored.
\<close>

fun recv_loop ::
  "string \<Rightarrow> (string \<Rightarrow> bytes \<Rightarrow> 'w \<Rightarrow> 'w) option \<Rightarrow> (bytes \<Rightarrow> 'w \<Rightarrow> 'w) \<Rightarrow> bytes list \<Rightarrow> gerror \<Rightarrow> 'w \<Rightarrow> gerror \<times> 'w" where
  "recv_loop nid onMsg ack [] e w = (e, w)"
| "recv_loop nid onMsg ack (b # bs) e w =
     (case Unmarshal (dec_struct repMsg_fields) b zero_repMsg of
        (_, Some err) \<Rightarrow> (err, w)
      | (m, None) \<Rightarrow>
          (let w1 = (case onMsg of None \<Rightarrow> w | Some f \<Rightarrow> f (rm_Topic m) (rm_Data m) w);
               w2 = ack (Marshal (enc_repAck \<lparr>ra_Topic = rm_Topic m, ra_Seq = rm_Seq m, ra_NodeID = nid\<rparr>)) w1
           in recv_loop nid onMsg ack bs e w2))"

record 'w stream_net =
  sn_Get :: "string \<Rightarrow> 'w \<Rightarrow> gerror option"
  sn_NewStream :: "string \<Rightarrow> 'w \<Rightarrow> gerror option"
  sn_SendMsg :: "string \<Rightarrow> bytes \<Rightarrow> 'w \<Rightarrow> gerror option \<times> 'w"
  sn_frames :: "bytes list"
  sn_end :: gerror
  sn_Ack :: "bytes \<Rightarrow> 'w \<Rightarrow> 'w"

definition client_Subscribe ::
  "'w stream_net \<Rightarrow> string \<Rightarrow> string \<Rightarrow> (string \<Rightarrow> bytes \<Rightarrow> 'w \<Rightarrow> 'w) option \<Rightarrow> 'w \<Rightarrow> gerror \<times> 'w" where
  "client_Subscribe n addr nid onMsg w =
     (case sn_Get n addr w of
        Some err \<Rightarrow> (err, w)
      | None \<Rightarrow>
          (case sn_NewStream n addr w of
             Some err \<Rightarrow> (err, w)
           | None \<Rightarrow>
               (case sn_SendMsg n addr (Marshal (enc_repSubReq \<lparr>rs_NodeID = nid\<rparr>)) w of
                  (Some err, w') \<Rightarrow> (err, w')
                | (None, w') \<Rightarrow> recv_loop nid onMsg (sn_Ack n) (sn_frames n) (sn_end n) w')))"

section \<open>The loop of the cluster\<close>

definition subscribe_target :: "Options \<Rightarrow> string prog" where
  "subscribe_target o1 =
     (case o_Consensus o1 of
        None \<Rightarrow> ret []
      | Some k \<Rightarrow> do {
          r \<leftarrow> call ConsLeader (c_Leader k);
          case r of
            None \<Rightarrow> ret []
          | Some (i, _) \<Rightarrow> if i \<noteq> o_NodeID o1 then lookupMemberAddr o1 i else ret []
        })"

text \<open>
  The loop, at most \<open>fuel\<close> rounds; \<open>ctx_done\<close> says from the history whether the context is
  cancelled, \<open>msgs\<close> what the subscription just opened delivers, and \<open>has_sub\<close> whether the RPC
  client has a \<open>Subscribe\<close> method (the gRPC client has, the HTTP client has not).
\<close>

fun sync_all :: "Options \<Rightarrow> (string \<times> bytes) list \<Rightarrow> unit prog" where
  "sync_all o1 [] = ret ()"
| "sync_all o1 ((topic, data) # ms) = do {
     (case o_AppHandlers o1 of None \<Rightarrow> ret () | Some h \<Rightarrow> act (AppHandleSync topic data));
     sync_all o1 ms
   }"

fun subscribe_rounds :: "nat \<Rightarrow> (trace \<Rightarrow> bool) \<Rightarrow> (trace \<Rightarrow> (string \<times> bytes) list) \<Rightarrow> Options \<Rightarrow> bool prog" where
  "subscribe_rounds 0 ctx_done msgs o1 = ret False"
| "subscribe_rounds (Suc fuel) ctx_done msgs o1 = do {
     d \<leftarrow> gets (\<lambda>s. ctx_done (hist s));
     if d then ret True
     else do {
       leaderMgmt \<leftarrow> subscribe_target o1;
       if leaderMgmt = [] then do {
         act (Sleep (second div 2));
         subscribe_rounds fuel ctx_done msgs o1
       } else do {
         ms \<leftarrow> call (ClientSubscribe leaderMgmt (o_NodeID o1)) msgs;
         sync_all o1 ms;
         d2 \<leftarrow> gets (\<lambda>s. ctx_done (hist s));
         if d2 then ret True
         else do {
           act (Sleep (second div 2));
           subscribe_rounds fuel ctx_done msgs o1
         }
       }
     }
   }"

definition replicationSubscribeLoop ::
  "bool \<Rightarrow> nat \<Rightarrow> (trace \<Rightarrow> bool) \<Rightarrow> (trace \<Rightarrow> (string \<times> bytes) list) \<Rightarrow> Options \<Rightarrow> bool prog" where
  "replicationSubscribeLoop has_sub fuel ctx_done msgs o1 =
     (if o_RPCClient o1 = None \<or> \<not> has_sub then ret True else subscribe_rounds fuel ctx_done msgs o1)"

section \<open>Delivery and acknowledgement\<close>

text \<open>What one received message does: the application gets it first, then the leader is told.\<close>

definition received_msg ::
  "string \<Rightarrow> (string \<Rightarrow> bytes \<Rightarrow> 'w \<Rightarrow> 'w) option \<Rightarrow> (bytes \<Rightarrow> 'w \<Rightarrow> 'w) \<Rightarrow> repMsg \<Rightarrow> 'w \<Rightarrow> 'w" where
  "received_msg nid onMsg ack m w =
     ack (Marshal (enc_repAck \<lparr>ra_Topic = rm_Topic m, ra_Seq = rm_Seq m, ra_NodeID = nid\<rparr>))
       (case onMsg of None \<Rightarrow> w | Some f \<Rightarrow> f (rm_Topic m) (rm_Data m) w)"

lemma recv_loop_frames:
  assumes "list_all (\<lambda>m. valid_utf8 (rm_Topic m)) ms"
  shows "recv_loop nid onMsg ack (map (\<lambda>m. Marshal (enc_repMsg m)) ms @ bs) e w =
    recv_loop nid onMsg ack bs e (fold (received_msg nid onMsg ack) ms w)"
  using assms by (induction ms arbitrary: w) (simp_all add: repMsg.received received_msg_def Let_def)

lemma Ack_Handler_run:
  assumes "valid_utf8 (ra_Topic a)" and "valid_utf8 (ra_NodeID a)"
  shows "Replication_Ack_Handler r None (Marshal (enc_repAck a)) s =
    (Inr (Marshal (enc_empty ())), snd (server_Ack r (Some a) s))"
  using assms by (simp add: Replication_Ack_Handler_def ackMsg.handled)

text \<open>
  A follower connected to a leader: the world is what the application was handed, and the
  leader's server. \<open>link\<close> says the library carries the subscription and the acknowledgements
  to the handlers of the leader.
\<close>

type_synonym follower = "(string \<times> bytes) list \<times> Server"

definition link :: "ranges \<Rightarrow> pointer \<Rightarrow> string \<Rightarrow> follower stream_net \<Rightarrow> bool" where
  "link r p addr n \<longleftrightarrow> (\<forall>w. sn_Get n addr w = None \<and> sn_NewStream n addr w = None)
     \<and> (\<forall>b w. sn_Ack n b w = apsnd (\<lambda>s. snd (Replication_Ack_Handler r None b s)) w)
     \<and> (\<forall>q w. valid_utf8 (rs_NodeID q) \<longrightarrow>
          sn_SendMsg n addr (Marshal (enc_repSubReq q)) w = (None, apsnd (\<lambda>s. snd (Subscribe_open p (Some q) s)) w))"

definition hand_over :: "string \<Rightarrow> bytes \<Rightarrow> follower \<Rightarrow> follower" where
  "hand_over topic data w = apfst (\<lambda>l. l @ [(topic, data)]) w"

lemma ack_of_Ack_any:
  "ack_of (snd (server_Ack r (Some a) s)) topic node =
    (if ra_Topic a \<noteq> [] \<and> ra_NodeID a \<noteq> [] \<and> topic = ra_Topic a \<and> node = ra_NodeID a
     then Some (ra_Seq a) else ack_of s topic node)"
  by (cases "ra_Topic a = [] \<or> ra_NodeID a = []") (auto simp: server_Ack_ignored ack_of_Ack)

lemma received_link:
  assumes "link r p addr n" and "valid_utf8 nid" and "valid_utf8 (rm_Topic m)"
  shows "received_msg nid (Some hand_over) (sn_Ack n) m w =
    (fst w @ [(rm_Topic m, rm_Data m)],
     snd (server_Ack r (Some \<lparr>ra_Topic = rm_Topic m, ra_Seq = rm_Seq m, ra_NodeID = nid\<rparr>) (snd w)))"
  using assms by (cases w) (simp add: link_def received_msg_def hand_over_def Ack_Handler_run)

lemma fold_received:
  assumes "link r p addr n" and "valid_utf8 nid" and "nid \<noteq> []"
    and "list_all (\<lambda>m. valid_utf8 (rm_Topic m) \<and> rm_Topic m \<noteq> []) ms"
  shows "let w' = fold (received_msg nid (Some hand_over) (sn_Ack n)) ms w in
    fst w' = fst w @ map (\<lambda>m. (rm_Topic m, rm_Data m)) ms
    \<and> (\<forall>topic node. ack_of (snd w') topic node =
        (if node = nid \<and> (\<exists>m \<in> set ms. rm_Topic m = topic)
         then Some (rm_Seq (last (filter (\<lambda>m. rm_Topic m = topic) ms))) else ack_of (snd w) topic node))"
  using assms(4)
proof (induction ms rule: rev_induct)
  case (snoc m ms)
  then show ?case
    using assms(3) received_link [OF assms(1,2), of m] by (auto simp: Let_def ack_of_Ack_any)
qed simp

lemma ack_of_open [simp]: "ack_of (snd (Subscribe_open p q s)) = ack_of s"
  by (auto simp: fun_eq_iff ack_of_def Subscribe_open_def addSub_def topic_acks_def split: option.splits)

section \<open>Properties\<close>

text \<open>
  C10. A follower acknowledges what its application was handed, and only that. For a stream that
  carries the messages \<open>ms\<close> and breaks at any point, \<open>Subscribe\<close> ends with the error that broke
  it; the application was handed exactly those messages, in the order they came; and at the
  leader the follower's acknowledgement of each topic among them is the number of the last
  message handed over, those of other topics and other nodes being as before.
\<close>

theorem subscriber_acks_delivered:
  assumes "link r p addr n" and "sn_frames n = map (\<lambda>m. Marshal (enc_repMsg m)) ms"
    and "valid_utf8 nid" and "nid \<noteq> []"
    and "list_all (\<lambda>m. valid_utf8 (rm_Topic m) \<and> rm_Topic m \<noteq> []) ms"
  shows "let (err, w') = client_Subscribe n addr nid (Some hand_over) w in
    err = sn_end n
    \<and> fst w' = fst w @ map (\<lambda>m. (rm_Topic m, rm_Data m)) ms
    \<and> (\<forall>topic node. ack_of (snd w') topic node =
        (if node = nid \<and> (\<exists>m \<in> set ms. rm_Topic m = topic)
         then Some (rm_Seq (last (filter (\<lambda>m. rm_Topic m = topic) ms))) else ack_of (snd w) topic node))"
proof -
  let ?w = "apsnd (\<lambda>s. snd (Subscribe_open p (Some \<lparr>rs_NodeID = nid\<rparr>) s)) w"
  have "list_all (\<lambda>m. valid_utf8 (rm_Topic m)) ms" using assms(5) by (auto simp: list_all_iff)
  then have "client_Subscribe n addr nid (Some hand_over) w =
      (sn_end n, fold (received_msg nid (Some hand_over) (sn_Ack n)) ms ?w)"
    using assms(1-3) recv_loop_frames [of ms nid "Some hand_over" "sn_Ack n" "[]"]
    by (cases w) (simp add: client_Subscribe_def link_def)
  then show ?thesis
    using fold_received [OF assms(1,3,4,5), of ?w] by (cases w) (auto simp: Let_def)
qed

definition leader_link :: "bytes list \<Rightarrow> follower stream_net" where
  "leader_link fs = \<lparr>sn_Get = (\<lambda>_ _. None), sn_NewStream = (\<lambda>_ _. None),
     sn_SendMsg = (\<lambda>_ b w. case Unmarshal (dec_struct repSubReq_fields) b zero_repSubReq of
        (_, Some err) \<Rightarrow> (Some err, w)
      | (q, None) \<Rightarrow> (None, apsnd (\<lambda>s. snd (Subscribe_open 1 (Some q) s)) w)),
     sn_frames = fs, sn_end = ''EOF'',
     sn_Ack = (\<lambda>b w. apsnd (\<lambda>s. snd (Replication_Ack_Handler ranges_id None b s)) w)\<rparr>"

lemma leader_link_ok: "link ranges_id 1 addr (leader_link fs)"
  by (simp add: link_def leader_link_def subReq.received)

theorem subscriber_acks_delivered_witness:
  "let ms = [\<lparr>rm_Topic = ''t'', rm_Data = ''a'', rm_Seq = 1\<rparr>, \<lparr>rm_Topic = ''t'', rm_Data = ''b'', rm_Seq = 2\<rparr>];
       w' = snd (client_Subscribe (leader_link (map (\<lambda>m. Marshal (enc_repMsg m)) ms)) ''l:1'' ''n2'' (Some hand_over)
              ([], snd (server_Start None (NewServer ''b''))))
   in fst w' = [(''t'', ''a''), (''t'', ''b'')] \<and> ack_of (snd w') ''t'' ''n2'' = Some 2"
proof -
  have v: "valid_utf8 ''t''" "valid_utf8 ''n2''" by (simp_all add: valid_utf8_all_ascii)
  have f: "sn_frames (leader_link fs) = fs" for fs by (simp add: leader_link_def)
  show ?thesis
    using subscriber_acks_delivered [where nid = "''n2''" and addr = "''l:1''"
        and ms = "[\<lparr>rm_Topic = ''t'', rm_Data = ''a'', rm_Seq = 1\<rparr>, \<lparr>rm_Topic = ''t'', rm_Data = ''b'', rm_Seq = 2\<rparr>]"
        and w = "([], snd (server_Start None (NewServer ''b'')))", OF leader_link_ok f] v
    by (auto simp: Let_def split: prod.splits)
qed

section \<open>Whom the loop subscribes to\<close>

text \<open>Every call a program adds to the history satisfies \<open>P\<close>, given the history before it.\<close>

definition calls_ok :: "(trace \<Rightarrow> call \<Rightarrow> bool) \<Rightarrow> 'a prog \<Rightarrow> Cluster \<Rightarrow> bool" where
  "calls_ok P m s \<longleftrightarrow> (\<exists>h. hist (snd (run_state m s)) = hist s @ h \<and> (\<forall>i < length h. P (hist s @ take i h) (h ! i)))"

lemma calls_ok_ret [intro!]: "calls_ok P (ret x) s" "calls_ok P (gets f) s"
  by (auto simp: calls_ok_def)

lemma calls_ok_call [intro!]: "P (hist s) c \<Longrightarrow> calls_ok P (call c f) s"
  by (auto simp: calls_ok_def)

lemma calls_ok_act [intro!]: "P (hist s) c \<Longrightarrow> calls_ok P (act c) s"
  by (auto simp: calls_ok_def)

lemma calls_ok_bind:
  assumes "calls_ok P m s" and "calls_ok P (f (fst (run_state m s))) (snd (run_state m s))"
  shows "calls_ok P (m \<bind> f) s"
proof -
  obtain h where h: "hist (snd (run_state m s)) = hist s @ h" "\<forall>i < length h. P (hist s @ take i h) (h ! i)"
    using assms(1) by (auto simp: calls_ok_def)
  obtain g where g: "hist (snd (run_state (f (fst (run_state m s))) (snd (run_state m s)))) = (hist s @ h) @ g"
    "\<forall>i < length g. P ((hist s @ h) @ take i g) (g ! i)"
    using assms(2) h(1) by (auto simp: calls_ok_def)
  have "P (hist s @ take i (h @ g)) ((h @ g) ! i)" if "i < length (h @ g)" for i
    using that h(2) g(2) by (cases "i < length h") (auto simp: nth_append not_less)
  then show ?thesis
    using g(1) by (auto simp: calls_ok_def run_state_bind split: prod.splits intro!: exI [of _ "h @ g"])
qed

text \<open>
  The leader's address at the end of a history: the last two calls asked for the leader and for
  the members, the leader is another node, and \<open>a\<close> is its management address.
\<close>

definition at_leader :: "Options \<Rightarrow> trace \<Rightarrow> string \<Rightarrow> bool" where
  "at_leader o1 h a \<longleftrightarrow> (\<exists>k m p i x mi.
     o_Consensus o1 = Some k \<and> o_Membership o1 = Some m \<and> h = p @ [ConsLeader, MemMembers]
     \<and> c_Leader k (p @ [ConsLeader]) = Some (i, x) \<and> i \<noteq> o_NodeID o1
     \<and> find (\<lambda>y. ID y = i) (m_Members m h) = Some mi \<and> mgmt_addr mi = a \<and> a \<noteq> [])"

definition subscription_ok :: "Options \<Rightarrow> trace \<Rightarrow> call \<Rightarrow> bool" where
  "subscription_ok o1 h c \<longleftrightarrow> (\<forall>a nid. c = ClientSubscribe a nid \<longrightarrow> nid = o_NodeID o1 \<and> at_leader o1 h a)"

lemma subscription_ok_simps [simp]:
  "subscription_ok o1 h ConsLeader" "subscription_ok o1 h MemMembers"
  "subscription_ok o1 h (Sleep d)" "subscription_ok o1 h (AppHandleSync t b)"
  "subscription_ok o1 h (ClientSubscribe a nid) \<longleftrightarrow> nid = o_NodeID o1 \<and> at_leader o1 h a"
  by (auto simp: subscription_ok_def)

lemma subscribe_target_calls: "calls_ok (subscription_ok o1) (subscribe_target o1) s"
  by (auto simp: subscribe_target_def lookupMemberAddr_def split: option.splits prod.splits intro!: calls_ok_bind)

lemma subscribe_target_leader:
  assumes "fst (run_state (subscribe_target o1) s) \<noteq> []"
  shows "at_leader o1 (hist (snd (run_state (subscribe_target o1) s))) (fst (run_state (subscribe_target o1) s))"
  using assms
  by (auto simp: subscribe_target_def lookupMemberAddr_def at_leader_def split: option.splits prod.splits if_splits)

lemma sync_all_calls: "calls_ok (subscription_ok o1) (sync_all o1 ms) s"
  by (induction o1 ms arbitrary: s rule: sync_all.induct)
    (auto split: option.splits intro!: calls_ok_bind)

lemma subscribe_rounds_calls: "calls_ok (subscription_ok o1) (subscribe_rounds fuel ctx_done msgs o1) s"
proof (induction fuel arbitrary: s)
  case (Suc fuel)
  then show ?case
    using subscribe_target_leader [of o1 s]
    by (auto intro!: calls_ok_bind subscribe_target_calls sync_all_calls)
qed auto

lemma calls_ok_length: "calls_ok P m s \<Longrightarrow> length (hist s) \<le> length (hist (snd (run_state m s)))"
  by (auto simp: calls_ok_def)

lemma subscribe_rounds_end:
  assumes "\<forall>h. N \<le> length h \<longrightarrow> ctx_done h" and "N - length (hist s) < fuel"
  shows "fst (run_state (subscribe_rounds fuel ctx_done msgs o1) s)"
  using assms(2)
proof (induction fuel arbitrary: s)
  case (Suc fuel)
  let ?s1 = "snd (run_state (subscribe_target o1) s)"
  let ?c = "ClientSubscribe (fst (run_state (subscribe_target o1) s)) (o_NodeID o1)"
  let ?s2 = "?s1\<lparr>hist := hist ?s1 @ [?c]\<rparr>"
  let ?s3 = "snd (run_state (sync_all o1 (msgs (hist ?s1 @ [?c]))) ?s2)"
  have l: "length (hist s) \<le> length (hist ?s1)" "length (hist ?s2) \<le> length (hist ?s3)"
    by (rule calls_ok_length [OF subscribe_target_calls], rule calls_ok_length [OF sync_all_calls])
  have "fst (run_state (subscribe_rounds fuel ctx_done msgs o1) (s'\<lparr>hist := hist s' @ [Sleep (second div 2)]\<rparr>))"
    if "\<not> ctx_done (hist s)" "length (hist s) \<le> length (hist s')" for s'
    using that assms(1) Suc.prems by (intro Suc.IH) (auto simp: not_le [symmetric])
  with l show ?case
    by (auto simp: run_state_bind split: prod.splits)
qed simp

text \<open>
  C28. The subscription loop of a node: every subscription it opens is under the node's own
  identifier and goes to the management address of the member that the consensus engine named
  as leader just before, which is another node; and once the context is cancelled (at the
  latest after \<open>N\<close> calls) the loop returns. With an RPC client that cannot subscribe it does
  nothing.
\<close>

theorem subscribe_loop_spec:
  assumes "\<forall>h. N \<le> length h \<longrightarrow> ctx_done h" and "N - length (hist s) < fuel"
  shows "let (returned, s') = run_state (replicationSubscribeLoop has_sub fuel ctx_done msgs o1) s in
    returned
    \<and> (\<exists>h. hist s' = hist s @ h
        \<and> (\<forall>i < length h. \<forall>a nid. h ! i = ClientSubscribe a nid \<longrightarrow>
              nid = o_NodeID o1 \<and> at_leader o1 (hist s @ take i h) a))
    \<and> (\<not> has_sub \<longrightarrow> s' = s)"
  using subscribe_rounds_end [OF assms, of msgs o1] subscribe_rounds_calls [of o1 fuel ctx_done msgs s]
  by (auto simp: replicationSubscribeLoop_def calls_ok_def subscription_ok_def split: prod.splits)

theorem subscribe_loop_spec_witness:
  "run_state (replicationSubscribeLoop True 3 (\<lambda>h. 2 \<le> length h) (\<lambda>_. []) (opts_follower status1)) cluster1 =
     (True, cluster1\<lparr>hist := [ConsLeader, MemMembers, ClientSubscribe ''a:2'' ''n2'']\<rparr>)
   \<and> at_leader (opts_follower status1) [ConsLeader, MemMembers] ''a:2''"
proof -
  let ?p = "replicationSubscribeLoop True 3 (\<lambda>h. 2 \<le> length h) (\<lambda>_. []) (opts_follower status1)"
  have r: "run_state ?p cluster1 = (True, cluster1\<lparr>hist := [ConsLeader, MemMembers, ClientSubscribe ''a:2'' ''n2'']\<rparr>)"
    by (simp add: replicationSubscribeLoop_def numeral_3_eq_3 subscribe_target_def lookupMemberAddr_def opts_follower_def
        opts1_def leader1_def members1_def client1_def cluster1_def mgmt_addr_def gm_val_def)
  moreover have "at_leader (opts_follower status1) [ConsLeader, MemMembers] ''a:2''"
    using subscribe_loop_spec [of 2 "\<lambda>h. 2 \<le> length h" cluster1 3 True "\<lambda>_. []" "opts_follower status1"] r
    by (auto simp: cluster1_def less_Suc_eq numeral_3_eq_3)
  ultimately show ?thesis by blast
qed

section \<open>What an acknowledgement does not say\<close>

text \<open>
  A follower that subscribes after message 1 went out, and receives only message 2, acknowledges
  2. The leader takes this for both messages: the next tick drops message 1, which the
  application of the follower was never handed.
\<close>

definition late_follower :: follower where
  "late_follower = snd (client_Subscribe
     (leader_link [Marshal (enc_repMsg \<lparr>rm_Topic = ''t'', rm_Data = ''b'', rm_Seq = 2\<rparr>)])
     ''l:1'' ''n2'' (Some hand_over) ([], snd (server_Start None (NewServer ''b''))))"

lemma late_follower_eq:
  "fst late_follower = [(''t'', ''b'')]" "acks (snd late_follower) = [(''t'', [(''n2'', 2)])]"
proof -
  have v: "valid_utf8 ''t''" "valid_utf8 ''n2''" by (simp_all add: valid_utf8_all_ascii)
  then show "fst late_follower = [(''t'', ''b'')]" "acks (snd late_follower) = [(''t'', [(''n2'', 2)])]"
    by (simp_all add: late_follower_def client_Subscribe_def leader_link_def subReq.received repMsg.received Let_def
        Ack_Handler_run hand_over_def Subscribe_open_def addSub_def server_Start_def NewServer_def server_Ack_def
        ranges_id_def topic_acks_def)
qed

lemma late_subscriber_misses:
  "fst late_follower = [(''t'', ''b'')]
   \<and> map_option (\<lambda>n. rbuf (nrep n)) (retry_tick (grpc_ops ranges_id (\<lambda>_. True)) cfg1 (\<lambda>x. x)
       \<lparr>nrep = \<lparr>rseq = [(''t'', 2)], rbuf = [(''t'', [(1, ''a''), (2, ''b'')])]\<rparr>, disk = fs0, server = snd late_follower\<rparr>)
     = Some [(''t'', [])]"
  by (simp add: late_follower_eq retry_tick_def retry_topic_def topic_buf_def cfg1_def grpc_ops_def AckedAll_def
      ranges_id_def minAck_def topic_acks_def gm_val_def Let_def)
    (subst resend.simps, simp)

end
