(* ===== verification/Delivery.thy ===== *)
theory Delivery
  imports ReplStream
begin

text \<open>
  Replication end to end: the leader of \<open>pkg/cluster/cluster.go\<close> with its gRPC server
  (\<open>pkg/transport/grpc/server.go\<close>), the streams to its followers, the followers' receive
  loops (\<open>grpc/replication_client.go\<close>) and the acknowledgements on their way back, as one
  transition system whose steps are the operations of the component theories.

  The server state of the leader is extended by what \<open>SendMsg\<close> wrote to every stream;
  forgetting it gives back the leader of \<open>Replication\<close> (\<open>publish_now_erase\<close>,
  \<open>retry_tick_erase\<close>), so every run of the system is a run of \<open>leader_step\<close>.
\<close>

section \<open>Servers that simulate another\<close>

text \<open>
  Two ways of reaching a server such that \<open>h\<close> maps the states of one to those of the other
  and every operation commutes with it: the leader's operations commute as well.
\<close>

definition map_server :: "('s \<Rightarrow> 't) \<Rightarrow> 's node \<Rightarrow> 't node" where
  "map_server h n = \<lparr>nrep = nrep n, disk = disk n, server = h (server n)\<rparr>"

lemma map_server_simps [simp]:
  "nrep (map_server h n) = nrep n" "disk (map_server h n) = disk n" "server (map_server h n) = h (server n)"
  by (simp_all add: map_server_def)

locale server_simulation =
  fixes acked :: "'s \<Rightarrow> (string, uint64) gomap"
    and bcast :: "string \<Rightarrow> bytes \<Rightarrow> uint64 \<Rightarrow> 's \<Rightarrow> nat \<times> 's"
    and acked' :: "'t \<Rightarrow> (string, uint64) gomap"
    and bcast' :: "string \<Rightarrow> bytes \<Rightarrow> uint64 \<Rightarrow> 't \<Rightarrow> nat \<times> 't"
    and h :: "'s \<Rightarrow> 't"
  assumes acked_sim: "acked' (h s) = acked s"
    and bcast_sim: "bcast' topic data seq (h s) = apsnd h (bcast topic data seq s)"
begin

abbreviation ops :: "'s server_ops" where
  "ops \<equiv> \<lparr>AckedAll_op = Some acked, Broadcast_op = Some bcast\<rparr>"

abbreviation ops' :: "'t server_ops" where
  "ops' \<equiv> \<lparr>AckedAll_op = Some acked', Broadcast_op = Some bcast'\<rparr>"

lemma publish_now_sim:
  "publish_now ops' c topic data (map_server h n) = apsnd (map_server h) (publish_now ops c topic data n)"
  by (simp add: publish_now_def Let_def bcast_sim map_server_def split: prod.splits)

lemma window_open_sim: "window_open ops' w topic (map_server h n) = window_open ops w topic n"
  by (simp add: window_open_def read_minAck_def acked_sim)

lemma fold_bcast_sim:
  "fold (\<lambda>(q, d) s. snd (bcast' topic d q s)) ms (h s) = h (fold (\<lambda>(q, d) s. snd (bcast topic d q s)) ms s)"
  by (induction ms arbitrary: s) (auto simp: bcast_sim)

lemma retry_topic_sim:
  assumes "rep_inv (nrep n)" and "gm_val (rseq (nrep n)) topic \<noteq> - 1"
  shows "retry_topic ops' dir a topic (map_server h n) = map_option (map_server h) (retry_topic ops dir a topic n)"
proof -
  have wf: "gm_wf (filter (\<lambda>(s, _). \<not> s \<le> gm_val a topic) (topic_buf (nrep n) topic))"
    using topic_buf_wf [OF assms(1)] by (rule gm_wf_filter)
  show ?thesis
    by (simp add: retry_topic_def Let_def resend_eq [OF wf assms(2)] fold_bcast_sim map_server_def)
qed

lemma retry_topics_sim:
  assumes "rep_inv (nrep n)" and "\<forall>t. gm_val (rseq (nrep n)) t \<noteq> - 1"
  shows "retry_topics ops' dir a ts (map_server h n) = map_option (map_server h) (retry_topics ops dir a ts n)"
  using assms
proof (induction ts arbitrary: n)
  case (Cons t ts)
  have t: "gm_val (rseq (nrep n)) t \<noteq> - 1" using Cons.prems(2) by blast
  from retry_topic_effect [OF Cons.prems(1) t, of ops dir a]
  obtain m where "retry_topic ops dir a t n = Some m" "rep_inv (nrep m)" "rseq (nrep m) = rseq (nrep n)"
    by blast
  then show ?case
    using Cons.IH [of m] Cons.prems(2) by (simp add: retry_topic_sim [OF Cons.prems(1) t])
qed simp

lemma retry_tick_sim:
  assumes "rep_inv (nrep n)" and "\<forall>t. gm_val (rseq (nrep n)) t \<noteq> - 1"
  shows "retry_tick ops' c rng (map_server h n) = map_option (map_server h) (retry_tick ops c rng n)"
  by (simp add: retry_tick_def acked_sim retry_topics_sim [OF assms])

end

section \<open>The server with its streams\<close>

record net_server =
  nsv :: Server
  sent :: "(pointer \<times> repMsg) list"

definition net_bcast ::
  "ranges \<Rightarrow> (pointer \<Rightarrow> bool) \<Rightarrow> string \<Rightarrow> bytes \<Rightarrow> uint64 \<Rightarrow> net_server \<Rightarrow> nat \<times> net_server" where
  "net_bcast r send topic data seq s =
     (let (res, s') = BroadcastWithSeq r send topic data seq (nsv s)
      in (b_cnt res, \<lparr>nsv = s', sent = sent s @ b_sent res\<rparr>))"

definition net_ops :: "ranges \<Rightarrow> (pointer \<Rightarrow> bool) \<Rightarrow> net_server server_ops" where
  "net_ops r send =
     \<lparr>AckedAll_op = Some (\<lambda>s. AckedAll r (nsv s)), Broadcast_op = Some (net_bcast r send)\<rparr>"

interpretation net_sim: server_simulation "\<lambda>s. AckedAll r (nsv s)" "net_bcast r send" "AckedAll r"
  "\<lambda>topic data seq s. (b_cnt (fst (BroadcastWithSeq r send topic data seq s)),
     snd (BroadcastWithSeq r send topic data seq s))" nsv for r send
  by unfold_locales (simp_all add: net_bcast_def split: prod.splits)

abbreviation erase :: "net_server node \<Rightarrow> Server node" where
  "erase \<equiv> map_server nsv"

lemma publish_now_erase:
  "publish_now (grpc_ops r send) c topic data (erase n) = apsnd erase (publish_now (net_ops r send) c topic data n)"
  unfolding grpc_ops_def net_ops_def by (rule net_sim.publish_now_sim)

lemma window_open_erase:
  "window_open (grpc_ops r send) w topic (erase n) = window_open (net_ops r send) w topic n"
  unfolding grpc_ops_def net_ops_def by (rule net_sim.window_open_sim)

lemma retry_tick_erase:
  assumes "rep_inv (nrep n)" and "seq_bound (nrep n)"
  shows "retry_tick (grpc_ops r send) c rng (erase n) = map_option erase (retry_tick (net_ops r send) c rng n)"
  unfolding grpc_ops_def net_ops_def
  by (rule net_sim.retry_tick_sim) (use assms seq_bound_ne in auto)


section \<open>What a broadcast writes to a stream\<close>

definition stream :: "net_server \<Rightarrow> pointer \<Rightarrow> repMsg list" where
  "stream s p = map snd (filter (\<lambda>(q, _). q = p) (sent s))"

text \<open>The subscriber behind the pointer is known to the server.\<close>

definition attached :: "pointer \<Rightarrow> net_server \<Rightarrow> bool" where
  "attached p s \<longleftrightarrow> server_inv (nsv s) \<and> (\<exists>m nid. subs (nsv s) = Some m \<and> gm_get m p = Some nid)"

lemma filter_sent:
  assumes "distinct ps"
  shows "map snd (filter (\<lambda>(q, _). q = p) (map (\<lambda>q. (q, msg)) ps)) = (if p \<in> set ps then [msg] else [])"
  using assms by (induction ps) auto

lemma net_bcast_stream:
  assumes "ranges_ok r" and "attached p s" and "send p"
  shows "stream (snd (net_bcast r send topic data seq s)) p =
      stream s p @ [\<lparr>rm_Topic = topic, rm_Data = data, rm_Seq = seq\<rparr>]"
    and "attached p (snd (net_bcast r send topic data seq s))"
proof -
  let ?B = "BroadcastWithSeq r send topic data seq (nsv s)"
  obtain m nid where m: "subs (nsv s) = Some m" "gm_get m p = Some nid" "gm_wf m"
    using assms(2) by (auto simp: attached_def server_inv_def)
  from BroadcastWithSeq_eq [OF assms(1) m(1,3), of send topic data seq]
  obtain m' ps where b: "subs (snd ?B) = Some m'" "\<forall>q. gm_get m' q = (if send q then gm_get m q else None)"
    "mset ps = mset (filter send (map fst m))"
    "b_sent (fst ?B) = map (\<lambda>q. (q, \<lparr>rm_Topic = topic, rm_Data = data, rm_Seq = seq\<rparr>)) ps"
    by auto
  have "p \<in> set (filter send (map fst m))" using m(2) assms(3) by (force dest: gm_get_in)
  then have "p \<in> set ps" by (metis b(3) mset_eq_setD)
  moreover have "distinct ps"
    using gm_wf_distinct [OF m(3)] by (metis b(3) distinct_filter mset_eq_imp_distinct_iff)
  ultimately show "stream (snd (net_bcast r send topic data seq s)) p =
      stream s p @ [\<lparr>rm_Topic = topic, rm_Data = data, rm_Seq = seq\<rparr>]"
    using b(4) filter_sent [of ps p] by (cases ?B) (simp add: net_bcast_def stream_def)
  have "server_inv (snd ?B)" using assms(1,2) by (simp add: attached_def BroadcastWithSeq_inv)
  then show "attached p (snd (net_bcast r send topic data seq s))"
    using b(1,2) m(2) assms(3) by (auto simp: attached_def net_bcast_def split: prod.splits)
qed

text \<open>Whatever the pointers, the topics on the streams are text.\<close>

definition net_ok :: "net_server \<Rightarrow> bool" where
  "net_ok s \<longleftrightarrow> server_inv (nsv s) \<and> (\<forall>(p, m) \<in> set (sent s). valid_utf8 (rm_Topic m))"

lemma net_bcast_ok:
  assumes "ranges_ok r" and "net_ok s" and "valid_utf8 topic"
  shows "net_ok (snd (net_bcast r send topic data seq s))"
proof -
  let ?B = "BroadcastWithSeq r send topic data seq (nsv s)"
  have inv: "server_inv (nsv s)" "server_inv (snd ?B)"
    using assms(1,2) by (simp_all add: net_ok_def BroadcastWithSeq_inv)
  have "valid_utf8 (rm_Topic m)" if "(p, m) \<in> set (b_sent (fst ?B))" for p m
  proof (cases "subs (nsv s)")
    case None
    then show ?thesis using that by (simp add: BroadcastWithSeq_def)
  next
    case (Some m)
    moreover have "gm_wf m" using Some inv(1) by (simp add: server_inv_def)
    ultimately show ?thesis
      using BroadcastWithSeq_eq [OF assms(1), of "nsv s" m send topic data seq] assms(3) that by auto
  qed
  then show ?thesis using assms(2) inv(2) by (cases ?B) (auto simp: net_ok_def net_bcast_def)
qed

lemma net_bcast_nsv [simp]:
  "nsv (snd (net_bcast r send topic data seq s)) = snd (BroadcastWithSeq r send topic data seq (nsv s))"
  by (simp add: net_bcast_def split: prod.splits)

lemma server_publish_net:
  "server (snd (publish_now (net_ops r send) c topic data n)) =
     snd (net_bcast r send topic data (gm_val (rseq (nrep n)) topic + 1) (server n))"
  by (simp add: publish_now_def net_ops_def Let_def split: prod.splits)

section \<open>First occurrences\<close>

definition firsts :: "'a list \<Rightarrow> 'a list" where
  "firsts xs = rev (remdups (rev xs))"

lemma firsts_Nil [simp]: "firsts [] = []"
  by (simp add: firsts_def)

lemma set_firsts [simp]: "set (firsts xs) = set xs"
  by (simp add: firsts_def)

lemma firsts_snoc: "firsts (xs @ [x]) = (if x \<in> set xs then firsts xs else firsts xs @ [x])"
  by (simp add: firsts_def)

lemma firsts_append_old: "set ys \<subseteq> set xs \<Longrightarrow> firsts (xs @ ys) = firsts xs"
  by (induction ys rule: rev_induct) (auto simp: firsts_snoc simp flip: append_assoc)

lemma firsts_prefix: "prefix (firsts xs) (firsts (xs @ ys))"
proof (induction ys rule: rev_induct)
  case (snoc y ys)
  then show ?case using firsts_snoc [of "xs @ ys" y] by auto
qed simp

text \<open>The messages of a topic in a stream, and the publications of a topic under their numbers.\<close>

definition nums :: "string \<Rightarrow> repMsg list \<Rightarrow> (uint64 \<times> bytes) list" where
  "nums t ms = map (\<lambda>m. (rm_Seq m, rm_Data m)) (filter (\<lambda>m. rm_Topic m = t) ms)"

definition numbered :: "bytes list \<Rightarrow> (uint64 \<times> bytes) list" where
  "numbered ds = map (\<lambda>i. (of_nat (Suc i), ds ! i)) [0..<length ds]"

lemma nums_append [simp]: "nums t (xs @ ys) = nums t xs @ nums t ys"
  by (simp add: nums_def)

lemma nums_simps [simp]:
  "nums t [] = []" "nums t (m # ms) = (if rm_Topic m = t then [(rm_Seq m, rm_Data m)] else []) @ nums t ms"
  by (simp_all add: nums_def)

lemma length_numbered [simp]: "length (numbered ds) = length ds"
  by (simp add: numbered_def)

lemma numbered_snoc: "numbered (ds @ [d]) = numbered ds @ [(of_nat (Suc (length ds)), d)]"
  by (simp add: numbered_def nth_append)

lemma prefix_numbered:
  assumes "prefix xs (numbered ds)"
  shows "xs = numbered (take (length xs) ds)"
proof -
  have l: "length xs \<le> length ds" using prefix_length_le [OF assms] by simp
  have "xs = take (length xs) (numbered ds)" using assms by (metis append_eq_conv_conj prefix_def)
  also have "\<dots> = numbered (take (length xs) ds)"
    using l by (simp add: numbered_def take_map min_def)
  finally show ?thesis .
qed

text \<open>Numbers that do not wrap: the number tells the position.\<close>

lemma numbered_iff:
  assumes "length ds < 2 ^ 64"
  shows "(s, d) \<in> set (numbered ds) \<longleftrightarrow> 0 < unat s \<and> unat s \<le> length ds \<and> d = ds ! (unat s - 1)"
proof
  assume "(s, d) \<in> set (numbered ds)"
  then obtain i where i: "i < length ds" "s = of_nat (Suc i)" "d = ds ! i" by (auto simp: numbered_def)
  then have "unat s = Suc i" using assms by (simp only: unat_of_nat) simp
  then show "0 < unat s \<and> unat s \<le> length ds \<and> d = ds ! (unat s - 1)" using i by simp
next
  assume a: "0 < unat s \<and> unat s \<le> length ds \<and> d = ds ! (unat s - 1)"
  then have "s = of_nat (Suc (unat s - 1))" by simp
  with a show "(s, d) \<in> set (numbered ds)"
    by (auto simp: numbered_def intro!: image_eqI [of _ _ "unat s - 1"])
qed

section \<open>The system\<close>

text \<open>
  \<open>plog\<close> lists what \<open>Publish\<close> accepted. Of each stream the follower has received the first
  \<open>taken\<close> messages. \<open>handed\<close> is what the application of a node was handed, and \<open>pend\<close> the
  acknowledgements on their way. \<open>own p\<close> is the node that opened the stream \<open>p\<close>.
\<close>

record dsys =
  ldr :: "net_server node"
  plog :: "(string \<times> bytes) list"
  taken :: "pointer \<Rightarrow> nat"
  handed :: "string \<Rightarrow> (string \<times> bytes) list"
  pend :: "bytes list"

abbreviation net :: "dsys \<Rightarrow> net_server" where
  "net x \<equiv> server (ldr x)"

definition published_on :: "dsys \<Rightarrow> string \<Rightarrow> bytes list" where
  "published_on x t = map snd (filter (\<lambda>(t', _). t' = t) (plog x))"

text \<open>One turn of the receive loop: the application gets the message, an acknowledgement leaves.\<close>

definition follower_recv :: "(pointer \<Rightarrow> string) \<Rightarrow> pointer \<Rightarrow> dsys \<Rightarrow> dsys" where
  "follower_recv own p x =
     (let frame = Marshal (enc_repMsg (stream (net x) p ! taken x p));
          (_, l, a) = recv_loop (own p) (Some (\<lambda>topic data. apfst (\<lambda>l. l @ [(topic, data)])))
             (\<lambda>b. apsnd (\<lambda>a. a @ [b])) [frame] [] (handed x (own p), pend x)
      in x\<lparr>taken := (taken x)(p := Suc (taken x p)), handed := (handed x)(own p := l), pend := a\<rparr>)"

definition on_server :: "(Server \<Rightarrow> Server) \<Rightarrow> dsys \<Rightarrow> dsys" where
  "on_server f x = x\<lparr>ldr := (ldr x)\<lparr>server := (net x)\<lparr>nsv := f (nsv (net x))\<rparr>\<rparr>\<rparr>"

definition drop_nth :: "nat \<Rightarrow> 'a list \<Rightarrow> 'a list" where
  "drop_nth i xs = take i xs @ drop (Suc i) xs"

definition ack_arrives :: "ranges \<Rightarrow> nat \<Rightarrow> dsys \<Rightarrow> dsys" where
  "ack_arrives r i x =
     (on_server (\<lambda>s. snd (Replication_Ack_Handler r None (pend x ! i) s)) x)\<lparr>pend := drop_nth i (pend x)\<rparr>"

text \<open>
  The steps. The streams in \<open>F\<close> are faithful: open from the beginning, never broken, no send
  to them fails. Every other stream may be opened late, break with messages in flight, or
  fail at any send. Acknowledgements overtake each other and get lost.
\<close>

inductive dstep :: "(pointer \<Rightarrow> string) \<Rightarrow> pointer set \<Rightarrow> pub_cfg \<Rightarrow> dsys \<Rightarrow> dsys \<Rightarrow> bool" for own F c where
  publish: "ranges_ok r \<Longrightarrow> seq_bound (nrep (ldr x)) \<Longrightarrow> valid_utf8 topic \<Longrightarrow> \<forall>p \<in> F. send p \<Longrightarrow>
    window_open (net_ops r send) (window_of c) topic (ldr x) \<Longrightarrow>
    dstep own F c x (x\<lparr>ldr := snd (publish_now (net_ops r send) c topic data (ldr x)),
      plog := plog x @ [(topic, data)]\<rparr>)"
| tick: "ranges_ok r \<Longrightarrow> seq_bound (nrep (ldr x)) \<Longrightarrow> \<forall>p \<in> F. send p \<Longrightarrow>
    retry_tick (net_ops r send) c rng (ldr x) = Some n \<Longrightarrow> dstep own F c x (x\<lparr>ldr := n\<rparr>)"
| recv: "taken x p < length (stream (net x) p) \<Longrightarrow> valid_utf8 (own p) \<Longrightarrow> p \<in> F \<or> own p \<notin> own ` F \<Longrightarrow>
    dstep own F c x (follower_recv own p x)"
| ack: "ranges_ok r \<Longrightarrow> i < length (pend x) \<Longrightarrow> dstep own F c x (ack_arrives r i x)"
| ack_lost: "i < length (pend x) \<Longrightarrow> dstep own F c x (x\<lparr>pend := drop_nth i (pend x)\<rparr>)"
| open_stream: "p \<notin> F \<Longrightarrow>
    dstep own F c x (on_server (\<lambda>s. snd (Subscribe_open p (Some \<lparr>rs_NodeID = own p\<rparr>) s)) x)"
| close_stream: "p \<notin> F \<Longrightarrow> dstep own F c x (on_server (\<lambda>s. snd (removeSub p s)) x)"

inductive_cases dstepE: "dstep own F c x y"

definition dinit :: "fs \<Rightarrow> Server \<Rightarrow> dsys" where
  "dinit f sv = \<lparr>ldr = node0 f \<lparr>nsv = sv, sent = []\<rparr>, plog = [], taken = (\<lambda>_. 0), handed = (\<lambda>_. []), pend = []\<rparr>"

text \<open>A server on which the streams of \<open>F\<close> have been opened and nothing has been acknowledged.\<close>

definition serves :: "(pointer \<Rightarrow> string) \<Rightarrow> pointer set \<Rightarrow> Server \<Rightarrow> bool" where
  "serves own F sv \<longleftrightarrow> server_reachable sv \<and> acks sv = []
     \<and> (\<exists>m. subs sv = Some m \<and> (\<forall>p \<in> F. gm_get m p = Some (own p)))"

section \<open>The invariant\<close>

definition leader_ok :: "dsys \<Rightarrow> bool" where
  "leader_ok x \<longleftrightarrow> leader_inv (erase (ldr x)) \<and> (\<forall>(t, _) \<in> set (plog x). valid_utf8 t)
     \<and> (\<forall>t. unat (gm_val (rseq (nrep (ldr x))) t) = length (published_on x t))
     \<and> (\<forall>t s d. msg_at (nrep (ldr x)) t s = Some d \<longrightarrow> (s, d) \<in> set (numbered (published_on x t)))"

definition streams_ok :: "pointer set \<Rightarrow> dsys \<Rightarrow> bool" where
  "streams_ok F x \<longleftrightarrow> net_ok (net x)
     \<and> (\<forall>p \<in> F. attached p (net x) \<and> (\<forall>t. firsts (nums t (stream (net x) p)) = numbered (published_on x t)))"

definition received :: "dsys \<Rightarrow> pointer \<Rightarrow> repMsg list" where
  "received x p = take (taken x p) (stream (net x) p)"

definition acknowledges :: "dsys \<Rightarrow> pointer \<Rightarrow> string \<Rightarrow> uint64 \<Rightarrow> bool" where
  "acknowledges x p t v \<longleftrightarrow> (\<exists>m \<in> set (received x p). rm_Topic m = t \<and> rm_Seq m = v)"

definition followers_ok :: "(pointer \<Rightarrow> string) \<Rightarrow> pointer set \<Rightarrow> dsys \<Rightarrow> bool" where
  "followers_ok own F x \<longleftrightarrow>
     (\<forall>p \<in> F. taken x p \<le> length (stream (net x) p)
        \<and> handed x (own p) = map (\<lambda>m. (rm_Topic m, rm_Data m)) (received x p)
        \<and> (\<forall>t v. ack_of (nsv (net x)) t (own p) = Some v \<longrightarrow> acknowledges x p t v))
     \<and> (\<forall>b \<in> set (pend x). \<exists>a. b = Marshal (enc_repAck a) \<and> valid_utf8 (ra_Topic a) \<and> valid_utf8 (ra_NodeID a)
        \<and> (\<forall>p \<in> F. ra_NodeID a = own p \<longrightarrow> acknowledges x p (ra_Topic a) (ra_Seq a)))"

definition dinv :: "(pointer \<Rightarrow> string) \<Rightarrow> pointer set \<Rightarrow> dsys \<Rightarrow> bool" where
  "dinv own F x \<longleftrightarrow> leader_ok x \<and> streams_ok F x \<and> followers_ok own F x"

lemma dinit_inv: "serves own F sv \<Longrightarrow> dinv own F (dinit f sv)"
  using node0_inv [of sv f]
  by (auto simp: dinv_def leader_ok_def streams_ok_def followers_ok_def dinit_def serves_def attached_def
      map_server_def node0_def msg_at_def topic_buf_def published_on_def stream_def nums_def numbered_def
      received_def ack_of_def topic_acks_def net_ok_def intro: server_reachable_inv)

subsection \<open>Publishing\<close>

lemma published_on_publish [simp]:
  "published_on (x\<lparr>ldr := n, plog := plog x @ [(topic, data)]\<rparr>) t =
     published_on x t @ (if t = topic then [data] else [])"
  by (simp add: published_on_def)

text \<open>The next number is the number of publications plus one, and it is not in use.\<close>

lemma next_number:
  assumes "leader_ok x" and "seq_bound (nrep (ldr x))"
  shows "gm_val (rseq (nrep (ldr x))) t + 1 = of_nat (Suc (length (published_on x t)))"
    and "unat (gm_val (rseq (nrep (ldr x))) t + 1) = Suc (length (published_on x t))"
    and "length (published_on x t) < 2 ^ 64"
proof -
  let ?q = "gm_val (rseq (nrep (ldr x))) t"
  have q: "unat ?q = length (published_on x t)" using assms(1) by (simp add: leader_ok_def)
  then show "?q + 1 = of_nat (Suc (length (published_on x t)))"
    by (metis add.commute of_nat_Suc of_nat_unat ucast_id)
  show "unat (?q + 1) = Suc (length (published_on x t))"
    using seq_bound_ne [OF assms(2), of t] q by (metis add.commute max_word_wrap unatSuc)
  show "length (published_on x t) < 2 ^ 64" using q unsigned_less [of ?q, where ?'a = nat] by simp
qed

lemma publish_leader_ok:
  assumes "leader_ok x" and "ranges_ok r" and "seq_bound (nrep (ldr x))" and "valid_utf8 topic"
  shows "leader_ok (x\<lparr>ldr := snd (publish_now (net_ops r send) c topic data (ldr x)),
      plog := plog x @ [(topic, data)]\<rparr>)" (is "leader_ok ?y")
proof -
  have "erase (ldr ?y) = snd (publish_now (grpc_ops r send) c topic data (erase (ldr x)))"
    by (simp add: publish_now_erase)
  then have "leader_inv (erase (ldr ?y))"
    using publish_leader_inv [of "erase (ldr x)"] assms(1-3) by (simp add: leader_ok_def)
  then show ?thesis
    using assms(1,4) next_number [OF assms(1,3)]
    by (auto simp: leader_ok_def publish_now_effect numbered_snoc)
qed

lemma publish_streams_ok:
  assumes "leader_ok x" and "streams_ok F x" and "ranges_ok r" and "seq_bound (nrep (ldr x))" and "valid_utf8 topic"
    and "\<forall>p \<in> F. send p"
  shows "streams_ok F (x\<lparr>ldr := snd (publish_now (net_ops r send) c topic data (ldr x)),
      plog := plog x @ [(topic, data)]\<rparr>)"
proof -
  let ?q = "gm_val (rseq (nrep (ldr x))) topic + 1"
  have fresh: "(?q, d) \<notin> set (numbered (published_on x topic))" for d
    using next_number [OF assms(1,4), of topic] by (simp add: numbered_iff)
  have "firsts (nums t (stream (net x) p @ [\<lparr>rm_Topic = topic, rm_Data = data, rm_Seq = ?q\<rparr>])) =
      numbered (published_on x t @ (if t = topic then [data] else []))" if "p \<in> F" for p t
  proof -
    have f: "firsts (nums t (stream (net x) p)) = numbered (published_on x t)"
      using assms(2) that by (simp add: streams_ok_def)
    then have "(?q, data) \<notin> set (nums t (stream (net x) p))" if "t = topic"
      using fresh that by (metis set_firsts)
    then show ?thesis
      using f next_number(1) [OF assms(1,4), of topic] by (auto simp: firsts_snoc numbered_snoc add.commute)
  qed
  moreover have "attached p (net x) \<and> send p" if "p \<in> F" for p
    using assms(2,6) that by (simp add: streams_ok_def)
  ultimately show ?thesis
    using net_bcast_stream [OF assms(3)] net_bcast_ok [OF assms(3)] assms(2,5)
    by (simp add: streams_ok_def server_publish_net)
qed


text \<open>Streams only grow, so what was received stays as it is.\<close>

lemma followers_ok_grow:
  assumes "followers_ok own F x" and "taken y = taken x" "handed y = handed x" "pend y = pend x"
    and "acks (nsv (net y)) = acks (nsv (net x))"
    and "\<forall>p \<in> F. prefix (stream (net x) p) (stream (net y) p)"
  shows "followers_ok own F y"
proof -
  have "taken x p \<le> length (stream (net y) p) \<and> received y p = received x p" if p: "p \<in> F" for p
  proof -
    obtain ms where "stream (net y) p = stream (net x) p @ ms" using assms(6) p by (auto elim: prefixE)
    moreover have "taken x p \<le> length (stream (net x) p)" using assms(1) p by (simp add: followers_ok_def)
    ultimately show ?thesis using assms(2) by (simp add: received_def)
  qed
  moreover have "ack_of (nsv (net y)) = ack_of (nsv (net x))"
    using assms(5) by (simp add: ack_of_def topic_acks_def fun_eq_iff)
  ultimately show ?thesis
    using assms(1-4) by (auto simp: followers_ok_def acknowledges_def)
qed

lemma publish_dinv:
  assumes "dinv own F x" and "ranges_ok r" and "seq_bound (nrep (ldr x))" and "valid_utf8 topic" and "\<forall>p \<in> F. send p"
  shows "dinv own F (x\<lparr>ldr := snd (publish_now (net_ops r send) c topic data (ldr x)),
      plog := plog x @ [(topic, data)]\<rparr>)" (is "dinv own F ?y")
proof -
  have x: "followers_ok own F x" "\<forall>p \<in> F. attached p (net x)"
    using assms(1) by (simp_all add: dinv_def streams_ok_def)
  have "\<forall>p \<in> F. prefix (stream (net x) p) (stream (net ?y) p)"
    using net_bcast_stream(1) [OF assms(2)] x(2) assms(5) by (simp add: server_publish_net)
  then have "followers_ok own F ?y"
    by (rule followers_ok_grow [OF x(1), rotated -1]) (simp_all add: server_publish_net)
  moreover have "leader_ok ?y" using assms(1) by (intro publish_leader_ok assms(2-4)) (simp add: dinv_def)
  moreover have "streams_ok F ?y" using assms(1) by (intro publish_streams_ok assms(2-5)) (simp_all add: dinv_def)
  ultimately show ?thesis unfolding dinv_def by blast
qed

subsection \<open>Retrying\<close>

text \<open>What a tick does to the server: it sends messages that are buffered, and nothing else.\<close>

lemma retry_tick_net:
  assumes "retry_tick (net_ops r send) c rng n = Some n'" and "rep_inv (nrep n)" and "seq_bound (nrep n)"
    and "P (server n)" and "\<forall>t q d. msg_at (nrep n) t q = Some d \<longrightarrow> Q t d q"
    and "\<And>t d q s. Q t d q \<Longrightarrow> P s \<Longrightarrow> P (snd (net_bcast r send t d q s))"
  shows "P (server n')"
proof (cases "is_leader c")
  case True
  have b: "\<forall>t \<in> set (rng (map fst (rbuf (nrep n)))). gm_val (rseq (nrep n)) t \<noteq> - 1"
    using assms(3) seq_bound_ne by blast
  show ?thesis
    by (rule retry_topics_server_inv [where P = P and Q = Q and ops = "net_ops r send", OF assms(2) b assms(4,5)])
      (use assms(1,6) True in \<open>auto simp: retry_tick_def net_ops_def\<close>)
qed (use assms in \<open>simp add: retry_tick_def\<close>)

lemma tick_leader_ok:
  assumes "leader_ok x" and "ranges_ok r" and "seq_bound (nrep (ldr x))"
    and "retry_tick (net_ops r send) c rng (ldr x) = Some n"
  shows "leader_ok (x\<lparr>ldr := n\<rparr>)"
proof -
  have inv: "leader_inv (erase (ldr x))" "rep_inv (nrep (ldr x))"
    using assms(1) by (simp_all add: leader_ok_def leader_inv_def)
  have "retry_tick (grpc_ops r send) c rng (erase (ldr x)) = Some (erase n)"
    using retry_tick_erase [OF inv(2) assms(3)] assms(4) by simp
  from retry_tick_effect [OF inv(1) assms(2) _ this] assms(3)
  have e: "leader_inv (erase n)" "rseq (nrep n) = rseq (nrep (ldr x))"
    "\<And>t s. msg_at (nrep n) t s = msg_at (nrep (ldr x)) t s \<or> msg_at (nrep n) t s = None"
    by (simp, simp, metis map_server_simps(1))
  have "published_on (x\<lparr>ldr := n\<rparr>) t = published_on x t" for t by (simp add: published_on_def)
  moreover have "msg_at (nrep (ldr x)) t s = Some d" if "msg_at (nrep n) t s = Some d" for t s d
    using e(3) [of t s] that by simp
  ultimately show ?thesis using assms(1) e(1,2) by (simp add: leader_ok_def)
qed

lemma tick_streams:
  assumes "leader_ok x" and "streams_ok F x" and "ranges_ok r" and "seq_bound (nrep (ldr x))" and "\<forall>p \<in> F. send p"
    and "retry_tick (net_ops r send) c rng (ldr x) = Some n"
  shows "net_ok (server n)" and "acks (nsv (server n)) = acks (nsv (net x))"
    and "p \<in> F \<Longrightarrow> attached p (server n) \<and> (\<exists>ms. stream (server n) p = stream (net x) p @ ms
      \<and> (\<forall>t. set (nums t ms) \<subseteq> set (numbered (published_on x t))))"
proof -
  let ?Q = "\<lambda>t d q. valid_utf8 t \<and> (q, d) \<in> set (numbered (published_on x t))"
  have inv: "rep_inv (nrep (ldr x))" using assms(1) by (simp add: leader_ok_def leader_inv_def)
  have "valid_utf8 t" if "published_on x t \<noteq> []" for t
    using that assms(1) by (auto simp: leader_ok_def published_on_def filter_empty_conv)
  moreover have "(q, d) \<in> set (numbered (published_on x t))" if "msg_at (nrep (ldr x)) t q = Some d" for t q d
    using assms(1) that by (simp add: leader_ok_def)
  ultimately have Q: "\<forall>t q d. msg_at (nrep (ldr x)) t q = Some d \<longrightarrow> ?Q t d q"
    by (metis empty_iff length_0_conv length_numbered list.set(1))
  note tick = retry_tick_net [OF assms(6) inv assms(4) _ Q]
  show "net_ok (server n)"
    by (rule tick [where P = net_ok]) (use assms(2) net_bcast_ok [OF assms(3)] in \<open>auto simp: streams_ok_def\<close>)
  show "acks (nsv (server n)) = acks (nsv (net x))"
    by (rule tick [where P = "\<lambda>s. acks (nsv s) = acks (nsv (net x))"]) simp_all
  assume p: "p \<in> F"
  show "attached p (server n) \<and> (\<exists>ms. stream (server n) p = stream (net x) p @ ms
      \<and> (\<forall>t. set (nums t ms) \<subseteq> set (numbered (published_on x t))))"
  proof (rule tick)
    show "attached p (net x) \<and> (\<exists>ms. stream (net x) p = stream (net x) p @ ms
        \<and> (\<forall>t. set (nums t ms) \<subseteq> set (numbered (published_on x t))))"
      using assms(2) p by (simp add: streams_ok_def)
  next
    fix t d q s
    assume *: "?Q t d q" "attached p s \<and> (\<exists>ms. stream s p = stream (net x) p @ ms
        \<and> (\<forall>t. set (nums t ms) \<subseteq> set (numbered (published_on x t))))"
    then obtain ms where "stream s p = stream (net x) p @ ms"
      "\<forall>t. set (nums t ms) \<subseteq> set (numbered (published_on x t))" by blast
    with * assms(5) p net_bcast_stream [OF assms(3), of p s send t d q]
    show "attached p (snd (net_bcast r send t d q s)) \<and>
        (\<exists>ms. stream (snd (net_bcast r send t d q s)) p = stream (net x) p @ ms
          \<and> (\<forall>t. set (nums t ms) \<subseteq> set (numbered (published_on x t))))"
      by (auto intro!: exI [of _ "ms @ [\<lparr>rm_Topic = t, rm_Data = d, rm_Seq = q\<rparr>]"])
  qed
qed

lemma tick_dinv:
  assumes "dinv own F x" and "ranges_ok r" and "seq_bound (nrep (ldr x))" and "\<forall>p \<in> F. send p"
    and "retry_tick (net_ops r send) c rng (ldr x) = Some n"
  shows "dinv own F (x\<lparr>ldr := n\<rparr>)"
proof -
  have x: "leader_ok x" "streams_ok F x" "followers_ok own F x" using assms(1) by (simp_all add: dinv_def)
  note t = tick_streams [OF x(1,2) assms(2-5)]
  have pub: "published_on (x\<lparr>ldr := n\<rparr>) t = published_on x t" for t by (simp add: published_on_def)
  have "firsts (nums t (stream (server n) p)) = numbered (published_on x t)" if p: "p \<in> F" for p t
  proof -
    obtain ms where ms: "stream (server n) p = stream (net x) p @ ms" "set (nums t ms) \<subseteq> set (numbered (published_on x t))"
      using t(3) [OF p] by blast
    have f: "firsts (nums t (stream (net x) p)) = numbered (published_on x t)" using x(2) p by (simp add: streams_ok_def)
    then have "set (nums t ms) \<subseteq> set (nums t (stream (net x) p))" using ms(2) by (metis set_firsts)
    then show ?thesis using f ms(1) by (simp add: firsts_append_old)
  qed
  then have "streams_ok F (x\<lparr>ldr := n\<rparr>)" using t(1,3) pub by (simp add: streams_ok_def)
  moreover have "followers_ok own F (x\<lparr>ldr := n\<rparr>)"
    using t(2,3) by (intro followers_ok_grow [OF x(3)]) fastforce+
  ultimately show ?thesis
    using tick_leader_ok [OF x(1) assms(2,3,5)] by (simp add: dinv_def)
qed

subsection \<open>Streams and acknowledgements\<close>

lemma on_server_simps [simp]:
  "nrep (ldr (on_server f x)) = nrep (ldr x)" "nsv (net (on_server f x)) = f (nsv (net x))"
  "sent (net (on_server f x)) = sent (net x)" "stream (net (on_server f x)) = stream (net x)"
  "plog (on_server f x) = plog x" "taken (on_server f x) = taken x" "handed (on_server f x) = handed x"
  "pend (on_server f x) = pend x" "published_on (on_server f x) = published_on x"
  "received (on_server f x) = received x" "acknowledges (on_server f x) = acknowledges x"
  by (simp_all add: on_server_def stream_def published_on_def received_def acknowledges_def fun_eq_iff)

lemma on_server_ok:
  assumes "leader_ok x" and "streams_ok F x" and f: "\<And>s. server_reachable s \<Longrightarrow> server_reachable (f s)"
    and g: "\<And>m p. subs (nsv (net x)) = Some m \<Longrightarrow> p \<in> F \<Longrightarrow>
      \<exists>m'. subs (f (nsv (net x))) = Some m' \<and> gm_get m' p = gm_get m p"
  shows "leader_ok (on_server f x) \<and> streams_ok F (on_server f x)"
proof -
  have "server_reachable (f (nsv (net x)))" using assms(1) f by (simp add: leader_ok_def leader_inv_def)
  moreover from server_reachable_inv [OF this]
  have "attached p (net (on_server f x))" if "p \<in> F" for p
    using assms(2) that g [of _ p] by (fastforce simp: streams_ok_def attached_def)
  ultimately show ?thesis
    using assms(1,2) server_reachable_inv
    by (simp add: leader_ok_def leader_inv_def streams_ok_def net_ok_def)
qed

lemma follower_recv_eq:
  assumes "net_ok (net x)" and "taken x p < length (stream (net x) p)" and "m = stream (net x) p ! taken x p"
  shows "follower_recv own p x = x\<lparr>taken := (taken x)(p := Suc (taken x p)),
      handed := (handed x)(own p := handed x (own p) @ [(rm_Topic m, rm_Data m)]),
      pend := pend x @ [Marshal (enc_repAck \<lparr>ra_Topic = rm_Topic m, ra_Seq = rm_Seq m, ra_NodeID = own p\<rparr>)]\<rparr>"
    and "valid_utf8 (rm_Topic m)"
proof -
  have "m \<in> set (stream (net x) p)" using assms(2,3) by simp
  then show v: "valid_utf8 (rm_Topic m)" using assms(1) by (auto simp: net_ok_def stream_def)
  show "follower_recv own p x = x\<lparr>taken := (taken x)(p := Suc (taken x p)),
      handed := (handed x)(own p := handed x (own p) @ [(rm_Topic m, rm_Data m)]),
      pend := pend x @ [Marshal (enc_repAck \<lparr>ra_Topic = rm_Topic m, ra_Seq = rm_Seq m, ra_NodeID = own p\<rparr>)]\<rparr>"
    using v assms(3) by (simp add: follower_recv_def repMsg.received Let_def)
qed

lemma acknowledges_mono: "set (received x p) \<subseteq> set (received y p) \<Longrightarrow> acknowledges x p t v \<Longrightarrow> acknowledges y p t v"
  by (auto simp: acknowledges_def)

lemma recv_dinv:
  assumes "dinv own F x" and "inj_on own F" and "taken x p < length (stream (net x) p)" and "valid_utf8 (own p)"
    and "p \<in> F \<or> own p \<notin> own ` F"
  shows "dinv own F (follower_recv own p x)"
proof -
  define m where "m = stream (net x) p ! taken x p"
  let ?y = "follower_recv own p x"
  have x: "leader_ok x" "streams_ok F x" "followers_ok own F x" using assms(1) by (simp_all add: dinv_def)
  have "net_ok (net x)" using x(2) by (simp add: streams_ok_def)
  note y = follower_recv_eq(1) [OF this assms(3) m_def, of own] follower_recv_eq(2) [OF this assms(3) m_def]
  have keep: "ldr ?y = ldr x" "plog ?y = plog x" "published_on ?y = published_on x"
    by (simp_all add: y(1) published_on_def fun_eq_iff)
  have rp: "received ?y p = received x p @ [m]"
    using assms(3) by (simp add: y(1) received_def m_def take_Suc_conv_app_nth)
  have rq: "received ?y q = received x q" if "q \<noteq> p" for q
    using that by (simp add: y(1) received_def)
  have ne: "own q \<noteq> own p" if "q \<in> F" "q \<noteq> p" for q
    using that assms(2,5) by (metis image_eqI inj_on_contraD)
  have mono: "acknowledges x q t v \<Longrightarrow> acknowledges ?y q t v" for q t v
    by (rule acknowledges_mono) (cases "q = p"; auto simp: rp rq)
  have "acknowledges ?y p (rm_Topic m) (rm_Seq m)" by (auto simp: acknowledges_def rp)
  then have new: "q \<in> F \<Longrightarrow> own p = own q \<Longrightarrow> acknowledges ?y q (rm_Topic m) (rm_Seq m)" for q
    using ne by metis
  have "taken ?y q \<le> length (stream (net ?y) q) \<and> handed ?y (own q) = map (\<lambda>m. (rm_Topic m, rm_Data m)) (received ?y q)"
    if "q \<in> F" for q
    using x(3) that assms(3) ne [OF that] rp rq [of q]
    by (cases "q = p") (simp_all add: followers_ok_def y(1) m_def)
  moreover have "\<forall>q \<in> F. \<forall>t v. ack_of (nsv (net ?y)) t (own q) = Some v \<longrightarrow> acknowledges ?y q t v"
    using x(3) mono keep(1) by (simp add: followers_ok_def)
  moreover have "\<exists>a. b = Marshal (enc_repAck a) \<and> valid_utf8 (ra_Topic a) \<and> valid_utf8 (ra_NodeID a)
        \<and> (\<forall>q \<in> F. ra_NodeID a = own q \<longrightarrow> acknowledges ?y q (ra_Topic a) (ra_Seq a))" if "b \<in> set (pend ?y)" for b
  proof (cases "b \<in> set (pend x)")
    case True
    then obtain a where "b = Marshal (enc_repAck a)" "valid_utf8 (ra_Topic a)" "valid_utf8 (ra_NodeID a)"
      "\<forall>q \<in> F. ra_NodeID a = own q \<longrightarrow> acknowledges x q (ra_Topic a) (ra_Seq a)"
      using x(3) unfolding followers_ok_def by blast
    then show ?thesis using mono by blast
  next
    case False
    then have "b = Marshal (enc_repAck \<lparr>ra_Topic = rm_Topic m, ra_Seq = rm_Seq m, ra_NodeID = own p\<rparr>)"
      using that by (simp add: y(1))
    then show ?thesis using y(2) assms(4) new
      by (intro exI [of _ "\<lparr>ra_Topic = rm_Topic m, ra_Seq = rm_Seq m, ra_NodeID = own p\<rparr>"]) simp
  qed
  ultimately have "followers_ok own F ?y" by (simp add: followers_ok_def)
  then show ?thesis using x(1,2) keep by (simp add: dinv_def leader_ok_def streams_ok_def)
qed

lemma set_drop_nth: "set (drop_nth i xs) \<subseteq> set xs"
  by (auto simp: drop_nth_def dest: in_set_takeD in_set_dropD)

lemma followers_ok_pend: "followers_ok own F x \<Longrightarrow> set ps \<subseteq> set (pend x) \<Longrightarrow> followers_ok own F (x\<lparr>pend := ps\<rparr>)"
  by (auto simp: followers_ok_def received_def acknowledges_def)

lemma subs_server_Ack [simp]: "subs (snd (server_Ack r a s)) = subs s"
  by (simp add: server_Ack_def Let_def split: option.splits prod.splits)

lemma ack_dinv:
  assumes "dinv own F x" and "ranges_ok r" and "i < length (pend x)"
  shows "dinv own F (ack_arrives r i x)"
proof -
  have x: "leader_ok x" "streams_ok F x" "followers_ok own F x" using assms(1) by (simp_all add: dinv_def)
  from x(3) assms(3) obtain a where a: "pend x ! i = Marshal (enc_repAck a)" "valid_utf8 (ra_Topic a)"
    "valid_utf8 (ra_NodeID a)" "\<forall>p \<in> F. ra_NodeID a = own p \<longrightarrow> acknowledges x p (ra_Topic a) (ra_Seq a)"
    unfolding followers_ok_def by (meson nth_mem)
  let ?z = "on_server (\<lambda>s. snd (server_Ack r (Some a) s)) x"
  have y: "ack_arrives r i x = ?z\<lparr>pend := drop_nth i (pend x)\<rparr>"
    by (simp add: ack_arrives_def a(1) Ack_Handler_run [OF a(2,3)])
  have "followers_ok own F ?z" using x(3) a(4) by (auto simp: followers_ok_def ack_of_Ack_any)
  then have "followers_ok own F (ack_arrives r i x)"
    using set_drop_nth [of i "pend x"] by (simp add: y followers_ok_pend)
  moreover have "leader_ok ?z \<and> streams_ok F ?z"
    using assms(2) by (intro on_server_ok x(1,2)) (auto intro: server_reachable.ack)
  ultimately show ?thesis by (simp add: y dinv_def leader_ok_def streams_ok_def published_on_def)
qed

lemma dstep_dinv:
  assumes "dstep own F c x y" and "inj_on own F" and "dinv own F x"
  shows "dinv own F y"
  using assms(1)
proof (cases rule: dstep.cases)
  case (publish r topic send data)
  from publish_dinv [OF assms(3) publish(2-5)] show ?thesis unfolding publish(1) .
next
  case (tick r send rng n)
  from tick_dinv [OF assms(3) tick(2-5)] show ?thesis unfolding tick(1) .
next
  case (recv p)
  from recv_dinv [OF assms(3,2) recv(2-4)] show ?thesis unfolding recv(1) .
next
  case (ack r i)
  from ack_dinv [OF assms(3) ack(2,3)] show ?thesis unfolding ack(1) .
next
  case (ack_lost i)
  then show ?thesis
    using assms(3) set_drop_nth [of i "pend x"]
    by (simp add: dinv_def leader_ok_def streams_ok_def published_on_def followers_ok_pend)
next
  case (open_stream p)
  let ?f = "\<lambda>s. snd (Subscribe_open p (Some \<lparr>rs_NodeID = own p\<rparr>) s)"
  have "leader_ok (on_server ?f x) \<and> streams_ok F (on_server ?f x)"
    using assms(3) open_stream(2)
    by (intro on_server_ok)
      (auto simp: dinv_def Subscribe_open_def intro: server_reachable.open_stream, auto simp: addSub_def)
  then show ?thesis using assms(3) open_stream(1) by (simp add: dinv_def followers_ok_def)
next
  case (close_stream p)
  let ?f = "\<lambda>s. snd (removeSub p s)"
  have "leader_ok (on_server ?f x) \<and> streams_ok F (on_server ?f x)"
    using assms(3) close_stream(2)
    by (intro on_server_ok) (auto simp: dinv_def intro: server_reachable.close_stream, auto simp: removeSub_def)
  moreover have "ack_of (snd (removeSub p s)) = ack_of s" for s
    by (simp add: fun_eq_iff ack_of_def topic_acks_def removeSub_def split: option.splits)
  ultimately show ?thesis using assms(3) close_stream(1) by (simp add: dinv_def followers_ok_def)
qed

lemma drun_dinv:
  "(dstep own F c)\<^sup>*\<^sup>* x y \<Longrightarrow> inj_on own F \<Longrightarrow> dinv own F x \<Longrightarrow> dinv own F y"
  by (induction rule: rtranclp_induct) (auto intro: dstep_dinv)

section \<open>The system refines the leader\<close>

lemma erase_on_server:
  "erase (ldr (on_server f x)) = (erase (ldr x))\<lparr>server := f (server (erase (ldr x)))\<rparr>"
  by (simp add: on_server_def map_server_def)

lemma dstep_leader:
  assumes "dstep own F c x y" and "dinv own F x"
  shows "(leader_step c)\<^sup>=\<^sup>= (erase (ldr x)) (erase (ldr y))"
  using assms(1)
proof (cases rule: dstep.cases)
  case (publish r topic send data)
  have "leader_step c (erase (ldr x)) (snd (publish_now (grpc_ops r send) c topic data (erase (ldr x))))"
    using publish by (intro leader_step.publish) (simp_all add: window_open_erase)
  then show ?thesis by (simp add: publish(1) publish_now_erase)
next
  case (tick r send rng n)
  have "rep_inv (nrep (ldr x))" using assms(2) by (simp add: dinv_def leader_ok_def leader_inv_def)
  from retry_tick_erase [OF this tick(3), of r send c rng] tick
  have "leader_step c (erase (ldr x)) (erase n)" by (intro leader_step.tick [of r _ send]) simp_all
  then show ?thesis by (simp add: tick(1))
next
  case (recv p)
  have "net_ok (net x)" using assms(2) by (simp add: dinv_def streams_ok_def)
  from follower_recv_eq(1) [OF this recv(2) refl, of own] show ?thesis by (simp add: recv(1))
next
  case (ack r i)
  obtain a where a: "pend x ! i = Marshal (enc_repAck a)" "valid_utf8 (ra_Topic a)" "valid_utf8 (ra_NodeID a)"
    using assms(2) ack(3) unfolding dinv_def followers_ok_def by (meson nth_mem)
  have "erase (ldr y) = (erase (ldr x))\<lparr>server := snd (server_Ack r (Some a) (server (erase (ldr x))))\<rparr>"
    by (simp add: ack(1) ack_arrives_def a(1) Ack_Handler_run [OF a(2,3)] erase_on_server)
  then show ?thesis using leader_step.ack [OF ack(2), of c "erase (ldr x)" "Some a"] by simp
next
  case (open_stream p)
  then show ?thesis
    using leader_step.open_stream [of c "erase (ldr x)" p "own p"] by (simp add: erase_on_server Subscribe_open_def)
next
  case (close_stream p)
  then show ?thesis
    using leader_step.close_stream [of c "erase (ldr x)" p] by (simp add: erase_on_server)
qed simp

lemma drun_leader_run:
  assumes "(dstep own F c)\<^sup>*\<^sup>* x y" and "inj_on own F" and "dinv own F x"
  shows "(leader_step c)\<^sup>*\<^sup>* (erase (ldr x)) (erase (ldr y))"
  using assms(1)
proof (induction rule: rtranclp_induct)
  case (step y z)
  from dstep_leader [OF step(2) drun_dinv [OF step(1) assms(2,3)]]
  show ?case using step.IH by auto
qed simp

section \<open>What an acknowledgement of a faithful follower says\<close>

lemma received_in_order:
  assumes "dinv own F x" and "p \<in> F"
  shows "\<exists>k \<le> length (published_on x t). firsts (nums t (received x p)) = numbered (take k (published_on x t))"
proof -
  have "prefix (received x p) (stream (net x) p)" by (simp add: received_def take_is_prefix)
  then obtain zs where "stream (net x) p = received x p @ zs" by (auto elim: prefixE)
  then have "prefix (firsts (nums t (received x p))) (firsts (nums t (stream (net x) p)))"
    by (simp add: firsts_prefix)
  then have p: "prefix (firsts (nums t (received x p))) (numbered (published_on x t))"
    using assms by (simp add: dinv_def streams_ok_def)
  from prefix_numbered [OF p] prefix_length_le [OF p] show ?thesis by auto
qed

lemma published_bound: "leader_ok x \<Longrightarrow> length (published_on x t) < 2 ^ 64"
  using unsigned_less [of "gm_val (rseq (nrep (ldr x))) t", where ?'a = nat] by (simp add: leader_ok_def)

lemma acknowledged_received:
  assumes "dinv own F x" and "p \<in> F" and "acknowledges x p t v" and "s \<le> v"
    and "(s, d) \<in> set (numbered (published_on x t))"
  shows "(s, d) \<in> set (nums t (received x p))"
proof -
  obtain k where k: "k \<le> length (published_on x t)"
    "firsts (nums t (received x p)) = numbered (take k (published_on x t))"
    using received_in_order [OF assms(1,2)] by blast
  have b: "length (published_on x t) < 2 ^ 64"
    using assms(1) published_bound unfolding dinv_def by blast
  then have bk: "length (take k (published_on x t)) < 2 ^ 64" by simp
  have eq: "set (nums t (received x p)) = set (numbered (take k (published_on x t)))" by (metis k(2) set_firsts)
  obtain d' where "(v, d') \<in> set (nums t (received x p))"
    using assms(3) by (auto simp: acknowledges_def nums_def)
  then have "unat v \<le> k" using numbered_iff [OF bk] k(1) by (simp add: eq)
  moreover have "unat s \<le> unat v" using assms(4) by (simp add: word_le_nat_alt)
  ultimately have "unat s \<le> k" by simp
  moreover have "0 < unat s" "d = published_on x t ! (unat s - 1)" using assms(5) numbered_iff [OF b] by simp_all
  ultimately show ?thesis using k(1) unfolding eq numbered_iff [OF bk] by simp
qed

section \<open>Properties\<close>



section \<open>Two runs\<close>

text \<open>The states of the runs below: one topic \<open>t\<close>, one follower \<open>n2\<close>, the leader of \<open>cfg1\<close>.\<close>

definition demo ::
  "rep \<Rightarrow> (pointer, string) gomap \<Rightarrow> (string, uint64) gomap \<Rightarrow> (string, (string, uint64) gomap) gomap \<Rightarrow>
   (pointer \<times> repMsg) list \<Rightarrow> (string \<times> bytes) list \<Rightarrow> (pointer \<Rightarrow> nat) \<Rightarrow> (string \<Rightarrow> (string \<times> bytes) list) \<Rightarrow>
   bytes list \<Rightarrow> dsys" where
  "demo rp m sq ak out pub tk got pd =
     \<lparr>ldr = \<lparr>nrep = rp, disk = fs0,
        server = \<lparr>nsv = (snd (server_Start None (NewServer ''b'')))\<lparr>subs := Some m, seqs := sq, acks := ak\<rparr>,
          sent = out\<rparr>\<rparr>,
      plog = pub, taken = tk, handed = got, pend = pd\<rparr>"

abbreviation own2 :: "pointer \<Rightarrow> string" where
  "own2 \<equiv> \<lambda>_. ''n2''"

abbreviation msg :: "bytes \<Rightarrow> uint64 \<Rightarrow> repMsg" where
  "msg d q \<equiv> \<lparr>rm_Topic = ''t'', rm_Data = d, rm_Seq = q\<rparr>"

abbreviation ack_frame :: "uint64 \<Rightarrow> bytes" where
  "ack_frame q \<equiv> Marshal (enc_repAck \<lparr>ra_Topic = ''t'', ra_Seq = q, ra_NodeID = ''n2''\<rparr>)"

lemma demo_utf8 [simp]: "valid_utf8 ''t''" "valid_utf8 ''n2''"
  by (simp_all add: valid_utf8_all_ascii)

lemma demo_dinit:
  "dinit fs0 (snd (server_Start None (NewServer ''b'')))
     = demo \<lparr>rseq = [], rbuf = []\<rparr> [] [] [] [] [] (\<lambda>_. 0) (\<lambda>_. []) []"
  by (simp add: dinit_def demo_def node0_def server_Start_def NewServer_def)

lemma demo_open:
  assumes "p \<notin> F"
  shows "dstep own2 F cfg1 (demo rp m sq ak out pub tk got pd) (demo rp (gm_put p ''n2'' m) sq ak out pub tk got pd)"
proof -
  have "on_server (\<lambda>s. snd (Subscribe_open p (Some \<lparr>rs_NodeID = ''n2''\<rparr>) s)) (demo rp m sq ak out pub tk got pd) =
      demo rp (gm_put p ''n2'' m) sq ak out pub tk got pd"
    by (simp add: on_server_def demo_def Subscribe_open_def addSub_def server_Start_def NewServer_def)
  then show ?thesis using dstep.open_stream [OF assms, of own2 cfg1 "demo rp m sq ak out pub tk got pd"] by simp
qed

lemma demo_close:
  assumes "p \<notin> F"
  shows "dstep own2 F cfg1 (demo rp m sq ak out pub tk got pd) (demo rp (gm_del p m) sq ak out pub tk got pd)"
proof -
  have "on_server (\<lambda>s. snd (removeSub p s)) (demo rp m sq ak out pub tk got pd) =
      demo rp (gm_del p m) sq ak out pub tk got pd"
    by (simp add: on_server_def demo_def removeSub_def server_Start_def NewServer_def)
  then show ?thesis using dstep.close_stream [OF assms, of own2 cfg1 "demo rp m sq ak out pub tk got pd"] by simp
qed

text \<open>A publication that reaches every subscriber, as long as nothing is acknowledged.\<close>

lemma demo_publish:
  assumes "gm_val (rseq rp) ''t'' = q" and "q \<le> 4" and "seq_bound rp"
  shows "dstep own2 F cfg1 (demo rp m sq [] out pub tk got pd)
    (demo (put_buf ''t'' (q + 1) d (rp\<lparr>rseq := gm_put ''t'' (q + 1) (rseq rp)\<rparr>)) m (gm_put ''t'' (q + 1) sq) []
       (out @ map (\<lambda>p. (p, msg d (q + 1))) (map fst m)) (pub @ [(''t'', d)]) tk got pd)"
proof -
  let ?x = "demo rp m sq [] out pub tk got pd"
  have l: "bcast_loop (\<lambda>_. True) z ps (n, o1, m) = (n + length ps, o1 @ map (\<lambda>p. (p, z)) ps, m)" for z ps n o1
    by (induction ps arbitrary: n o1) auto
  have "sint q \<le> 4" using assms(2) by (simp add: sint_small word_le_def)
  then have "window_open (net_ops ranges_id (\<lambda>_. True)) (window_of cfg1) ''t'' (ldr ?x)"
    using assms(1) by (simp add: window_open_def read_minAck_def net_ops_def gm_val_AckedAll minAck_eq topic_acks_def
        demo_def window_of_def cfg1_def)
  moreover have "snd (publish_now (net_ops ranges_id (\<lambda>_. True)) cfg1 ''t'' d (ldr ?x)) =
      ldr (demo (put_buf ''t'' (q + 1) d (rp\<lparr>rseq := gm_put ''t'' (q + 1) (rseq rp)\<rparr>)) m (gm_put ''t'' (q + 1) sq) []
       (out @ map (\<lambda>p. (p, msg d (q + 1))) (map fst m)) (pub @ [(''t'', d)]) tk got pd)"
    using assms(1) by (simp add: publish_now_def net_ops_def net_bcast_def BroadcastWithSeq_def ranges_id_def l demo_def
        cfg1_def Let_def comp_def server_Start_def NewServer_def split: prod.splits)
  ultimately show ?thesis
    using dstep.publish [of ranges_id ?x "''t''" F "\<lambda>_. True" cfg1 own2 d] assms(3) by (simp add: demo_def)
qed

lemma demo_recv:
  assumes "tk p < length (map snd (filter (\<lambda>(q, _). q = p) out))"
    and "map snd (filter (\<lambda>(q, _). q = p) out) ! tk p = msg d q" and "p \<in> F \<or> F = {}"
  shows "dstep own2 F cfg1 (demo rp m sq ak out pub tk got pd)
    (demo rp m sq ak out pub (tk(p := Suc (tk p))) (got(''n2'' := got ''n2'' @ [(''t'', d)])) (pd @ [ack_frame q]))"
proof -
  let ?x = "demo rp m sq ak out pub tk got pd"
  have "follower_recv own2 p ?x =
    demo rp m sq ak out pub (tk(p := Suc (tk p))) (got(''n2'' := got ''n2'' @ [(''t'', d)])) (pd @ [ack_frame q])"
    using assms(2) by (simp add: follower_recv_def stream_def demo_def repMsg.received Let_def)
  then show ?thesis
    using dstep.recv [of ?x p own2 F cfg1] assms by (auto simp: demo_def stream_def)
qed

lemma demo_ack:
  "dstep own2 F cfg1 (demo rp m sq [] out pub tk got [ack_frame q])
    (demo rp m sq [(''t'', [(''n2'', q)])] out pub tk got [])"
proof -
  let ?x = "demo rp m sq [] out pub tk got [ack_frame q]"
  have "ack_arrives ranges_id 0 ?x = demo rp m sq [(''t'', [(''n2'', q)])] out pub tk got []"
    by (simp add: ack_arrives_def drop_nth_def on_server_def demo_def Ack_Handler_run server_Ack_def topic_acks_def Let_def
        server_Start_def NewServer_def ranges_id_def)
  then show ?thesis using dstep.ack [of ranges_id 0 ?x own2 F cfg1] by (simp add: demo_def)
qed

text \<open>A tick that finds everything acknowledged.\<close>

lemma resend_past: "\<not> s \<le> mx \<Longrightarrow> resend b topic ms mx s sv = Some sv"
  by (subst resend.simps) simp

lemma demo_tick:
  assumes "rp = \<lparr>rseq = [(''t'', q)], rbuf = [(''t'', buf)]\<rparr>" and "\<forall>(s, d) \<in> set buf. s \<le> q" and "seq_bound rp"
  shows "dstep own2 F cfg1 (demo rp m sq [(''t'', [(''n2'', q)])] out pub tk got [])
    (demo (rp\<lparr>rbuf := [(''t'', [])]\<rparr>) m sq [(''t'', [(''n2'', q)])] out pub tk got [])"
proof -
  let ?x = "demo rp m sq [(''t'', [(''n2'', q)])] out pub tk got []"
  have "\<not> q + 1 \<le> q" using seq_bound_Suc(1) [OF assms(3), of "''t''"] assms(1) by (simp add: gm_val_def not_le)
  note r = resend_past [OF this]
  have "filter (\<lambda>(s, _). \<not> s \<le> q) buf = []" using assms(2) by (auto simp: filter_empty_conv)
  then have "retry_tick (net_ops ranges_id (\<lambda>_. True)) cfg1 (\<lambda>ks. ks) (ldr ?x) =
      Some (ldr (demo (rp\<lparr>rbuf := [(''t'', [])]\<rparr>) m sq [(''t'', [(''n2'', q)])] out pub tk got []))"
    using assms(1) by (simp add: r retry_tick_def retry_topic_def topic_buf_def net_ops_def AckedAll_def ranges_id_def
        minAck_def topic_acks_def gm_val_def demo_def cfg1_def Let_def)
  then show ?thesis
    using dstep.tick [of ranges_id ?x F "\<lambda>_. True" cfg1 "\<lambda>ks. ks" _ own2] assms(3) by (simp add: demo_def)
qed


text \<open>The numbers of the runs are small.\<close>

lemma demo_bound: "q \<le> 4 \<Longrightarrow> seq_bound \<lparr>rseq = [(''t'', q)], rbuf = b\<rparr>" "seq_bound \<lparr>rseq = [], rbuf = b\<rparr>"
proof -
  assume "q \<le> 4"
  moreover have "(4 :: uint64) < - 2" by (simp add: word_less_nat_alt)
  ultimately have "q < - 2" by (rule order.strict_trans1)
  then show "seq_bound \<lparr>rseq = [(''t'', q)], rbuf = b\<rparr>" by (simp add: seq_bound_def gm_val_def word_gt_0)
qed (simp add: seq_bound_def word_gt_0)

text \<open>The faithful run: message 1 is published, received, acknowledged, and dropped by a tick.\<close>

definition sv_n2 :: Server where
  "sv_n2 = snd (addSub 1 ''n2'' (snd (server_Start None (NewServer ''b''))))"

definition served :: "(string, (string, uint64) gomap) gomap \<Rightarrow> (uint64, bytes) gomap \<Rightarrow> dsys" where
  "served ak buf = demo \<lparr>rseq = [(''t'', 1)], rbuf = [(''t'', buf)]\<rparr> [(1, ''n2'')] [(''t'', 1)] ak
     [(1, msg ''a'' 1)] [(''t'', ''a'')] ((\<lambda>_. 0)(1 := 1)) ((\<lambda>_. [])(''n2'' := [(''t'', ''a'')])) []"

lemma sv_n2_eq: "subs sv_n2 = Some [(1, ''n2'')]" "acks sv_n2 = []"
  by (simp_all add: sv_n2_def addSub_def server_Start_def NewServer_def)

lemma served_start: "serves own2 {1} sv_n2"
proof -
  have "server_reachable sv_n2" unfolding sv_n2_def by (intro server_reachable.intros)
  then show ?thesis by (simp add: serves_def sv_n2_eq)
qed

lemma served_dinit: "dinit fs0 sv_n2 = demo \<lparr>rseq = [], rbuf = []\<rparr> [(1, ''n2'')] [] [] [] [] (\<lambda>_. 0) (\<lambda>_. []) []"
  by (simp add: dinit_def demo_def node0_def sv_n2_def addSub_def server_Start_def NewServer_def)

lemma served_run: "(dstep own2 {1} cfg1)\<^sup>*\<^sup>* (dinit fs0 sv_n2) (served [(''t'', [(''n2'', 1)])] [(1, ''a'')])"
proof -
  let ?rp = "\<lparr>rseq = [(''t'', 1)], rbuf = [(''t'', [(1, ''a'')])]\<rparr>"
  have "(dstep own2 {1} cfg1)\<^sup>*\<^sup>* (dinit fs0 sv_n2) (dinit fs0 sv_n2)" by simp
  also have "dstep own2 {1} cfg1 \<dots>
      (demo ?rp [(1, ''n2'')] [(''t'', 1)] [] [(1, msg ''a'' 1)] [(''t'', ''a'')] (\<lambda>_. 0) (\<lambda>_. []) [])"
    using demo_publish [of "\<lparr>rseq = [], rbuf = []\<rparr>" 0 "{1}" "[(1, ''n2'')]" "[]" "[]" "[]"] demo_bound(2)
    by (simp add: served_dinit put_buf_def topic_buf_def)
  also (rtranclp.rtrancl_into_rtrancl) have "dstep own2 {1} cfg1 \<dots> (demo ?rp [(1, ''n2'')] [(''t'', 1)] [] [(1, msg ''a'' 1)] [(''t'', ''a'')]
      ((\<lambda>_. 0)(1 := 1)) ((\<lambda>_. [])(''n2'' := [(''t'', ''a'')])) [ack_frame 1])"
    using demo_recv [where tk = "\<lambda>_. 0" and p = 1 and out = "[(1, msg ''a'' 1)]" and d = "''a''" and q = 1
        and got = "\<lambda>_. []" and pd = "[]" and F = "{1}"] by simp
  also (rtranclp.rtrancl_into_rtrancl) have "dstep own2 {1} cfg1 \<dots> (served [(''t'', [(''n2'', 1)])] [(1, ''a'')])"
    unfolding served_def by (rule demo_ack)
  finally (rtranclp.rtrancl_into_rtrancl) show ?thesis .
qed

lemma served_tick: "dstep own2 {1} cfg1 (served [(''t'', [(''n2'', 1)])] [(1, ''a'')]) (served [(''t'', [(''n2'', 1)])] [])"
  unfolding served_def using demo_tick [OF refl, of "[(1, ''a'')]" 1] demo_bound(1) [of 1] by simp




text \<open>
  C16. Without a faithful stream a message can be lost although its follower is there and
  acknowledges everything it gets: the follower's stream breaks with message 1 on the way, it
  subscribes again, receives and acknowledges message 2, and the next tick drops both
  messages. An acknowledgement names one number; the leader reads it as all up to that number.
\<close>

theorem reconnect_loses_message:
  "\<exists>x. (dstep own2 {} cfg1)\<^sup>*\<^sup>* (dinit fs0 (snd (server_Start None (NewServer ''b'')))) x
     \<and> published_on x ''t'' = [''a'', ''b''] \<and> handed x ''n2'' = [(''t'', ''b'')]
     \<and> (\<forall>t s. msg_at (nrep (ldr x)) t s = None) \<and> subs (nsv (net x)) = Some [(2, ''n2'')]
     \<and> pend x = [] \<and> taken x 2 = length (stream (net x) 2)"
proof -
  let ?r1 = "\<lparr>rseq = [(''t'', 1)], rbuf = [(''t'', [(1, ''a'')])]\<rparr>"
  let ?r2 = "\<lparr>rseq = [(''t'', 2)], rbuf = [(''t'', [(1, ''a''), (2, ''b'')])]\<rparr>"
  let ?out = "[(1, msg ''a'' 1), (2, msg ''b'' 2)]" and ?pub = "[(''t'', ''a''), (''t'', ''b'')]"
  let ?got = "(\<lambda>_. [])(''n2'' := [(''t'', ''b'')])" and ?tk = "(\<lambda>_. 0)(2 := Suc 0)"
  let ?fin = "demo (?r2\<lparr>rbuf := [(''t'', [])]\<rparr>) [(2, ''n2'')] [(''t'', 2)] [(''t'', [(''n2'', 2)])] ?out ?pub ?tk ?got []"
  let ?init = "dinit fs0 (snd (server_Start None (NewServer ''b'')))"
  have "(dstep own2 {} cfg1)\<^sup>*\<^sup>* ?init ?init" by simp
  also have "dstep own2 {} cfg1 \<dots>
      (demo \<lparr>rseq = [], rbuf = []\<rparr> [(1, ''n2'')] [] [] [] [] (\<lambda>_. 0) (\<lambda>_. []) [])"
    using demo_open [of 1 "{}" _ "[]"] by (simp add: demo_dinit)
  also (rtranclp.rtrancl_into_rtrancl) have "dstep own2 {} cfg1 \<dots> (demo ?r1 [(1, ''n2'')] [(''t'', 1)] [] [(1, msg ''a'' 1)] [(''t'', ''a'')] (\<lambda>_. 0) (\<lambda>_. []) [])"
    using demo_publish [of "\<lparr>rseq = [], rbuf = []\<rparr>" 0 "{}" "[(1, ''n2'')]" "[]" "[]" "[]"] demo_bound(2)
    by (simp add: put_buf_def topic_buf_def)
  also (rtranclp.rtrancl_into_rtrancl) have "dstep own2 {} cfg1 \<dots> (demo ?r1 [] [(''t'', 1)] [] [(1, msg ''a'' 1)] [(''t'', ''a'')] (\<lambda>_. 0) (\<lambda>_. []) [])"
    using demo_close [of 1 "{}" _ "[(1, ''n2'')]"] by (simp add: gm_del_def)
  also (rtranclp.rtrancl_into_rtrancl) have "dstep own2 {} cfg1 \<dots> (demo ?r1 [(2, ''n2'')] [(''t'', 1)] [] [(1, msg ''a'' 1)] [(''t'', ''a'')] (\<lambda>_. 0) (\<lambda>_. []) [])"
    using demo_open [of 2 "{}" _ "[]"] by simp
  also (rtranclp.rtrancl_into_rtrancl) have "dstep own2 {} cfg1 \<dots> (demo ?r2 [(2, ''n2'')] [(''t'', 2)] [] ?out ?pub (\<lambda>_. 0) (\<lambda>_. []) [])"
    using demo_publish [of ?r1 1 "{}" "[(2, ''n2'')]" "[(''t'', 1)]" "[(1, msg ''a'' 1)]" "[(''t'', ''a'')]"] demo_bound(1) [of 1]
    by (simp add: put_buf_def topic_buf_def gm_val_def)
  also (rtranclp.rtrancl_into_rtrancl) have "dstep own2 {} cfg1 \<dots> (demo ?r2 [(2, ''n2'')] [(''t'', 2)] [] ?out ?pub ?tk ?got [ack_frame 2])"
    using demo_recv [where tk = "\<lambda>_. 0" and p = 2 and out = ?out and d = "''b''" and q = 2
        and got = "\<lambda>_. []" and pd = "[]" and F = "{}"] by simp
  also (rtranclp.rtrancl_into_rtrancl) have "dstep own2 {} cfg1 \<dots> (demo ?r2 [(2, ''n2'')] [(''t'', 2)] [(''t'', [(''n2'', 2)])] ?out ?pub ?tk ?got [])"
    by (rule demo_ack)
  also (rtranclp.rtrancl_into_rtrancl) have "dstep own2 {} cfg1 \<dots> ?fin"
    using demo_tick [of ?r2 2 "[(1, ''a''), (2, ''b'')]" "{}"] demo_bound(1) [of 2] by simp
  finally (rtranclp.rtrancl_into_rtrancl) have "(dstep own2 {} cfg1)\<^sup>*\<^sup>* ?init ?fin" .
  then show ?thesis
    by (intro exI [of _ ?fin]) (simp add: published_on_def demo_def msg_at_def topic_buf_def stream_def)
qed

end
