(* ===== verification/ProgRel.thy ===== *)
theory ProgRel
  imports Cluster
begin

text \<open>
  Reasoning about what a handler can do to the node, from its text. A relation between the
  states before and after that is reflexive and transitive holds of a program when it holds of
  its steps; two such relations are used: which calls are added to the history, and that the
  node is not stopped.
\<close>

definition within :: "(Cluster \<Rightarrow> Cluster \<Rightarrow> bool) \<Rightarrow> 'a prog \<Rightarrow> bool" where
  "within R p \<longleftrightarrow> (\<forall>s. R s (snd (run_state p s)))"

locale prog_rel =
  fixes R :: "Cluster \<Rightarrow> Cluster \<Rightarrow> bool"
  assumes R_refl: "R s s"
    and R_trans: "R s t \<Longrightarrow> R t u \<Longrightarrow> R s u"
begin

lemma steps:
  "within R (ret x)" "within R (gets g)" "(\<And>s. R s (s\<lparr>hist := hist s @ [c]\<rparr>)) \<Longrightarrow> within R (call c k)"
  "(\<And>s. R s (s\<lparr>hist := hist s @ [c]\<rparr>)) \<Longrightarrow> within R (act c)" "(\<And>s. R s (f s)) \<Longrightarrow> within R (upd f)"
  by (simp_all add: within_def R_refl)

lemma sequence:
  assumes "within R p" and "\<And>x. within R (f x)"
  shows "within R (State_Monad.bind p f)"
  unfolding within_def
proof
  fix s
  have "R s (snd (run_state p s))" "R (snd (run_state p s)) (snd (run_state (f (fst (run_state p s))) (snd (run_state p s))))"
    using assms by (simp_all add: within_def)
  then show "R s (snd (run_state (State_Monad.bind p f) s))"
    by (auto simp: run_state_bind split: prod.splits dest: R_trans)
qed

lemma branches:
  "within R p \<Longrightarrow> within R q \<Longrightarrow> within R (if b then p else q)"
  "within R p \<Longrightarrow> (\<And>y. within R (f y)) \<Longrightarrow> within R (case x of None \<Rightarrow> p | Some y \<Rightarrow> f y)"
  by (simp_all split: option.splits)

lemmas rules = sequence branches steps

end

text \<open>The calls a program adds to the history are among \<open>A\<close>.\<close>

definition only_calls :: "call set \<Rightarrow> Cluster \<Rightarrow> Cluster \<Rightarrow> bool" where
  "only_calls A s s' \<longleftrightarrow> (\<exists>cs. hist s' = hist s @ cs \<and> set cs \<subseteq> A)"

interpretation calls: prog_rel "only_calls A"
proof
  show "only_calls A s t \<Longrightarrow> only_calls A t u \<Longrightarrow> only_calls A s u" for s t u
    unfolding only_calls_def by (metis append.assoc set_append Un_least)
qed (simp add: only_calls_def)

definition same_stopped :: "Cluster \<Rightarrow> Cluster \<Rightarrow> bool" where
  "same_stopped s s' \<longleftrightarrow> stopped s' = stopped s"

interpretation running: prog_rel same_stopped
  by unfold_locales (simp_all add: same_stopped_def)

lemma only_calls_new: "within (only_calls A) p \<Longrightarrow> set (new_calls p s) \<subseteq> A"
  by (auto simp: within_def only_calls_def new_calls_def dest!: spec [of _ s])

definition stop_calls :: "call set" where
  "stop_calls = {ConsStop, MemLeave, MemStop, ServerStop}"

lemmas start_defs = Start_def prepare_buffer_def start_membership_def start_consensus_def start_server_def

lemma Start_stops_nothing: "within (only_calls (- stop_calls)) (Start o1)"
  unfolding start_defs by (intro calls.rules) (simp_all add: only_calls_def stop_calls_def Let_def)

lemma Start_same_stopped: "within same_stopped (Start o1)"
  unfolding start_defs by (intro running.rules) (simp_all add: same_stopped_def Let_def)

end
