(* ===== verification/RaftNode.thy ===== *)
theory RaftNode
  imports Fsm EventBus GoPath "HOL-Library.AList"
begin

text \<open>
  \<open>pkg/consensus/raft/raft.go\<close> and \<open>options.go\<close>: the consensus engine, a thin layer over the
  hashicorp Raft library. The library is a parameter: \<open>raft_env\<close> holds the constructors \<open>Start\<close>
  calls and \<open>raft_api\<close> the methods of a running instance, over the instance's state \<open>'r\<close>. What
  the layer relies on is stated as hypotheses of the theorems (\<open>applies_entry\<close>, \<open>reconfigures\<close>).
\<close>

section \<open>Options and configuration\<close>

record raft_Options =
  ro_NodeID :: string
  ro_Logger :: bool
  ro_Bootstrap :: bool
  ro_HeartbeatTimeout :: duration
  ro_ElectionTimeout :: duration
  ro_CommitTimeout :: duration
  ro_ApplyTimeout :: duration
  ro_BindAddr :: string
  ro_DataDir :: string
  ro_SnapshotsRetained :: int

text \<open>The part of the library's configuration the code sets.\<close>

record raft_Config =
  LocalID :: string
  HeartbeatTimeout :: duration
  ElectionTimeout :: duration
  CommitTimeout :: duration
  LeaderLeaseTimeout :: duration

definition raft_heartbeat :: "raft_Options \<Rightarrow> raft_Config \<Rightarrow> raft_Config" where
  "raft_heartbeat ro cfg =
     (if ro_HeartbeatTimeout ro > 0
      then (let cfg1 = cfg\<lparr>HeartbeatTimeout := ro_HeartbeatTimeout ro\<rparr>
            in if LeaderLeaseTimeout cfg1 > HeartbeatTimeout cfg1
               then (let cfg2 = cfg1\<lparr>LeaderLeaseTimeout := HeartbeatTimeout cfg1 div 2\<rparr>
                     in if LeaderLeaseTimeout cfg2 = 0
                        then cfg2\<lparr>LeaderLeaseTimeout := HeartbeatTimeout cfg2\<rparr> else cfg2)
               else cfg1)
      else cfg)"

definition raft_config :: "raft_Options \<Rightarrow> raft_Config \<Rightarrow> raft_Config" where
  "raft_config ro def =
     (let cfg = raft_heartbeat ro (def\<lparr>LocalID := ro_NodeID ro\<rparr>);
          cfg1 = (if ro_ElectionTimeout ro > 0 then cfg\<lparr>ElectionTimeout := ro_ElectionTimeout ro\<rparr> else cfg)
      in if ro_CommitTimeout ro > 0 then cfg1\<lparr>CommitTimeout := ro_CommitTimeout ro\<rparr> else cfg1)"

section \<open>The library\<close>

record 'r raft_env =
  e_DefaultConfig :: raft_Config
  e_MkdirAll :: "string \<Rightarrow> gerror option"
  e_NewBoltStore :: "string \<Rightarrow> gerror option"
  e_NewFileSnapshotStore :: "string \<Rightarrow> int \<Rightarrow> gerror option"
  e_NewTCPTransport :: "string \<Rightarrow> gerror + string"
  e_NewInmemTransport :: "string \<Rightarrow> string"
  e_NewRaft :: "raft_Config \<Rightarrow> string \<Rightarrow> gerror + 'r"
  e_BootstrapCluster :: "(string \<times> string) list \<Rightarrow> 'r \<Rightarrow> gerror option \<times> 'r"

text \<open>
  \<open>rf_Apply\<close> gives the error of the future or the response, and the log entries the library hands
  to the state machine before the future is resolved.
\<close>

record 'r raft_api =
  rf_IsLeader :: "'r \<Rightarrow> bool"
  rf_LeaderWithID :: "'r \<Rightarrow> string \<times> string"
  rf_Stats :: "'r \<Rightarrow> string \<Rightarrow> string"
  rf_Apply :: "bytes \<Rightarrow> duration \<Rightarrow> 'r \<Rightarrow> (gerror + gerror option) \<times> bytes list \<times> 'r"
  rf_Shutdown :: "'r \<Rightarrow> gerror option \<times> 'r"
  rf_GetConfiguration :: "'r \<Rightarrow> gerror + (string \<times> string) list"
  rf_AddVoter :: "string \<Rightarrow> string \<Rightarrow> duration \<Rightarrow> 'r \<Rightarrow> gerror option \<times> 'r"
  rf_RemoveServer :: "string \<Rightarrow> duration \<Rightarrow> 'r \<Rightarrow> gerror option \<times> 'r"

section \<open>The node\<close>

text \<open>\<open>nd_ms\<close> is the membership state, shared with the state machine inside the library.\<close>

record 'r Node =
  nd_opts :: raft_Options
  nd_r :: "'r option"
  nd_lch :: "LeaderInfo list"
  nd_addr :: string
  nd_ms :: "State option"

definition lch_cap :: nat where
  "lch_cap = 16"

definition node_New :: "raft_Options \<Rightarrow> gerror + 'r Node" where
  "node_New ro =
     (if ro_NodeID ro = [] then Inl ''raftcons: empty NodeID''
      else Inr \<lparr>nd_opts = ro\<lparr>ro_Logger := True\<rparr>, nd_r = None, nd_lch = [], nd_addr = [], nd_ms = None\<rparr>)"

text \<open>Storage: on disk when a directory is configured, else in memory.\<close>

definition node_stores :: "'r raft_env \<Rightarrow> 'r Node \<Rightarrow> gerror option \<times> 'r Node" where
  "node_stores env n =
     (let dir = ro_DataDir (nd_opts n)
      in if dir = [] then (None, n)
         else
           (let keep = (if ro_SnapshotsRetained (nd_opts n) = 0 then 2 else ro_SnapshotsRetained (nd_opts n));
                n1 = n\<lparr>nd_opts := (nd_opts n)\<lparr>ro_SnapshotsRetained := keep\<rparr>\<rparr>
            in (case e_MkdirAll env dir of
                  Some err \<Rightarrow> (Some err, n1)
                | None \<Rightarrow> (case e_NewBoltStore env (path_Join dir ''raft.db'') of
                      Some err \<Rightarrow> (Some err, n1)
                    | None \<Rightarrow> (e_NewFileSnapshotStore env dir keep, n1)))))"

definition node_transport :: "'r raft_env \<Rightarrow> raft_Options \<Rightarrow> gerror + string" where
  "node_transport env ro =
     (if ro_BindAddr ro \<noteq> [] then e_NewTCPTransport env (ro_BindAddr ro)
      else Inr (e_NewInmemTransport env (ro_NodeID ro)))"

definition node_bootstrap :: "'r raft_env \<Rightarrow> string \<Rightarrow> string \<Rightarrow> 'r \<Rightarrow> 'r Node \<Rightarrow> gerror option \<times> 'r Node" where
  "node_bootstrap env i addr r n =
     (if ro_Bootstrap (nd_opts n)
      then (case e_BootstrapCluster env [(i, addr)] r of (err, r') \<Rightarrow> (err, n\<lparr>nd_r := Some r'\<rparr>))
      else (None, n))"

definition node_Start :: "'r raft_env \<Rightarrow> 'r Node \<Rightarrow> gerror option \<times> 'r Node" where
  "node_Start env n =
     (if nd_r n \<noteq> None then (None, n)
      else
        (let cfg = raft_config (nd_opts n) (e_DefaultConfig env)
         in (case node_stores env n of
               (Some err, n1) \<Rightarrow> (Some err, n1)
             | (None, n1) \<Rightarrow>
                 (case node_transport env (nd_opts n1) of
                    Inl err \<Rightarrow> (Some err, n1)
                  | Inr addr \<Rightarrow>
                      (let n2 = n1\<lparr>nd_ms := Some New\<rparr>
                       in (case e_NewRaft env cfg addr of
                             Inl err \<Rightarrow> (Some err, n2)
                           | Inr r \<Rightarrow> node_bootstrap env (LocalID cfg) addr r (n2\<lparr>nd_r := Some r, nd_addr := addr\<rparr>)))))))"

definition node_IsLeader :: "'r raft_api \<Rightarrow> 'r Node \<Rightarrow> bool" where
  "node_IsLeader api n = (case nd_r n of None \<Rightarrow> False | Some r \<Rightarrow> rf_IsLeader api r)"

definition node_Leader :: "'r raft_api \<Rightarrow> 'r Node \<Rightarrow> (string \<times> string) option" where
  "node_Leader api n =
     (case nd_r n of
        None \<Rightarrow> None
      | Some r \<Rightarrow> (case rf_LeaderWithID api r of (a, sid) \<Rightarrow> if sid = [] then None else Some (sid, a)))"

definition node_Term :: "'r raft_api \<Rightarrow> 'r Node \<Rightarrow> uint64" where
  "node_Term api n =
     (case nd_r n of
        None \<Rightarrow> 0
      | Some r \<Rightarrow> (let v = rf_Stats api r ''current_term''
                   in if v \<noteq> [] then (case ParseUint v of Some u \<Rightarrow> u | None \<Rightarrow> 0) else 0))"

definition node_Stop :: "'r raft_api \<Rightarrow> 'r Node \<Rightarrow> gerror option \<times> 'r Node" where
  "node_Stop api n =
     (case nd_r n of
        None \<Rightarrow> (None, n)
      | Some r \<Rightarrow> (case rf_Shutdown api r of
            (Some err, r') \<Rightarrow> (Some err, n\<lparr>nd_r := Some r'\<rparr>)
          | (None, _) \<Rightarrow> (None, n\<lparr>nd_r := None\<rparr>)))"

text \<open>The library applies entries to the state machine that shares the membership state.\<close>

definition fsm_entries :: "bytes list \<Rightarrow> 'r Node \<Rightarrow> 'r Node" where
  "fsm_entries es n = n\<lparr>nd_ms := map_option (apply_log es) (nd_ms n)\<rparr>"

definition node_Apply :: "'r raft_api \<Rightarrow> Command \<Rightarrow> duration \<Rightarrow> 'r Node \<Rightarrow> gerror option \<times> 'r Node" where
  "node_Apply api cmd timeout n =
     (case nd_r n of
        None \<Rightarrow> (Some ''raftcons: not started'', n)
      | Some r \<Rightarrow>
          if \<not> rf_IsLeader api r then (Some ''raftcons: not leader'', n)
          else
            (let data = Marshal (enc_Command cmd);
                 t = (if timeout \<le> 0 \<and> ro_ApplyTimeout (nd_opts n) > 0 then ro_ApplyTimeout (nd_opts n) else timeout)
             in (case rf_Apply api data t r of
                   (res, es, r') \<Rightarrow>
                     (case res of Inl err \<Rightarrow> Some err | Inr resp \<Rightarrow> resp,
                      (fsm_entries es n)\<lparr>nd_r := Some r'\<rparr>))))"

definition node_LeaderCh :: "'r Node \<Rightarrow> LeaderInfo list" where
  "node_LeaderCh n = nd_lch n"

definition emitLeader :: "LeaderInfo \<Rightarrow> 'r Node \<Rightarrow> 'r Node" where
  "emitLeader li n = n\<lparr>nd_lch := try_send lch_cap li (nd_lch n)\<rparr>"

text \<open>What both goroutines of \<open>Start\<close> do when they run: report the leader if one is known.\<close>

definition node_observe :: "'r raft_api \<Rightarrow> 'r Node \<Rightarrow> 'r Node" where
  "node_observe api n =
     (case node_Leader api n of
        None \<Rightarrow> n
      | Some (i, addr) \<Rightarrow> emitLeader \<lparr>LID = i, LAddr = addr, LTerm = node_Term api n\<rparr> n)"

definition node_StateSnapshot :: "range_order \<Rightarrow> 'r Node \<Rightarrow> gerror + bytes" where
  "node_StateSnapshot rng n = (case nd_ms n of None \<Rightarrow> Inl ''no state'' | Some s \<Rightarrow> Inr (Snapshot rng s))"

definition node_AddVoter ::
  "'r raft_api \<Rightarrow> string \<Rightarrow> string \<Rightarrow> duration \<Rightarrow> 'r Node \<Rightarrow> gerror option \<times> 'r Node" where
  "node_AddVoter api i addr timeout n =
     (case nd_r n of
        None \<Rightarrow> (Some ''raftcons: not started'', n)
      | Some r \<Rightarrow>
          (let add = (\<lambda>r. case rf_AddVoter api i addr timeout r of (err, r') \<Rightarrow> (err, n\<lparr>nd_r := Some r'\<rparr>))
           in (case rf_GetConfiguration api r of
                 Inl _ \<Rightarrow> add r
               | Inr servers \<Rightarrow>
                   (case find (\<lambda>(sid, _). sid = i) servers of
                      None \<Rightarrow> add r
                    | Some (sid, a) \<Rightarrow>
                        if a = addr then (None, n)
                        else (case rf_RemoveServer api sid timeout r of
                            (Some err, r') \<Rightarrow> (Some err, n\<lparr>nd_r := Some r'\<rparr>)
                          | (None, r') \<Rightarrow> add r')))))"

definition node_RemoveServer :: "'r raft_api \<Rightarrow> string \<Rightarrow> duration \<Rightarrow> 'r Node \<Rightarrow> gerror option \<times> 'r Node" where
  "node_RemoveServer api i timeout n =
     (case nd_r n of
        None \<Rightarrow> (Some ''raftcons: not started'', n)
      | Some r \<Rightarrow> (case rf_RemoveServer api i timeout r of (err, r') \<Rightarrow> (err, n\<lparr>nd_r := Some r'\<rparr>)))"

section \<open>What the library is relied on for\<close>

text \<open>
  A successful \<open>Apply\<close> has handed the entry to the state machine, after entries before it and
  perhaps before further ones, and its response is what the state machine returned for it.
\<close>

definition applies_entry :: "'r raft_api \<Rightarrow> 'r Node \<Rightarrow> bool" where
  "applies_entry api n \<longleftrightarrow> (\<forall>r data t resp es r' s. nd_r n = Some r \<and> nd_ms n = Some s
     \<and> rf_Apply api data t r = (Inr resp, es, r') \<longrightarrow>
       (\<exists>pre post. es = pre @ data # post
          \<and> resp = fst (fsm_Apply ApplyAddNode ApplyRemoveNode (apply_log pre s) data)))"

text \<open>
  The voter configuration: listed with distinct identifiers; adding sets an address, removing
  takes the server out, and a change that fails leaves it alone.
\<close>

definition reconfigures :: "'r raft_api \<Rightarrow> ('r \<Rightarrow> (string \<times> string) list) \<Rightarrow> bool" where
  "reconfigures api conf \<longleftrightarrow>
     (\<forall>r. rf_GetConfiguration api r = Inr (conf r) \<and> distinct (map fst (conf r)))
   \<and> (\<forall>i a t r. map_of (conf (snd (rf_AddVoter api i a t r))) =
        (if fst (rf_AddVoter api i a t r) = None then (map_of (conf r))(i \<mapsto> a) else map_of (conf r)))
   \<and> (\<forall>i t r. map_of (conf (snd (rf_RemoveServer api i t r))) =
        (if fst (rf_RemoveServer api i t r) = None then (map_of (conf r))(i := None) else map_of (conf r)))"

section \<open>Properties\<close>

text \<open>
  Timeouts: whatever timeouts the options ask for, the leader lease stays positive and at
  most the heartbeat timeout, as the library requires, if that holds of its defaults; every
  positive timeout asked for is taken over, the others stay at the default.
\<close>

theorem raft_config_timeouts:
  assumes "0 < LeaderLeaseTimeout def" and "LeaderLeaseTimeout def \<le> HeartbeatTimeout def"
  shows "let cfg = raft_config ro def in
    0 < LeaderLeaseTimeout cfg \<and> LeaderLeaseTimeout cfg \<le> HeartbeatTimeout cfg
    \<and> HeartbeatTimeout cfg = (if 0 < ro_HeartbeatTimeout ro then ro_HeartbeatTimeout ro else HeartbeatTimeout def)
    \<and> ElectionTimeout cfg = (if 0 < ro_ElectionTimeout ro then ro_ElectionTimeout ro else ElectionTimeout def)
    \<and> CommitTimeout cfg = (if 0 < ro_CommitTimeout ro then ro_CommitTimeout ro else CommitTimeout def)
    \<and> LocalID cfg = ro_NodeID ro"
  using assms by (simp add: raft_config_def raft_heartbeat_def Let_def) presburger

definition default_config :: raft_Config where
  "default_config = \<lparr>LocalID = [], HeartbeatTimeout = second, ElectionTimeout = second,
     CommitTimeout = 50 * millisecond, LeaderLeaseTimeout = 500 * millisecond\<rparr>"

definition ro1 :: raft_Options where
  "ro1 = \<lparr>ro_NodeID = ''n1'', ro_Logger = True, ro_Bootstrap = True, ro_HeartbeatTimeout = 200 * millisecond,
     ro_ElectionTimeout = 0, ro_CommitTimeout = 0, ro_ApplyTimeout = second, ro_BindAddr = ''h:1'',
     ro_DataDir = ''d'', ro_SnapshotsRetained = 0\<rparr>"

theorem raft_config_timeouts_witness:
  "LeaderLeaseTimeout (raft_config ro1 default_config) = 100 * millisecond
   \<and> LeaderLeaseTimeout (raft_config ro1 default_config) \<le> HeartbeatTimeout (raft_config ro1 default_config)"
  using raft_config_timeouts [of default_config ro1]
  by (simp add: default_config_def Let_def) (simp add: raft_config_def raft_heartbeat_def ro1_def Let_def)

text \<open>Entries that come from commands of the cluster.\<close>

lemma apply_op_response:
  assumes "op_ok x"
  shows "fst (fsm_Apply ApplyAddNode ApplyRemoveNode s (op_bytes x)) = None \<longleftrightarrow>
    (case x of AddNode m \<Rightarrow> ID m \<noteq> [] | RemoveNode k \<Rightarrow> k \<noteq> [])"
  using assms
  by (cases x) (auto simp: fsm_Apply_op ApplyAddNode_def ApplyRemoveNode_def simp del: op_cmd.simps)

text \<open>
  C22. Writing through the consensus engine. A node that is not started, or does not lead,
  refuses and changes nothing. On a leader the command goes to the library as one entry, with
  the configured timeout when the caller gives none. If the library then reports success, the
  entry has been applied to the membership state at its place in the log, and \<open>Apply\<close> succeeds
  exactly when the command is not about the empty identifier; an error of the library is
  returned as it is.
\<close>

theorem node_Apply_spec:
  assumes "applies_entry api n" and "op_ok x" and "nd_ms n = Some s"
  shows "let (err, n') = node_Apply api (op_cmd x) timeout n in
    (case nd_r n of
       None \<Rightarrow> err = Some ''raftcons: not started'' \<and> n' = n
     | Some r \<Rightarrow>
         if \<not> rf_IsLeader api r then err = Some ''raftcons: not leader'' \<and> n' = n
         else (let t = (if timeout \<le> 0 \<and> ro_ApplyTimeout (nd_opts n) > 0 then ro_ApplyTimeout (nd_opts n) else timeout);
                   (res, es, r') = rf_Apply api (op_bytes x) t r
               in nd_r n' = Some r' \<and> nd_ms n' = Some (apply_log es s)
                  \<and> (case res of
                       Inl e \<Rightarrow> err = Some e
                     | Inr _ \<Rightarrow> (err = None \<longleftrightarrow> (case x of AddNode m \<Rightarrow> ID m \<noteq> [] | RemoveNode k \<Rightarrow> k \<noteq> []))
                         \<and> (\<exists>pre post. es = pre @ op_bytes x # post
                              \<and> nd_ms n' = Some (apply_log post (snd (fsm_Apply ApplyAddNode ApplyRemoveNode
                                   (apply_log pre s) (op_bytes x))))))))"
proof (cases "nd_r n")
  case (Some r)
  have e: "(case x of AddNode m \<Rightarrow> ID m \<noteq> [] | RemoveNode k \<Rightarrow> k \<noteq> []) \<longleftrightarrow> resp = None"
    "\<exists>pre post. es = pre @ op_bytes x # post
       \<and> apply_log es s = apply_log post (snd (fsm_Apply ApplyAddNode ApplyRemoveNode (apply_log pre s) (op_bytes x)))"
    if lib: "rf_Apply api (op_bytes x) t r = (Inr resp, es, r')" for t resp es r'
  proof -
    obtain pre post where pp: "es = pre @ op_bytes x # post"
      "resp = fst (fsm_Apply ApplyAddNode ApplyRemoveNode (apply_log pre s) (op_bytes x))"
      using assms(1,3) Some lib unfolding applies_entry_def by blast
    from pp(2) show "(case x of AddNode m \<Rightarrow> ID m \<noteq> [] | RemoveNode k \<Rightarrow> k \<noteq> []) \<longleftrightarrow> resp = None"
      using apply_op_response [OF assms(2)] by simp
    show "\<exists>pre post. es = pre @ op_bytes x # post
       \<and> apply_log es s = apply_log post (snd (fsm_Apply ApplyAddNode ApplyRemoveNode (apply_log pre s) (op_bytes x)))"
      by (rule exI [of _ pre], rule exI [of _ post]) (simp add: pp(1) replay_def)
  qed
  show ?thesis
    using Some assms(3) e
    by (auto simp: node_Apply_def fsm_entries_def Let_def split: prod.splits sum.splits simp del: op_cmd.simps)
qed (simp add: node_Apply_def)

text \<open>A library that applies each entry at once, with a log and a voter list.\<close>

type_synonym demo_raft = "State \<times> (string \<times> string) list"

definition demo_api :: "demo_raft raft_api" where
  "demo_api = \<lparr>rf_IsLeader = (\<lambda>_. True), rf_LeaderWithID = (\<lambda>_. (''h:1'', ''n1'')), rf_Stats = (\<lambda>_ _. ''7''),
     rf_Apply = (\<lambda>b t r. case fsm_Apply ApplyAddNode ApplyRemoveNode (fst r) b of (e, s) \<Rightarrow> (Inr e, [b], (s, snd r))),
     rf_Shutdown = (\<lambda>r. (None, r)), rf_GetConfiguration = (\<lambda>r. Inr (snd r)),
     rf_AddVoter = (\<lambda>i a t r. (None, (fst r, AList.update i a (snd r)))),
     rf_RemoveServer = (\<lambda>i t r. (None, (fst r, AList.delete i (snd r))))\<rparr>"

lemma demo_applies: "nd_r n = Some r \<Longrightarrow> nd_ms n = Some (fst r) \<Longrightarrow> applies_entry demo_api n"
  by (auto simp: applies_entry_def demo_api_def replay_def split: prod.splits intro!: exI [of _ "[]"])

definition demo_node :: "(string \<times> string) list \<Rightarrow> demo_raft Node" where
  "demo_node servers = \<lparr>nd_opts = ro1, nd_r = Some (New, servers), nd_lch = [], nd_addr = ''h:1'', nd_ms = Some New\<rparr>"

theorem node_Apply_spec_witness:
  "fst (node_Apply demo_api (op_cmd (RemoveNode ''n2'')) 0 (demo_node [])) = None"
proof -
  have a: "applies_entry demo_api (demo_node [])" "nd_ms (demo_node []) = Some New"
    by (rule demo_applies [where r = "(New, [])"]) (simp_all add: demo_node_def)
  have "op_ok (RemoveNode ''n2'')" by (simp add: valid_utf8_all_ascii)
  from node_Apply_spec [OF a(1) this a(2), of 0] show ?thesis
    by (auto simp: demo_node_def demo_api_def Let_def split: prod.splits simp del: op_cmd.simps)
qed

lemma node_AddVoter_conf:
  assumes "reconfigures api conf" and "nd_r n = Some r"
  shows "let (err, n') = node_AddVoter api i addr timeout n in
    \<exists>r'. nd_r n' = Some r'
      \<and> (err = None \<longrightarrow> map_of (conf r') = (map_of (conf r))(i \<mapsto> addr))
      \<and> (err \<noteq> None \<longrightarrow> map_of (conf r') = map_of (conf r)
           \<or> (\<exists>a. map_of (conf r) i = Some a \<and> a \<noteq> addr \<and> map_of (conf r') = (map_of (conf r))(i := None)))
      \<and> (map_of (conf r) i = Some addr \<longrightarrow> err = None \<and> n' = n)"
proof -
  have lib: "rf_GetConfiguration api q = Inr (conf q)"
    "\<And>i a t e q'. rf_AddVoter api i a t q = (e, q') \<Longrightarrow>
       map_of (conf q') = (if e = None then (map_of (conf q))(i \<mapsto> a) else map_of (conf q))"
    "\<And>i t e q'. rf_RemoveServer api i t q = (e, q') \<Longrightarrow>
       map_of (conf q') = (if e = None then (map_of (conf q))(i := None) else map_of (conf q))" for q
    using assms(1) unfolding reconfigures_def by (metis fst_conv snd_conv)+
  have f: "find (\<lambda>(sid, _). sid = i) xs = map_option (Pair i) (map_of xs i)" for xs :: "(string \<times> string) list"
    by (induction xs) auto
  show ?thesis
    using assms(2) lib(2,3)
    by (cases "map_of (conf r) i")
      (auto simp: node_AddVoter_def lib(1) f Let_def fun_upd_idem_iff split: prod.splits option.splits)
qed


lemma demo_reconfigures:
  "reconfigures (demo_api\<lparr>rf_GetConfiguration := (\<lambda>r. Inr (AList.clearjunk (snd r)))\<rparr>) (\<lambda>r. AList.clearjunk (snd r))"
  by (simp add: reconfigures_def demo_api_def distinct_clearjunk map_of_clearjunk update_conv' delete_conv')


lemma nd_lch_emit: "nd_lch (fold emitLeader lis n) = fold (try_send lch_cap) lis (nd_lch n)"
  by (induction lis arbitrary: n) (simp_all add: emitLeader_def)

text \<open>
  Reports of leaders. Reporting never blocks, and the channel never holds more than 16
  reports; of a series of reports that nobody reads, exactly the first ones that fit are kept,
  in order.
\<close>

theorem leader_reports_kept:
  assumes "length (nd_lch n) \<le> lch_cap"
  shows "node_LeaderCh (fold emitLeader lis n) = take lch_cap (nd_lch n @ lis)
    \<and> length (node_LeaderCh (fold emitLeader lis n)) \<le> 16"
  using assms by (simp add: node_LeaderCh_def nd_lch_emit fold_try_send) (simp add: lch_cap_def)

theorem leader_reports_kept_witness:
  "node_LeaderCh (fold emitLeader (replicate 16 \<lparr>LID = ''n1'', LAddr = [], LTerm = 1\<rparr> @ [\<lparr>LID = ''n2'', LAddr = [], LTerm = 2\<rparr>])
     (demo_node [])) = replicate 16 \<lparr>LID = ''n1'', LAddr = [], LTerm = 1\<rparr>"
  using leader_reports_kept [of "demo_node []" "replicate 16 \<lparr>LID = ''n1'', LAddr = [], LTerm = 1\<rparr>
      @ [\<lparr>LID = ''n2'', LAddr = [], LTerm = 2\<rparr>]"]
  by (simp add: demo_node_def lch_cap_def del: fold_append fold_replicate)

text \<open>
  A failed bootstrap, as a restart with a directory that already holds a cluster gives, leaves
  the instance running: \<open>Start\<close> reports the error once, and then success.
\<close>

lemma failed_bootstrap_is_running:
  assumes "nd_r n = None" and "ro_DataDir (nd_opts n) = []" and "ro_Bootstrap (nd_opts n)"
    and "node_transport env (nd_opts n) = Inr addr"
    and "e_NewRaft env (raft_config (nd_opts n) (e_DefaultConfig env)) addr = Inr r"
    and "e_BootstrapCluster env [(ro_NodeID (nd_opts n), addr)] r = (Some err, r')"
  shows "fst (node_Start env n) = Some err \<and> node_Start env (snd (node_Start env n)) = (None, snd (node_Start env n))"
  using assms
  by (simp add: node_Start_def node_stores_def node_bootstrap_def Let_def)
    (simp add: raft_config_def raft_heartbeat_def Let_def)

end
