(* ===== verification/Memberlist.thy ===== *)
theory Memberlist
  imports Replication
begin

text \<open>
  \<open>pkg/membership/memberlist/memberlist.go\<close>: the membership layer over the hashicorp
  memberlist library. The library is a parameter (\<open>ml_lib\<close>, over the state \<open>'m\<close> of an
  instance); what it calls back (the event and node delegates) is modelled.
\<close>

section \<open>Options, configuration and the library\<close>

record ml_Options =
  lo_NodeID :: string
  lo_Bind :: string
  lo_Advertise :: string
  lo_Meta :: "(string, string) gomap option"
  lo_Logger :: bool
  lo_ProbeInterval :: duration
  lo_ProbeTimeout :: duration
  lo_SuspicionMult :: int

text \<open>The part of the library's configuration the code sets.\<close>

record ml_Config =
  Name :: string
  BindAddr :: string
  BindPort :: int
  AdvertiseAddr :: string
  AdvertisePort :: int
  ProbeInterval :: duration
  ProbeTimeout :: duration
  SuspicionMult :: int
  DelegateMeta :: bytes

text \<open>A node as the library reports it; \<open>mn_Host\<close> is its address as \<open>net.IP.String\<close> prints it.\<close>

record ml_Node =
  mn_Name :: string
  mn_Host :: string
  mn_Port :: "16 word"
  mn_Meta :: bytes

record 'm ml_lib =
  l_DefaultLANConfig :: ml_Config
  l_Create :: "ml_Config \<Rightarrow> gerror + 'm"
  l_Join :: "string list \<Rightarrow> 'm \<Rightarrow> gerror option \<times> 'm"
  l_LocalNode :: "'m \<Rightarrow> ml_Node"
  l_Members :: "'m \<Rightarrow> ml_Node list"
  l_Leave :: "duration \<Rightarrow> 'm \<Rightarrow> 'm"
  l_GetHealthScore :: "'m \<Rightarrow> int"

section \<open>The implementation\<close>

record 'm ml_impl =
  i_opts :: ml_Options
  i_ml :: "'m option"
  i_evts :: "Event list"
  i_evts_closed :: bool
  i_closed :: bool

definition evts_cap :: nat where
  "evts_cap = 64"

definition ml_New :: "ml_Options \<Rightarrow> gerror + 'm ml_impl" where
  "ml_New lo =
     (if lo_NodeID lo = [] then Inl ''memberlist: empty NodeID''
      else if lo_Bind lo = [] then Inl ''memberlist: empty Bind address''
      else Inr \<lparr>i_opts = lo\<lparr>lo_Logger := True\<rparr>, i_ml = None, i_evts = [], i_evts_closed = False, i_closed = False\<rparr>)"

text \<open>\<open>q\<close> is the \<open>%q\<close> verb of \<open>fmt\<close>, used in messages only.\<close>

definition parsePort :: "(string \<Rightarrow> string) \<Rightarrow> string \<Rightarrow> gerror + int" where
  "parsePort q s =
     (case Sscanf_d s of
        None \<Rightarrow> Inl (''invalid port: '' @ q s)
      | Some p \<Rightarrow> if p < 0 \<or> p > 65535 then Inl (''invalid port: '' @ q s) else Inr p)"

definition ml_address :: "(string \<Rightarrow> string) \<Rightarrow> string \<Rightarrow> string \<Rightarrow> gerror + (string \<times> int)" where
  "ml_address q what addr =
     (case SplitHostPort addr of
        Inl err \<Rightarrow> Inl (''memberlist: invalid '' @ what @ '' address '' @ q addr @ '': '' @ err)
      | Inr (host, port) \<Rightarrow>
          (case parsePort q port of Inl err \<Rightarrow> Inl err | Inr p \<Rightarrow> Inr (host, p)))"

definition ml_config :: "(string \<Rightarrow> string) \<Rightarrow> ml_Config \<Rightarrow> ml_Options \<Rightarrow> gerror + ml_Config" where
  "ml_config q def lo =
     (let cfg = def\<lparr>Name := lo_NodeID lo\<rparr>
      in case ml_address q ''bind'' (lo_Bind lo) of
           Inl err \<Rightarrow> Inl err
         | Inr (host, port) \<Rightarrow>
             (let cfg1 = cfg\<lparr>BindAddr := host, BindPort := port\<rparr>;
                  adv = (if lo_Advertise lo \<noteq> []
                         then (case ml_address q ''advertise'' (lo_Advertise lo) of
                             Inl err \<Rightarrow> Inl err
                           | Inr (ahost, aport) \<Rightarrow> Inr (cfg1\<lparr>AdvertiseAddr := ahost, AdvertisePort := aport\<rparr>))
                         else Inr cfg1)
              in case adv of
                   Inl err \<Rightarrow> Inl err
                 | Inr cfg2 \<Rightarrow>
                     (let cfg3 = (if lo_ProbeInterval lo > 0 then cfg2\<lparr>ProbeInterval := lo_ProbeInterval lo\<rparr> else cfg2);
                          cfg4 = (if lo_ProbeTimeout lo > 0 then cfg3\<lparr>ProbeTimeout := lo_ProbeTimeout lo\<rparr> else cfg3);
                          cfg5 = (if lo_SuspicionMult lo > 0 then cfg4\<lparr>SuspicionMult := lo_SuspicionMult lo\<rparr> else cfg4)
                      in Inr (cfg5\<lparr>DelegateMeta := Marshal (enc_map (lo_Meta lo))\<rparr>))))"

definition ml_Start :: "(string \<Rightarrow> string) \<Rightarrow> 'm ml_lib \<Rightarrow> 'm ml_impl \<Rightarrow> gerror option \<times> 'm ml_impl" where
  "ml_Start q lib m =
     (if i_ml m \<noteq> None then (None, m)
      else (case ml_config q (l_DefaultLANConfig lib) (i_opts m) of
          Inl err \<Rightarrow> (Some err, m)
        | Inr cfg \<Rightarrow> (case l_Create lib cfg of
              Inl err \<Rightarrow> (Some err, m)
            | Inr x \<Rightarrow> (None, m\<lparr>i_ml := Some x\<rparr>))))"

definition ml_Join :: "'m ml_lib \<Rightarrow> string list \<Rightarrow> 'm ml_impl \<Rightarrow> gerror option \<times> 'm ml_impl" where
  "ml_Join lib seeds m =
     (case i_ml m of
        None \<Rightarrow> (Some ''memberlist: not started'', m)
      | Some x \<Rightarrow> if seeds = [] then (None, m)
                  else (case l_Join lib seeds x of (err, x') \<Rightarrow> (err, m\<lparr>i_ml := Some x'\<rparr>)))"

text \<open>Metadata travels as a JSON object; what cannot be decoded is ignored.\<close>

definition node_meta :: "bytes \<Rightarrow> (string, string) gomap option" where
  "node_meta b = (if b \<noteq> [] then fst (Unmarshal dec_map b (Some [])) else Some [])"

definition node_addr :: "ml_Node \<Rightarrow> string" where
  "node_addr n = JoinHostPort (mn_Host n) (Itoa (uint (mn_Port n)))"

definition member_of :: "ml_Node \<Rightarrow> MemberInfo" where
  "member_of n = \<lparr>ID = mn_Name n, Addr = node_addr n, Meta = node_meta (mn_Meta n)\<rparr>"

definition ml_Local :: "'m ml_lib \<Rightarrow> 'm ml_impl \<Rightarrow> MemberInfo" where
  "ml_Local lib m =
     (case i_ml m of
        None \<Rightarrow> zero_MemberInfo
      | Some x \<Rightarrow>
          (let n = l_LocalNode lib x;
               meta = (if mn_Meta n \<noteq> [] then node_meta (mn_Meta n)
                       else case lo_Meta (i_opts m) of Some mt \<Rightarrow> Some mt | None \<Rightarrow> Some [])
           in \<lparr>ID = mn_Name n, Addr = node_addr n, Meta = meta\<rparr>))"

definition ml_Members :: "'m ml_lib \<Rightarrow> 'm ml_impl \<Rightarrow> MemberInfo list" where
  "ml_Members lib m = (case i_ml m of None \<Rightarrow> [] | Some x \<Rightarrow> map member_of (l_Members lib x))"

definition ml_Leave :: "'m ml_lib \<Rightarrow> 'm ml_impl \<Rightarrow> 'm ml_impl" where
  "ml_Leave lib m = (case i_ml m of None \<Rightarrow> m | Some x \<Rightarrow> m\<lparr>i_ml := Some (l_Leave lib second x)\<rparr>)"

text \<open>The outer \<open>None\<close> would be the panic of closing a closed channel.\<close>

definition ml_Stop :: "'m ml_impl \<Rightarrow> 'm ml_impl option" where
  "ml_Stop m =
     (if i_closed m then Some m
      else if i_evts_closed m then None
      else Some (m\<lparr>i_closed := True, i_ml := None, i_evts_closed := True\<rparr>))"

definition ml_HealthScore :: "'m ml_lib \<Rightarrow> 'm ml_impl \<Rightarrow> int" where
  "ml_HealthScore lib m = (case i_ml m of None \<Rightarrow> - 1 | Some x \<Rightarrow> l_GetHealthScore lib x)"

text \<open>Sending on the closed channel panics, and the deferred \<open>recover\<close> swallows the panic.\<close>

definition ml_emit :: "Event \<Rightarrow> 'm ml_impl \<Rightarrow> 'm ml_impl" where
  "ml_emit e m = (if i_evts_closed m then m else m\<lparr>i_evts := try_send evts_cap e (i_evts m)\<rparr>)"

definition NotifyJoin :: "time \<Rightarrow> ml_Node option \<Rightarrow> 'm ml_impl \<Rightarrow> 'm ml_impl" where
  "NotifyJoin now n m =
     (case n of None \<Rightarrow> m | Some x \<Rightarrow> ml_emit \<lparr>Type = EventJoin, Member = member_of x, At = now\<rparr> m)"

definition NotifyLeave :: "time \<Rightarrow> ml_Node option \<Rightarrow> 'm ml_impl \<Rightarrow> 'm ml_impl" where
  "NotifyLeave now n m =
     (case n of None \<Rightarrow> m | Some x \<Rightarrow> ml_emit \<lparr>Type = EventLeave, Member = member_of x, At = now\<rparr> m)"

definition NotifyUpdate :: "time \<Rightarrow> ml_Node option \<Rightarrow> 'm ml_impl \<Rightarrow> 'm ml_impl" where
  "NotifyUpdate now n m =
     (case n of None \<Rightarrow> m | Some x \<Rightarrow> ml_emit \<lparr>Type = EventJoin, Member = member_of x, At = now\<rparr> m)"

definition NodeMeta :: "bytes \<Rightarrow> int \<Rightarrow> bytes" where
  "NodeMeta meta limit =
     (if int (length meta) \<le> limit then meta else if limit \<le> 0 then [] else take (nat limit) meta)"

section \<open>Behaviour over time\<close>

text \<open>
  Everything that happens to an instance, in any order: calls of the cluster, callbacks of the
  library from its own goroutines, and the consumer reading an event.
\<close>

inductive ml_step :: "(string \<Rightarrow> string) \<Rightarrow> 'm ml_lib \<Rightarrow> 'm ml_impl \<Rightarrow> 'm ml_impl \<Rightarrow> bool"
  for q :: "string \<Rightarrow> string" and lib :: "'m ml_lib" where
  start: "ml_step q lib m (snd (ml_Start q lib m))"
| join: "ml_step q lib m (snd (ml_Join lib seeds m))"
| leave: "ml_step q lib m (ml_Leave lib m)"
| stop: "ml_Stop m = Some m' \<Longrightarrow> ml_step q lib m m'"
| notify_join: "ml_step q lib m (NotifyJoin now n m)"
| notify_leave: "ml_step q lib m (NotifyLeave now n m)"
| notify_update: "ml_step q lib m (NotifyUpdate now n m)"
| receive: "ml_step q lib m (m\<lparr>i_evts := tl (i_evts m)\<rparr>)"

definition ml_inv :: "'m ml_impl \<Rightarrow> bool" where
  "ml_inv m \<longleftrightarrow> (i_evts_closed m \<longleftrightarrow> i_closed m) \<and> length (i_evts m) \<le> evts_cap"

lemma ml_step_inv: "ml_step q lib m m' \<Longrightarrow> ml_inv m \<Longrightarrow> ml_inv m'"
proof (induction rule: ml_step.induct)
  case (stop m m')
  then show ?case by (auto simp: ml_Stop_def ml_inv_def split: if_splits)
qed (auto simp: NotifyJoin_def NotifyLeave_def NotifyUpdate_def ml_emit_def try_send_bound ml_Start_def ml_Join_def ml_Leave_def
    ml_inv_def split: option.splits sum.splits prod.splits)

lemma ml_steps_inv: "(ml_step q lib)\<^sup>*\<^sup>* m m' \<Longrightarrow> ml_inv m \<Longrightarrow> ml_inv m'"
  by (induction rule: rtranclp_induct) (auto intro: ml_step_inv)

lemma ml_New_inv: "ml_New lo = Inr m \<Longrightarrow> ml_inv m"
  by (auto simp: ml_New_def ml_inv_def split: if_splits)

text \<open>A stopped instance stays stopped, and its channel only drains.\<close>

lemma ml_step_closed:
  "ml_step q lib m m' \<Longrightarrow> ml_inv m \<Longrightarrow> i_closed m \<Longrightarrow> i_closed m' \<and> suffix (i_evts m') (i_evts m)"
proof (induction rule: ml_step.induct)
  case (receive m)
  then show ?case by (cases "i_evts m") (auto simp: suffix_Cons)
qed (auto simp: NotifyJoin_def NotifyLeave_def NotifyUpdate_def ml_emit_def ml_Start_def ml_Join_def ml_Leave_def
    ml_Stop_def ml_inv_def split: option.splits sum.splits prod.splits)

lemma ml_steps_closed:
  "(ml_step q lib)\<^sup>*\<^sup>* m m' \<Longrightarrow> ml_inv m \<Longrightarrow> i_closed m \<Longrightarrow> i_closed m' \<and> suffix (i_evts m') (i_evts m)"
proof (induction rule: rtranclp_induct)
  case (step y z)
  then show ?case
    using ml_step_closed [of q lib y z] ml_steps_inv [of q lib m y] by (auto intro: suffix_order.order_trans)
qed simp

text \<open>The event a callback of the library stands for.\<close>

datatype notice = NJoin | NLeave | NUpdate

definition ml_notify :: "notice \<times> time \<times> ml_Node \<Rightarrow> 'm ml_impl \<Rightarrow> 'm ml_impl" where
  "ml_notify x m = (case x of
      (NJoin, now, n) \<Rightarrow> NotifyJoin now (Some n) m
    | (NLeave, now, n) \<Rightarrow> NotifyLeave now (Some n) m
    | (NUpdate, now, n) \<Rightarrow> NotifyUpdate now (Some n) m)"

definition note_event :: "notice \<times> time \<times> ml_Node \<Rightarrow> Event" where
  "note_event x = (case x of (k, now, n) \<Rightarrow>
     \<lparr>Type = (if k = NLeave then EventLeave else EventJoin), Member = member_of n, At = now\<rparr>)"

lemma ml_notify_emit: "ml_notify x m = ml_emit (note_event x) m"
  by (auto simp: ml_notify_def note_event_def NotifyJoin_def NotifyLeave_def NotifyUpdate_def
      split: prod.splits notice.splits)

lemma notify_all:
  "\<not> i_evts_closed m \<Longrightarrow> fold ml_notify xs m = m\<lparr>i_evts := fold (try_send evts_cap) (map note_event xs) (i_evts m)\<rparr>"
  by (induction xs arbitrary: m) (simp_all add: ml_notify_emit ml_emit_def)

section \<open>Properties\<close>

text \<open>
  C31. Membership events under concurrency. In whatever order the cluster and the library use an
  instance, from its construction on: stopping never panics, at most 64 events are waiting, and
  once it is stopped it stays stopped and no event is added to the channel, however many
  callbacks still arrive. As long as it is not stopped, of a series of callbacks that nobody
  reads exactly the first that fit are kept, in order, joins and updates as join events and
  departures of any kind as leave events.
\<close>

theorem membership_events_safe:
  assumes "ml_New lo = Inr m" and "(ml_step q lib)\<^sup>*\<^sup>* m m'"
  shows "ml_Stop m' \<noteq> None \<and> length (i_evts m') \<le> 64
    \<and> (i_closed m' \<longrightarrow> (\<forall>m''. (ml_step q lib)\<^sup>*\<^sup>* m' m'' \<longrightarrow> i_closed m'' \<and> suffix (i_evts m'') (i_evts m')))
    \<and> (\<not> i_closed m' \<longrightarrow> i_evts (fold ml_notify xs m') = take 64 (i_evts m' @ map note_event xs))"
proof -
  have i: "ml_inv m'" using ml_New_inv [OF assms(1)] ml_steps_inv [OF assms(2)] by blast
  then have c: "i_evts_closed m' = i_closed m'" "length (i_evts m') \<le> evts_cap" by (simp_all add: ml_inv_def)
  have "i_evts (fold ml_notify xs m') = take 64 (i_evts m' @ map note_event xs)" if "\<not> i_closed m'"
    using that c by (simp add: notify_all fold_try_send) (simp add: evts_cap_def)
  then show ?thesis
    using c ml_steps_closed [OF _ i] by (auto simp: ml_Stop_def evts_cap_def)
qed

definition lo1 :: ml_Options where
  "lo1 = \<lparr>lo_NodeID = ''n1'', lo_Bind = ''h:7946'', lo_Advertise = [], lo_Meta = Some [(''mgmt'', ''h:1'')],
     lo_Logger = True, lo_ProbeInterval = 0, lo_ProbeTimeout = 0, lo_SuspicionMult = 0\<rparr>"

definition lib1 :: "unit ml_lib" where
  "lib1 = \<lparr>l_DefaultLANConfig = \<lparr>Name = [], BindAddr = [], BindPort = 7946, AdvertiseAddr = [], AdvertisePort = 7946,
       ProbeInterval = second, ProbeTimeout = 500 * millisecond, SuspicionMult = 4, DelegateMeta = []\<rparr>,
     l_Create = (\<lambda>_. Inr ()), l_Join = (\<lambda>_ x. (None, x)), l_LocalNode = (\<lambda>_. \<lparr>mn_Name = ''n1'', mn_Host = ''h'', mn_Port = 7946, mn_Meta = []\<rparr>),
     l_Members = (\<lambda>_. []), l_Leave = (\<lambda>_ x. x), l_GetHealthScore = (\<lambda>_. 0)\<rparr>"

definition impl1 :: "unit ml_impl" where
  "impl1 = \<lparr>i_opts = lo1, i_ml = None, i_evts = [], i_evts_closed = False, i_closed = False\<rparr>"

definition peer1 :: ml_Node where
  "peer1 = \<lparr>mn_Name = ''n2'', mn_Host = ''10.0.0.2'', mn_Port = 7946, mn_Meta = []\<rparr>"

theorem membership_events_safe_witness:
  "let m = NotifyLeave 5 (Some peer1) impl1
   in ml_Stop m \<noteq> None \<and> i_evts (ml_notify (NUpdate, 6, peer1) m) =
        [\<lparr>Type = EventLeave, Member = member_of peer1, At = 5\<rparr>, \<lparr>Type = EventJoin, Member = member_of peer1, At = 6\<rparr>]"
proof -
  have n: "ml_New lo1 = Inr impl1" by (simp add: ml_New_def lo1_def impl1_def)
  have s: "(ml_step (\<lambda>s. s) lib1)\<^sup>*\<^sup>* impl1 (NotifyLeave 5 (Some peer1) impl1)"
    by (rule r_into_rtranclp, rule ml_step.notify_leave)
  show ?thesis
    using membership_events_safe [OF n s, of "[(NUpdate, 6, peer1)]"]
    by (simp add: Let_def NotifyLeave_def ml_emit_def impl1_def try_send_def evts_cap_def note_event_def)
qed

lemma ml_address_ok:
  assumes "CHR ''['' \<notin> set h" and "CHR '']'' \<notin> set h" and "p < 65536"
  shows "ml_address q what (JoinHostPort h (show_nat p)) = Inr (h, int p)"
proof -
  have "is_digit c" if "c \<in> set (show_nat p)" for c using that show_nat_digits by simp
  then have "SplitHostPort (JoinHostPort h (show_nat p)) = Inr (h, show_nat p)"
    using assms(1,2) by (intro SplitHostPort_JoinHostPort) (auto dest: is_digit_neq)
  then show ?thesis
    using Sscanf_d_show [of p "[]"] assms(3) by (simp add: ml_address_def parsePort_def)
qed

lemma node_meta_enc:
  assumes "gm_wf kvs" and "list_all (\<lambda>(k, v). valid_utf8 k \<and> valid_utf8 v) kvs"
  shows "node_meta (Marshal (enc_map (Some kvs))) = Some kvs"
proof -
  have "json_ok (enc_map (Some kvs))" using assms(2) by (intro json_ok_enc_map) simp
  moreover have "dec_map (enc_map (Some kvs)) (Some []) = dec_map (enc_map (Some kvs)) None" by (simp add: enc_map_def)
  moreover have "Marshal (enc_map (Some kvs)) \<noteq> []" by (simp add: enc_map_def show_json.simps)
  ultimately show ?thesis
    using assms(1) dec_enc_map [of "Some kvs"] by (simp add: node_meta_def Unmarshal_Marshal Let_def)
qed

lemma ml_config_meta: "ml_config q def lo = Inr cfg \<Longrightarrow> DelegateMeta cfg = Marshal (enc_map (lo_Meta lo))"
  by (auto simp: ml_config_def Let_def split: sum.splits prod.splits if_splits)

text \<open>
  Metadata reaches the peers. If the metadata of a node fits the limit the library allows,
  then what a peer lists for that node (given that gossip carries the bytes of \<open>NodeMeta\<close>) is
  exactly the configured metadata; in particular a peer sends management requests to the
  configured management address.
\<close>

theorem metadata_reaches_peers:
  assumes "ml_config q def lo = Inr cfg" and "lo_Meta lo = Some kvs" and "gm_wf kvs"
    and "list_all (\<lambda>(k, v). valid_utf8 k \<and> valid_utf8 v) kvs"
    and "int (length (DelegateMeta cfg)) \<le> limit"
    and "mn_Meta n = NodeMeta (DelegateMeta cfg) limit"
  shows "Meta (member_of n) = Some kvs
    \<and> (\<forall>a. gm_get kvs ''mgmt'' = Some a \<and> a \<noteq> [] \<longrightarrow> mgmt_addr (member_of n) = a)"
proof -
  have "mn_Meta n = Marshal (enc_map (Some kvs))"
    using assms(5,6) ml_config_meta [OF assms(1)] assms(2) by (simp add: NodeMeta_def)
  then have "Meta (member_of n) = Some kvs"
    using node_meta_enc [OF assms(3,4)] by (simp add: member_of_def)
  then show ?thesis by (simp add: mgmt_addr_def)
qed

theorem metadata_reaches_peers_witness:
  "let cfg = (l_DefaultLANConfig lib1)\<lparr>Name := ''n1'', BindAddr := ''h'', BindPort := 7946,
         DelegateMeta := Marshal (enc_map (Some [(''mgmt'', ''h:1'')]))\<rparr>
   in mgmt_addr (member_of (peer1\<lparr>mn_Meta := NodeMeta (DelegateMeta cfg) 512\<rparr>)) = ''h:1''"
proof -
  let ?cfg = "(l_DefaultLANConfig lib1)\<lparr>Name := ''n1'', BindAddr := ''h'', BindPort := 7946,
     DelegateMeta := Marshal (enc_map (Some [(''mgmt'', ''h:1'')]))\<rparr>"
  have "ml_address q ''bind'' ''h:7946'' = Inr (''h'', 7946)" for q
    using ml_address_ok [of "''h''" 7946 q "''bind''"]
    by (simp add: JoinHostPort_def show_nat.simps digits)
  then have c: "ml_config (\<lambda>s. s) (l_DefaultLANConfig lib1) lo1 = Inr ?cfg"
    by (simp add: ml_config_def lo1_def Let_def)
  have v: "valid_utf8 ''mgmt''" "valid_utf8 ''h:1''" by (simp_all add: valid_utf8_all_ascii)
  have l: "int (length (DelegateMeta ?cfg)) \<le> 512"
    by (simp add: enc_map_def show_json.simps quote_def quote_body.simps esc_def)
  show ?thesis
    using metadata_reaches_peers [OF c _ _ _ l, where n = "peer1\<lparr>mn_Meta := NodeMeta (DelegateMeta ?cfg) 512\<rparr>"] v
    by (simp add: lo1_def)
qed

text \<open>
  Starting the membership layer. A bind address and an advertise address that are a host
  without brackets and a port below 65536 are taken apart again into exactly that host and
  port, and every positive tuning parameter is taken over; the instance starts if the library
  creates it. Starting twice creates nothing new.
\<close>

theorem ml_Start_spec:
  assumes "lo_Bind (i_opts m) = JoinHostPort h (show_nat p)" and "p < 65536"
    and "CHR ''['' \<notin> set h" and "CHR '']'' \<notin> set h"
    and "lo_Advertise (i_opts m) = [] \<or> lo_Advertise (i_opts m) = JoinHostPort ah (show_nat ap)"
    and "ap < 65536" and "CHR ''['' \<notin> set ah" and "CHR '']'' \<notin> set ah" and "i_ml m = None"
  shows "\<exists>cfg. Name cfg = lo_NodeID (i_opts m) \<and> BindAddr cfg = h \<and> BindPort cfg = int p
    \<and> (lo_Advertise (i_opts m) \<noteq> [] \<longrightarrow> AdvertiseAddr cfg = ah \<and> AdvertisePort cfg = int ap)
    \<and> (0 < lo_ProbeInterval (i_opts m) \<longrightarrow> ProbeInterval cfg = lo_ProbeInterval (i_opts m))
    \<and> (0 < lo_ProbeTimeout (i_opts m) \<longrightarrow> ProbeTimeout cfg = lo_ProbeTimeout (i_opts m))
    \<and> (0 < lo_SuspicionMult (i_opts m) \<longrightarrow> SuspicionMult cfg = lo_SuspicionMult (i_opts m))
    \<and> (case l_Create lib cfg of
         Inl err \<Rightarrow> ml_Start q lib m = (Some err, m)
       | Inr x \<Rightarrow> ml_Start q lib m = (None, m\<lparr>i_ml := Some x\<rparr>)
           \<and> ml_Start q lib (m\<lparr>i_ml := Some x\<rparr>) = (None, m\<lparr>i_ml := Some x\<rparr>))"
proof -
  let ?o = "i_opts m" and ?def = "l_DefaultLANConfig lib"
  let ?c1 = "?def\<lparr>Name := lo_NodeID ?o, BindAddr := h, BindPort := int p\<rparr>"
  define c2 where "c2 = (if lo_Advertise ?o = [] then ?c1 else ?c1\<lparr>AdvertiseAddr := ah, AdvertisePort := int ap\<rparr>)"
  define c3 where "c3 = (if lo_ProbeInterval ?o > 0 then c2\<lparr>ProbeInterval := lo_ProbeInterval ?o\<rparr> else c2)"
  define c4 where "c4 = (if lo_ProbeTimeout ?o > 0 then c3\<lparr>ProbeTimeout := lo_ProbeTimeout ?o\<rparr> else c3)"
  define c5 where "c5 = (if lo_SuspicionMult ?o > 0 then c4\<lparr>SuspicionMult := lo_SuspicionMult ?o\<rparr> else c4)"
  let ?cfg = "c5\<lparr>DelegateMeta := Marshal (enc_map (lo_Meta ?o))\<rparr>"
  have b: "ml_address q ''bind'' (lo_Bind ?o) = Inr (h, int p)" using assms by (simp add: ml_address_ok)
  have a: "lo_Advertise ?o = [] \<or> ml_address q ''advertise'' (lo_Advertise ?o) = Inr (ah, int ap)"
    using assms by (auto simp: ml_address_ok)
  have "ml_config q ?def ?o = Inr ?cfg"
    using a by (auto simp: ml_config_def b Let_def c2_def c3_def c4_def c5_def)
  moreover have "Name ?cfg = lo_NodeID ?o \<and> BindAddr ?cfg = h \<and> BindPort ?cfg = int p
    \<and> (lo_Advertise ?o \<noteq> [] \<longrightarrow> AdvertiseAddr ?cfg = ah \<and> AdvertisePort ?cfg = int ap)"
    by (simp add: c2_def c3_def c4_def c5_def)
  moreover have "(0 < lo_ProbeInterval ?o \<longrightarrow> ProbeInterval ?cfg = lo_ProbeInterval ?o)
    \<and> (0 < lo_ProbeTimeout ?o \<longrightarrow> ProbeTimeout ?cfg = lo_ProbeTimeout ?o)
    \<and> (0 < lo_SuspicionMult ?o \<longrightarrow> SuspicionMult ?cfg = lo_SuspicionMult ?o)"
    by (simp add: c2_def c3_def c4_def c5_def)
  ultimately show ?thesis
    using assms(9) by (intro exI [of _ ?cfg]) (simp add: ml_Start_def split: sum.splits)
qed

theorem ml_Start_spec_witness: "ml_Start (\<lambda>s. s) lib1 impl1 = (None, impl1\<lparr>i_ml := Some ()\<rparr>)"
proof -
  have "lo_Bind (i_opts impl1) = JoinHostPort ''h'' (show_nat 7946)" "lo_Advertise (i_opts impl1) = []" "i_ml impl1 = None"
    by (simp_all add: impl1_def lo1_def JoinHostPort_def show_nat.simps digits)
  then show ?thesis
    using ml_Start_spec [where m = impl1 and h = "''h''" and p = 7946 and ah = "[]" and ap = 0 and lib = lib1 and q = "\<lambda>s. s"]
    by (auto simp: lib1_def)
qed

section \<open>Boundary behaviour\<close>

text \<open>A port is read up to the first byte that is no digit; what follows it is accepted.\<close>

lemma parsePort_ignores_rest:
  assumes "p < 65536" and "rest = [] \<or> \<not> is_digit (hd rest)"
  shows "parsePort q (show_nat p @ rest) = Inr (int p)"
  using assms Sscanf_d_show [of p rest] by (simp add: parsePort_def)

text \<open>
  An instance that is started again after \<open>Stop\<close> runs, but its events are lost and it cannot be
  stopped any more.
\<close>

lemma restart_after_stop:
  assumes "ml_inv m" and "ml_Stop m = Some m1" and "ml_Start q lib m1 = (None, m2)"
  shows "ml_Stop m2 = Some m2 \<and> i_evts (NotifyJoin now (Some n) m2) = i_evts m2"
proof -
  have "i_closed m2" "i_evts_closed m2"
    using assms by (auto simp: ml_inv_def ml_Stop_def ml_Start_def split: if_splits sum.splits)
  then show ?thesis by (simp add: ml_Stop_def NotifyJoin_def ml_emit_def)
qed

text \<open>
  Metadata over the limit is cut in the middle of the JSON text, so that a peer sees none of it
  and falls back to the gossip address for management requests.
\<close>

lemma truncated_metadata_lost:
  "let meta = Marshal (enc_map (Some [(''mgmt'', ''h:1'')]));
       n = peer1\<lparr>mn_Meta := NodeMeta meta 10\<rparr>
   in Meta (member_of n) = Some [] \<and> mgmt_addr (member_of n) = ''10.0.0.2:7946''"
proof -
  have m: "NodeMeta (Marshal (enc_map (Some [(''mgmt'', ''h:1'')]))) 10 = CHR ''{'' # CHR 0x22 # ''mgmt'' @ [CHR 0x22, CHR '':'', CHR 0x22, CHR ''h'']"
    by (simp add: NodeMeta_def enc_map_def show_json.simps quote_def quote_body.simps esc_def)
  have j: "json_parse (CHR ''{'' # CHR 0x22 # ''mgmt'' @ [CHR 0x22, CHR '':'', CHR 0x22, CHR ''h'']) = None"
    by code_simp
  have "node_meta (NodeMeta (Marshal (enc_map (Some [(''mgmt'', ''h:1'')]))) 10) = Some []"
    unfolding m node_meta_def Unmarshal_def j by simp
  then show ?thesis
    by (simp add: member_of_def mgmt_addr_def node_addr_def peer1_def JoinHostPort_def Itoa_def show_nat.simps digits)
qed

end
