(* ===== verification/HttpJson.thy ===== *)
theory HttpJson
  imports GrpcMgmt
begin

text \<open>
  \<open>pkg/transport/httpjson\<close>: the management API over HTTP, \<open>server.go\<close> and \<open>client.go\<close>. The
  functions given to \<open>Start\<close> are functions over a world \<open>'w\<close> and return a response and an
  error, as in Go. \<open>net/http\<close> is a parameter where it moves bytes: \<open>x_Do\<close> sends a request and
  brings an error or a response back. It also takes and returns what is left of the request's
  body, because the client uses one request, with one body reader, for all its attempts.
\<close>

section \<open>Requests and responses\<close>

record http_req =
  hq_Method :: string
  hq_URL :: string
  hq_Path :: string

record http_resp =
  hr_Status :: int
  hr_Body :: bytes
  hr_ReadErr :: "gerror option"

definition http_Error :: "string \<Rightarrow> int \<Rightarrow> http_resp" where
  "http_Error msg code = \<lparr>hr_Status = code, hr_Body = msg @ [CHR 0x0A], hr_ReadErr = None\<rparr>"

definition http_reply :: "int \<Rightarrow> bytes \<Rightarrow> http_resp" where
  "http_reply code b = \<lparr>hr_Status = code, hr_Body = b, hr_ReadErr = None\<rparr>"

section \<open>The server\<close>

type_synonym ('w, 'q, 'r) http_func = "'q \<Rightarrow> 'w \<Rightarrow> ('r \<times> gerror option) \<times> 'w"

record 'w http_funcs =
  h_status :: "'w \<Rightarrow> (bytes \<times> gerror option) \<times> 'w"
  h_join :: "('w, JoinRequest, JoinResponse) http_func option"
  h_leave :: "('w, LeaveRequest, LeaveResponse) http_func option"
  h_appWrite :: "('w, AppWriteRequest, AppWriteResponse) http_func option"
  h_appSync :: "('w, AppSyncRequest, AppSyncResponse) http_func option"
  h_metrics :: "http_req \<Rightarrow> 'w \<Rightarrow> http_resp \<times> 'w"

type_synonym 'w http_handler = "http_req \<Rightarrow> bytes \<Rightarrow> 'w \<Rightarrow> http_resp \<times> 'w"

definition http_status :: "'w http_funcs \<Rightarrow> 'w http_handler" where
  "http_status f r body w =
     (if hq_Method r \<noteq> ''GET'' then (http_Error ''method not allowed'' 405, w)
      else (case h_status f w of
          ((_, Some err), w') \<Rightarrow> (http_Error (''status error: '' @ err) 500, w')
        | ((data, None), w') \<Rightarrow> (http_reply 200 data, w')))"

definition http_healthz :: "'w http_handler" where
  "http_healthz r body w =
     (if hq_Method r \<noteq> ''GET'' then (http_Error ''method not allowed'' 405, w) else (http_reply 200 ''ok'', w))"

text \<open>
  The four POST endpoints share their shape; they differ in the types, the name in the
  \<open>not supported\<close> message, and in what an error does to the response (\<open>on_err\<close>).
\<close>

definition http_post_handler ::
  "string \<Rightarrow> 'q field list \<Rightarrow> 'q \<Rightarrow> ('r \<Rightarrow> json) \<Rightarrow> (gerror \<Rightarrow> 'r \<Rightarrow> 'r) \<Rightarrow> ('w, 'q, 'r) http_func option \<Rightarrow>
   'w http_handler" where
  "http_post_handler name fs z enc on_err f r body w =
     (if hq_Method r \<noteq> ''POST'' then (http_Error ''method not allowed'' 405, w)
      else (case f of
          None \<Rightarrow> (http_Error (name @ '' not supported'') 501, w)
        | Some g \<Rightarrow>
            (case Decode (dec_struct fs) body z of
               (_, Some err) \<Rightarrow> (http_Error (''bad request: '' @ err) 400, w)
             | (q, None) \<Rightarrow>
                 (case g q w of
                    ((resp, Some err), w') \<Rightarrow> (http_reply 500 (Encode (enc (on_err err resp))), w')
                  | ((resp, None), w') \<Rightarrow> (http_reply 200 (Encode (enc resp)), w')))))"

definition http_join :: "'w http_funcs \<Rightarrow> 'w http_handler" where
  "http_join f = http_post_handler ''join'' JoinRequest_fields zero_JoinRequest enc_JoinResponse (\<lambda>_ resp. resp) (h_join f)"

definition http_leave :: "'w http_funcs \<Rightarrow> 'w http_handler" where
  "http_leave f =
     http_post_handler ''leave'' LeaveRequest_fields zero_LeaveRequest enc_LeaveResponse (\<lambda>_ resp. resp) (h_leave f)"

definition http_appwrite :: "'w http_funcs \<Rightarrow> 'w http_handler" where
  "http_appwrite f =
     http_post_handler ''appwrite'' AppWriteRequest_fields zero_AppWriteRequest enc_AppWriteResponse
       (\<lambda>err resp. if wr_Error resp = [] then resp\<lparr>wr_Error := err\<rparr> else resp) (h_appWrite f)"

definition http_appsync :: "'w http_funcs \<Rightarrow> 'w http_handler" where
  "http_appsync f =
     http_post_handler ''appsync'' AppSyncRequest_fields zero_AppSyncRequest enc_AppSyncResponse
       (\<lambda>err resp. if sr_Error resp = [] then resp\<lparr>sr_Error := err\<rparr> else resp) (h_appSync f)"

text \<open>The multiplexer of \<open>Start\<close>, on the paths it registers.\<close>

definition http_mux :: "'w http_funcs \<Rightarrow> 'w http_handler" where
  "http_mux f r body w =
     (if hq_Path r = ''/status'' then http_status f r body w
      else if hq_Path r = ''/healthz'' then http_healthz r body w
      else if hq_Path r = ''/metrics'' then h_metrics f r w
      else if hq_Path r = ''/join'' then http_join f r body w
      else if hq_Path r = ''/leave'' then http_leave f r body w
      else if hq_Path r = ''/appwrite'' then http_appwrite f r body w
      else if hq_Path r = ''/appsync'' then http_appsync f r body w
      else (http_Error ''404 page not found'' 404, w))"

text \<open>The server's life cycle; \<open>srv\<close> is set before the listener is opened.\<close>

record http_Server =
  hs_bind :: string
  hs_srv :: bool
  hs_tls :: bool

definition http_NewServer :: "string \<Rightarrow> http_Server" where
  "http_NewServer b = \<lparr>hs_bind = b, hs_srv = False, hs_tls = False\<rparr>"

definition http_server_UseTLS :: "bool \<Rightarrow> http_Server \<Rightarrow> http_Server" where
  "http_server_UseTLS cfg s = s\<lparr>hs_tls := cfg\<rparr>"

definition http_Start :: "gerror option \<Rightarrow> http_Server \<Rightarrow> gerror option \<times> http_Server" where
  "http_Start listen_err s = (listen_err, s\<lparr>hs_srv := True\<rparr>)"

definition http_Addr :: "http_Server \<Rightarrow> string" where
  "http_Addr s = hs_bind s"

definition http_Stop :: "gerror option \<Rightarrow> http_Server \<Rightarrow> gerror option \<times> http_Server" where
  "http_Stop shutdown_err s = (if \<not> hs_srv s then (None, s) else (shutdown_err, s\<lparr>hs_srv := False\<rparr>))"

section \<open>The client\<close>

record http_Client =
  hc_timeout :: duration
  hc_isTLS :: bool

definition http_NewClient :: "duration \<Rightarrow> http_Client" where
  "http_NewClient t = \<lparr>hc_timeout = (if t \<le> 0 then 3 * second else t), hc_isTLS = False\<rparr>"

definition http_client_UseTLS :: "bool \<Rightarrow> http_Client \<Rightarrow> http_Client" where
  "http_client_UseTLS cfg c = c\<lparr>hc_isTLS := cfg\<rparr>"

text \<open>
  \<open>x_NewRequest\<close> is the error of \<open>http.NewRequestWithContext\<close> for a URL; \<open>x_done\<close> the error of the
  context if it ends while the client waits after attempt number \<open>i\<close>; \<open>x_Errorf\<close> is
  \<open>fmt.Errorf\<close> on a message used as a format.
\<close>

record 'w http_net =
  x_NewRequest :: "string \<Rightarrow> gerror option"
  x_Do :: "http_req \<Rightarrow> bytes \<Rightarrow> 'w \<Rightarrow> (gerror + http_resp) \<times> bytes \<times> 'w"
  x_done :: "nat \<Rightarrow> gerror option"
  x_Errorf :: "string \<Rightarrow> gerror"

definition http_url :: "http_Client \<Rightarrow> string \<Rightarrow> string \<Rightarrow> string" where
  "http_url c addr path = (if hc_isTLS c then ''https'' else ''http'') @ ''://'' @ addr @ path"

definition http_max :: nat where
  "http_max = 3"

text \<open>\<open>get_loop n i\<close>: \<open>n\<close> attempts are left, the next one is number \<open>i\<close>.\<close>

fun get_loop :: "'w http_net \<Rightarrow> http_req \<Rightarrow> nat \<Rightarrow> nat \<Rightarrow> gerror option \<Rightarrow> 'w \<Rightarrow> (gerror + bytes) option \<times> 'w" where
  "get_loop x r 0 i lastErr w = (map_option Inl lastErr, w)"
| "get_loop x r (Suc n) i lastErr w =
     (case x_Do x r [] w of
        (Inl err, _, w') \<Rightarrow>
          (case x_done x i of Some e \<Rightarrow> (Some (Inl e), w') | None \<Rightarrow> get_loop x r n (Suc i) (Some err) w')
      | (Inr resp, _, w') \<Rightarrow>
          if hr_Status resp \<noteq> 200
          then (case x_done x i of
                  Some e \<Rightarrow> (Some (Inl e), w')
                | None \<Rightarrow> get_loop x r n (Suc i) (Some (''status '' @ Itoa (hr_Status resp) @ '': '' @ hr_Body resp)) w')
          else (Some (case hr_ReadErr resp of Some e \<Rightarrow> Inl e | None \<Rightarrow> Inr (hr_Body resp)), w'))"

text \<open>The outer option is \<open>None\<close> only for a nil error with no data, which three attempts exclude.\<close>

definition http_GetStatus :: "http_Client \<Rightarrow> 'w http_net \<Rightarrow> string \<Rightarrow> 'w \<Rightarrow> (gerror + bytes) option \<times> 'w" where
  "http_GetStatus c x addr w =
     (let url = http_url c addr ''/status''
      in case x_NewRequest x url of
           Some err \<Rightarrow> (Some (Inl err), w)
         | None \<Rightarrow> get_loop x \<lparr>hq_Method = ''GET'', hq_URL = url, hq_Path = ''/status''\<rparr> http_max 0 None w)"

text \<open>
  The loop of the four POST calls: the response is decoded into the same variable on every
  attempt, whatever the status; a decoding error is ignored.
\<close>

fun post_loop ::
  "'w http_net \<Rightarrow> http_req \<Rightarrow> 'r field list \<Rightarrow> ('r \<Rightarrow> string) \<Rightarrow> string \<Rightarrow> nat \<Rightarrow> nat \<Rightarrow>
   'r \<Rightarrow> gerror option \<Rightarrow> bytes \<Rightarrow> 'w \<Rightarrow> ('r \<times> gerror option) \<times> 'w" where
  "post_loop x r fs err_of name 0 i out lastErr body w = ((out, lastErr), w)"
| "post_loop x r fs err_of name (Suc n) i out lastErr body w =
     (case x_Do x r body w of
        (Inl err, rest, w') \<Rightarrow>
          (case x_done x i of
             Some _ \<Rightarrow> ((out, Some err), w')
           | None \<Rightarrow> post_loop x r fs err_of name n (Suc i) out (Some err) rest w')
      | (Inr resp, rest, w') \<Rightarrow>
          (let out' = fst (Unmarshal (dec_struct fs) (hr_Body resp) out)
           in if hr_Status resp \<noteq> 200
              then (let err = (if err_of out' \<noteq> [] then x_Errorf x (err_of out')
                               else name @ '' status '' @ Itoa (hr_Status resp) @ '': '' @ hr_Body resp)
                    in (case x_done x i of
                          Some _ \<Rightarrow> ((out', Some err), w')
                        | None \<Rightarrow> post_loop x r fs err_of name n (Suc i) out' (Some err) rest w'))
              else ((out', None), w')))"

definition http_post ::
  "string \<Rightarrow> 'r field list \<Rightarrow> 'r \<Rightarrow> ('r \<Rightarrow> string) \<Rightarrow> http_Client \<Rightarrow> 'w http_net \<Rightarrow> string \<Rightarrow> json \<Rightarrow> 'w \<Rightarrow>
   ('r \<times> gerror option) \<times> 'w" where
  "http_post name fs z err_of c x addr req w =
     (let url = http_url c addr (CHR ''/'' # name)
      in case x_NewRequest x url of
           Some err \<Rightarrow> ((z, Some err), w)
         | None \<Rightarrow> post_loop x \<lparr>hq_Method = ''POST'', hq_URL = url, hq_Path = CHR ''/'' # name\<rparr> fs err_of name
             http_max 0 z None (Marshal req) w)"

definition http_PostJoin where
  "http_PostJoin c x addr req w =
     http_post ''join'' JoinResponse_fields zero_JoinResponse jr_Error c x addr (enc_JoinRequest req) w"

definition http_PostLeave where
  "http_PostLeave c x addr req w =
     http_post ''leave'' LeaveResponse_fields zero_LeaveResponse lr_Error c x addr (enc_LeaveRequest req) w"

definition http_PostAppWrite where
  "http_PostAppWrite c x addr req w =
     http_post ''appwrite'' AppWriteResponse_fields zero_AppWriteResponse wr_Error c x addr (enc_AppWriteRequest req) w"

definition http_PostAppSync where
  "http_PostAppSync c x addr req w =
     http_post ''appsync'' AppSyncResponse_fields zero_AppSyncResponse sr_Error c x addr (enc_AppSyncRequest req) w"

section \<open>Retries\<close>

text \<open>
  The worlds between the attempts of a GET, and whether an attempt brings a usable answer.
\<close>

primrec get_world :: "'w http_net \<Rightarrow> http_req \<Rightarrow> 'w \<Rightarrow> nat \<Rightarrow> 'w" where
  "get_world x r w 0 = w"
| "get_world x r w (Suc k) = get_world x r (snd (snd (x_Do x r [] w))) k"

definition get_ok :: "'w http_net \<Rightarrow> http_req \<Rightarrow> 'w \<Rightarrow> bool" where
  "get_ok x r w \<longleftrightarrow> (case fst (x_Do x r [] w) of Inl _ \<Rightarrow> False | Inr resp \<Rightarrow> hr_Status resp = 200)"

lemma get_loop_skip:
  assumes "\<And>j. j < k \<Longrightarrow> \<not> get_ok x r (get_world x r w j) \<and> x_done x (i + j) = None"
  shows "\<exists>e. get_loop x r (k + n) i lastErr w = get_loop x r n (i + k) (if k = 0 then lastErr else Some e) (get_world x r w k)"
  using assms
proof (induction k arbitrary: i lastErr w)
  case (Suc k)
  obtain res b w' where d: "x_Do x r [] w = (res, b, w')" by (cases "x_Do x r [] w")
  have 0: "\<not> get_ok x r w" "x_done x i = None" using Suc.prems [of 0] by simp_all
  have "\<not> get_ok x r (get_world x r w' j) \<and> x_done x (Suc i + j) = None" if "j < k" for j
    using Suc.prems [of "Suc j"] that d by simp
  then have IH: "\<exists>e. get_loop x r (k + n) (Suc i) l w' = get_loop x r n (i + Suc k) (if k = 0 then l else Some e) (get_world x r w' k)" for l
    using Suc.IH [of w' "Suc i" l] by simp
  have "\<exists>e. get_loop x r (Suc k + n) i lastErr w = get_loop x r (k + n) (Suc i) (Some e) w'"
    using 0 d by (auto simp: get_ok_def split: sum.splits)
  then obtain e where "get_loop x r (Suc k + n) i lastErr w = get_loop x r (k + n) (Suc i) (Some e) w'" by blast
  moreover obtain e' where "get_loop x r (k + n) (Suc i) (Some e) w' =
      get_loop x r n (i + Suc k) (if k = 0 then Some e else Some e') (get_world x r w' k)"
    using IH [of "Some e"] by blast
  ultimately show ?case using d by (auto intro!: exI [of _ "if k = 0 then e else e'"])
qed simp

lemma get_loop_hit:
  assumes "get_ok x r w"
  shows "\<exists>resp. fst (x_Do x r [] w) = Inr resp \<and> hr_Status resp = 200
    \<and> get_loop x r (Suc n) i l w =
        (Some (case hr_ReadErr resp of Some e \<Rightarrow> Inl e | None \<Rightarrow> Inr (hr_Body resp)), get_world x r w 1)"
  using assms by (auto simp: get_ok_def split: sum.splits prod.splits)

text \<open>Counting: what one attempt adds at most, three attempts add at most thrice.\<close>

lemma post_loop_count:
  assumes "\<And>b w. cnt (snd (snd (x_Do x r b w))) \<le> cnt w + (1 :: nat)"
  shows "cnt (snd (post_loop x r fs err_of name n i out l b w)) \<le> cnt w + n"
proof (induction n arbitrary: i out l b w)
  case (Suc n)
  obtain res b' w' where d: "x_Do x r b w = (res, b', w')" by (cases "x_Do x r b w")
  have w': "cnt w' \<le> cnt w + 1" using assms [of b w] d by simp
  then have "cnt (snd (post_loop x r fs err_of name n i' out' l' b' w')) \<le> Suc (cnt w + n)" for i' out' l'
    using Suc.IH [of i' out' l' b' w'] by linarith
  with w' show ?case
    using d by (auto simp: Let_def split: sum.splits option.splits)
qed simp

text \<open>
  What \<open>net/http\<close> does with the body of a request that is sent again: an attempt that the other
  side executed has read the body to its end, and a request whose body is used up is not sent.
\<close>

definition body_once :: "'w http_net \<Rightarrow> ('w \<Rightarrow> nat) \<Rightarrow> bool" where
  "body_once x executed \<longleftrightarrow>
     (\<forall>r b w. hq_Method r = ''POST'' \<longrightarrow>
        (case x_Do x r b w of (res, rest, w') \<Rightarrow>
           (executed w' = executed w \<or> executed w' = executed w + 1 \<and> rest = [])
         \<and> (b = [] \<longrightarrow> executed w' = executed w \<and> rest = [] \<and> isl res)))"

lemma post_loop_spent:
  assumes "body_once x executed" and "hq_Method r = ''POST''" and "n \<noteq> 0 \<or> l \<noteq> None"
  shows "executed (snd (post_loop x r fs err_of name n i out l [] w)) = executed w
    \<and> snd (fst (post_loop x r fs err_of name n i out l [] w)) \<noteq> None"
  using assms(3)
proof (induction n arbitrary: i l w)
  case (Suc n)
  obtain res b' w' where d: "x_Do x r [] w = (res, b', w')" by (cases "x_Do x r [] w")
  then have "executed w' = executed w" "b' = []" "isl res"
    using assms(1,2) by (auto simp: body_once_def dest!: spec [of _ r] spec [of _ "[]"] spec [of _ w])
  then show ?case using Suc.IH d by (cases res) (auto split: option.splits)
qed auto

lemma post_loop_once:
  assumes "body_once x executed" and "hq_Method r = ''POST''"
  shows "executed (snd (post_loop x r fs err_of name n i out l b w)) \<le> executed w + 1"
proof (induction n arbitrary: i out l b w)
  case (Suc n)
  obtain res b' w' where d: "x_Do x r b w = (res, b', w')" by (cases "x_Do x r b w")
  then have e: "executed w' = executed w \<or> executed w' = executed w + 1 \<and> b' = []"
    using assms by (auto simp: body_once_def dest!: spec [of _ r] spec [of _ b] spec [of _ w])
  have s: "executed (snd (post_loop x r fs err_of name n i' out' (Some l') b' w')) \<le> executed w + 1" for i' out' l'
    using e Suc.IH [of i' out' "Some l'" b' w'] 
      post_loop_spent [OF assms, where n = n and l = "Some l'" and i = i' and out = out' and w = w' and fs = fs
        and err_of = err_of and name = name] by auto
  show ?case
    using e s d by (auto simp: Let_def split: sum.splits option.splits)
qed simp

section \<open>Calls end to end\<close>

context wire_format
begin

lemma decoded: "ok x \<Longrightarrow> Decode (dec_struct fields) (Marshal (enc x)) zero = (x, None)"
  by (simp add: Decode_Marshal enc_ok received)

lemma encoded: "ok x \<Longrightarrow> Unmarshal (dec_struct fields) (Encode (enc x)) zero = (x, None)"
  by (simp add: Unmarshal_Encode enc_ok received)

end

text \<open>
  Requests for an address reach the server there: the URL is accepted, and a request that
  still has its body is answered by the multiplexer.
\<close>

definition http_delivers :: "'w http_net \<Rightarrow> http_Client \<Rightarrow> string \<Rightarrow> 'w http_funcs \<Rightarrow> bool" where
  "http_delivers x c addr f \<longleftrightarrow> (\<forall>url. x_NewRequest x url = None)
     \<and> (\<forall>r body w. hq_URL r = http_url c addr (hq_Path r) \<and> (hq_Method r = ''GET'' \<or> body \<noteq> []) \<longrightarrow>
          x_Do x r body w = (Inr (fst (http_mux f r body w)), [], snd (http_mux f r body w)))"

lemma Marshal_obj_not_Nil [simp]: "Marshal (JObj kvs) \<noteq> []"
  by (simp add: show_json.simps)

lemma http_post_answered:
  assumes "http_delivers x c addr f" and "Marshal req \<noteq> []"
    and "\<And>r. hq_Path r = CHR ''/'' # name \<Longrightarrow>
      http_mux f r = http_post_handler name qfs qz renc on_err (Some (\<lambda>q w. apfst (\<lambda>r. (r, None)) (g q w))) r"
    and "Decode (dec_struct qfs) (Marshal req) qz = (q, None)"
    and "Unmarshal (dec_struct rfs) (Encode (renc (fst (g q w)))) rz = (fst (g q w), None)"
  shows "http_post name rfs rz err_of c x addr req w = apfst (\<lambda>r. (r, None)) (g q w)"
  using assms
  by (cases "g q w")
    (simp add: http_post_def http_max_def numeral_3_eq_3 http_delivers_def http_post_handler_def http_reply_def Let_def)

lemma request_not_Nil [simp]:
  "Marshal (enc_JoinRequest a) \<noteq> []" "Marshal (enc_LeaveRequest b) \<noteq> []"
  "Marshal (enc_AppWriteRequest d) \<noteq> []" "Marshal (enc_AppSyncRequest e) \<noteq> []"
  by (simp_all add: wire_defs)

text \<open>
  A management service whose functions report no Go error, as those the cluster passes to
  \<open>Start\<close>, in the forms the two servers take it.
\<close>

record 'w service =
  sv_status :: "'w \<Rightarrow> bytes \<times> 'w"
  sv_join :: "JoinRequest \<Rightarrow> 'w \<Rightarrow> JoinResponse \<times> 'w"
  sv_leave :: "LeaveRequest \<Rightarrow> 'w \<Rightarrow> LeaveResponse \<times> 'w"
  sv_appWrite :: "AppWriteRequest \<Rightarrow> 'w \<Rightarrow> AppWriteResponse \<times> 'w"
  sv_appSync :: "AppSyncRequest \<Rightarrow> 'w \<Rightarrow> AppSyncResponse \<times> 'w"

definition as_grpc :: "'w service \<Rightarrow> 'w mgmtImpl" where
  "as_grpc sv =
     \<lparr>f_status = (\<lambda>w. apfst Inr (sv_status sv w)), f_join = (\<lambda>q w. apfst Inr (sv_join sv q w)),
      f_leave = Some (\<lambda>q w. apfst Inr (sv_leave sv q w)), f_appWrite = Some (\<lambda>q w. apfst Inr (sv_appWrite sv q w)),
      f_appSync = Some (\<lambda>q w. apfst Inr (sv_appSync sv q w))\<rparr>"

definition as_http :: "(http_req \<Rightarrow> 'w \<Rightarrow> http_resp \<times> 'w) \<Rightarrow> 'w service \<Rightarrow> 'w http_funcs" where
  "as_http metrics sv =
     \<lparr>h_status = (\<lambda>w. apfst (\<lambda>b. (b, None)) (sv_status sv w)),
      h_join = Some (\<lambda>q w. apfst (\<lambda>r. (r, None)) (sv_join sv q w)),
      h_leave = Some (\<lambda>q w. apfst (\<lambda>r. (r, None)) (sv_leave sv q w)),
      h_appWrite = Some (\<lambda>q w. apfst (\<lambda>r. (r, None)) (sv_appWrite sv q w)),
      h_appSync = Some (\<lambda>q w. apfst (\<lambda>r. (r, None)) (sv_appSync sv q w)), h_metrics = metrics\<rparr>"

text \<open>The strings of the requests, and of the responses they get, are valid UTF-8.\<close>

definition texts_ok ::
  "'w service \<Rightarrow> JoinRequest \<Rightarrow> LeaveRequest \<Rightarrow> AppWriteRequest \<Rightarrow> AppSyncRequest \<Rightarrow> 'w \<Rightarrow> bool" where
  "texts_ok sv jq lq wq sq w \<longleftrightarrow>
     list_all valid_utf8 [jq_ID jq, jq_RaftAddr jq, lq_ID lq, wq_Op wq, sq_Topic sq,
       jr_Leader (fst (sv_join sv jq w)), jr_Error (fst (sv_join sv jq w)), lr_Error (fst (sv_leave sv lq w)),
       wr_Error (fst (sv_appWrite sv wq w)), sr_Error (fst (sv_appSync sv sq w))]"

lemma http_answers:
  assumes "http_delivers x c addr (as_http metrics sv)"
  shows "list_all valid_utf8 [jq_ID jq, jq_RaftAddr jq, jr_Leader (fst (sv_join sv jq w)), jr_Error (fst (sv_join sv jq w))] \<Longrightarrow>
      http_PostJoin c x addr jq w = apfst (\<lambda>r. (r, None)) (sv_join sv jq w)"
    and "list_all valid_utf8 [lq_ID lq, lr_Error (fst (sv_leave sv lq w))] \<Longrightarrow>
      http_PostLeave c x addr lq w = apfst (\<lambda>r. (r, None)) (sv_leave sv lq w)"
    and "list_all valid_utf8 [wq_Op wq, wr_Error (fst (sv_appWrite sv wq w))] \<Longrightarrow>
      http_PostAppWrite c x addr wq w = apfst (\<lambda>r. (r, None)) (sv_appWrite sv wq w)"
    and "list_all valid_utf8 [sq_Topic sq, sr_Error (fst (sv_appSync sv sq w))] \<Longrightarrow>
      http_PostAppSync c x addr sq w = apfst (\<lambda>r. (r, None)) (sv_appSync sv sq w)"
proof -
  note mux = http_mux_def as_http_def http_join_def http_leave_def http_appwrite_def http_appsync_def fun_eq_iff
  show "list_all valid_utf8 [jq_ID jq, jq_RaftAddr jq, jr_Leader (fst (sv_join sv jq w)), jr_Error (fst (sv_join sv jq w))] \<Longrightarrow>
      http_PostJoin c x addr jq w = apfst (\<lambda>r. (r, None)) (sv_join sv jq w)"
    unfolding http_PostJoin_def
    by (intro http_post_answered [where g = "sv_join sv" and renc = enc_JoinResponse
        and on_err = "\<lambda>_ resp. resp",
        OF assms(1) request_not_Nil(1) _ joinReq.decoded joinResp.encoded]) (simp_all add: mux)
  show "list_all valid_utf8 [lq_ID lq, lr_Error (fst (sv_leave sv lq w))] \<Longrightarrow>
      http_PostLeave c x addr lq w = apfst (\<lambda>r. (r, None)) (sv_leave sv lq w)"
    unfolding http_PostLeave_def
    by (intro http_post_answered [where g = "sv_leave sv" and renc = enc_LeaveResponse
        and on_err = "\<lambda>_ resp. resp",
        OF assms(1) request_not_Nil(2) _ leaveReq.decoded leaveResp.encoded]) (simp_all add: mux)
  show "list_all valid_utf8 [wq_Op wq, wr_Error (fst (sv_appWrite sv wq w))] \<Longrightarrow>
      http_PostAppWrite c x addr wq w = apfst (\<lambda>r. (r, None)) (sv_appWrite sv wq w)"
    unfolding http_PostAppWrite_def
    by (intro http_post_answered [where g = "sv_appWrite sv" and renc = enc_AppWriteResponse
        and on_err = "\<lambda>err resp. if wr_Error resp = [] then resp\<lparr>wr_Error := err\<rparr> else resp",
        OF assms(1) request_not_Nil(3) _ writeReq.decoded writeResp.encoded]) (simp_all add: mux)
  show "list_all valid_utf8 [sq_Topic sq, sr_Error (fst (sv_appSync sv sq w))] \<Longrightarrow>
      http_PostAppSync c x addr sq w = apfst (\<lambda>r. (r, None)) (sv_appSync sv sq w)"
    unfolding http_PostAppSync_def
    by (intro http_post_answered [where g = "sv_appSync sv" and renc = enc_AppSyncResponse
        and on_err = "\<lambda>err resp. if sr_Error resp = [] then resp\<lparr>sr_Error := err\<rparr> else resp",
        OF assms(1) request_not_Nil(4) _ syncReq.decoded syncResp.encoded]) (simp_all add: mux)
qed

lemma http_status_answered:
  assumes "http_delivers x c addr (as_http metrics sv)"
  shows "http_GetStatus c x addr w = apfst (\<lambda>b. Some (Inr b)) (sv_status sv w)"
  using assms
  by (cases "sv_status sv w")
    (simp add: http_GetStatus_def http_max_def numeral_3_eq_3 http_delivers_def http_mux_def http_status_def
      as_http_def http_reply_def Let_def)

lemma grpc_texts:
  assumes "texts_ok sv jq lq wq sq w"
  shows "valid_result jr_Leader jr_Error (f_join (as_grpc sv) jq w)"
    and "valid_result lr_Error lr_Error (apfst Inr (sv_leave sv lq w))"
    and "valid_result wr_Error wr_Error (apfst Inr (sv_appWrite sv wq w))"
    and "valid_result sr_Error sr_Error (apfst Inr (sv_appSync sv sq w))"
  using assms by (auto simp: texts_ok_def valid_result_def as_grpc_def apfst_def map_prod_def split: prod.splits)

section \<open>Properties\<close>

text \<open>
  C11. The two transports agree. Take a management service that reports no Go errors, served over
  gRPC at one address and over HTTP at another, with libraries that deliver. Then a client of
  either kind gets, for the same call in the same world, exactly the service's answer, and
  leaves the world in the same state: status bytes, join and leave responses and successful
  application calls are equal. Only for an application call whose response carries an error do
  they differ in form: the gRPC client returns it as the error of the call, the HTTP client as a
  response with that error.
\<close>

theorem transports_agree:
  assumes "delivers n ga (as_grpc sv)" and "http_delivers x c ha (as_http metrics sv)"
    and "texts_ok sv jq lq wq sq w"
  shows "client_GetStatus n ga w = apfst Inr (sv_status sv w) \<and> http_GetStatus c x ha w = apfst (\<lambda>b. Some (Inr b)) (sv_status sv w)
    \<and> client_PostJoin n ga jq w = apfst Inr (sv_join sv jq w) \<and> http_PostJoin c x ha jq w = apfst (\<lambda>r. (r, None)) (sv_join sv jq w)
    \<and> client_PostLeave n ga lq w = apfst Inr (sv_leave sv lq w)
    \<and> http_PostLeave c x ha lq w = apfst (\<lambda>r. (r, None)) (sv_leave sv lq w)
    \<and> client_PostAppWrite errorf n ga wq w =
        apfst (\<lambda>r. if wr_Error r \<noteq> [] then Inl (errorf (wr_Error r)) else Inr r) (sv_appWrite sv wq w)
    \<and> http_PostAppWrite c x ha wq w = apfst (\<lambda>r. (r, None)) (sv_appWrite sv wq w)
    \<and> client_PostAppSync errorf n ga sq w =
        apfst (\<lambda>r. if sr_Error r \<noteq> [] then Inl (errorf (sr_Error r)) else Inr r) (sv_appSync sv sq w)
    \<and> http_PostAppSync c x ha sq w = apfst (\<lambda>r. (r, None)) (sv_appSync sv sq w)"
proof -
  note g = grpc_texts [OF assms(3)] and t = assms(3) [unfolded texts_ok_def, simplified]
  have j: "mgmt_Join (as_grpc sv) jq w = apfst Inr (sv_join sv jq w)"
    "mgmt_Leave (as_grpc sv) lq w = apfst Inr (sv_leave sv lq w)"
    "mgmt_AppWrite (as_grpc sv) wq w = apfst Inr (sv_appWrite sv wq w)"
    "mgmt_AppSync (as_grpc sv) sq w = apfst Inr (sv_appSync sv sq w)"
    by (simp_all add: mgmt_Join_def mgmt_Leave_def mgmt_AppWrite_def mgmt_AppSync_def as_grpc_def apfst_def map_prod_def
        split: prod.splits)
  have "client_GetStatus n ga w = apfst Inr (sv_status sv w)"
    using status_call [OF assms(1)] by (simp add: as_grpc_def)
  moreover have "client_PostJoin n ga jq w = apfst Inr (sv_join sv jq w)"
    using join_call [OF assms(1) _ _ g(1)] t j by simp
  moreover have "client_PostLeave n ga lq w = apfst Inr (sv_leave sv lq w)"
    using leave_call [OF assms(1), of lq w] g(2) t j by (simp add: as_grpc_def)
  moreover have "client_PostAppWrite errorf n ga wq w =
      apfst (\<lambda>r. if wr_Error r \<noteq> [] then Inl (errorf (wr_Error r)) else Inr r) (sv_appWrite sv wq w)"
    using write_call [OF assms(1), of wq w] g(3) t j
    by (cases "sv_appWrite sv wq w") (simp add: as_grpc_def client_PostAppWrite_def)
  moreover have "client_PostAppSync errorf n ga sq w =
      apfst (\<lambda>r. if sr_Error r \<noteq> [] then Inl (errorf (sr_Error r)) else Inr r) (sv_appSync sv sq w)"
    using sync_call [OF assms(1), of sq w] g(4) t j
    by (cases "sv_appSync sv sq w") (simp add: as_grpc_def client_PostAppSync_def)
  ultimately show ?thesis
    using http_answers [OF assms(2)] t http_status_answered [OF assms(2)] by simp
qed

text \<open>A service over a list of joined identifiers, and networks that reach it.\<close>

definition demo_service :: "string list service" where
  "demo_service = \<lparr>sv_status = (\<lambda>w. (concat w, w)),
     sv_join = (\<lambda>q w. (\<lparr>jr_Accepted = True, jr_Leader = [], jr_Error = []\<rparr>, jq_ID q # w)),
     sv_leave = (\<lambda>q w. (\<lparr>lr_Accepted = True, lr_Error = []\<rparr>, filter (\<lambda>i. i \<noteq> lq_ID q) w)),
     sv_appWrite = (\<lambda>q w. (\<lparr>wr_Data = wq_Data q, wr_Error = []\<rparr>, w)),
     sv_appSync = (\<lambda>q w. (\<lparr>sr_Error = []\<rparr>, w))\<rparr>"

definition no_metrics :: "http_req \<Rightarrow> string list \<Rightarrow> http_resp \<times> string list" where
  "no_metrics r w = (http_Error ''none'' 404, w)"

definition http_reach :: "string list http_funcs \<Rightarrow> string list http_net" where
  "http_reach f = \<lparr>x_NewRequest = (\<lambda>_. None),
     x_Do = (\<lambda>r b w. if hq_Method r = ''GET'' \<or> b \<noteq> []
        then (Inr (fst (http_mux f r b w)), [], snd (http_mux f r b w)) else (Inl ''body used'', [], w)),
     x_done = (\<lambda>_. None), x_Errorf = (\<lambda>s. s)\<rparr>"

definition grpc_reach :: "string list mgmtImpl \<Rightarrow> string list net" where
  "grpc_reach m = \<lparr>n_dial = (\<lambda>_ _. None),
     n_invoke = (\<lambda>_ name body w. case map_of (Management_serviceDesc m) name of
        None \<Rightarrow> (Inl ''unimplemented'', w) | Some h \<Rightarrow> h body w)\<rparr>"

lemma reach_ok: "delivers (grpc_reach m) ga m" "http_delivers (http_reach f) c ha f"
  by (simp_all add: delivers_def grpc_reach_def http_delivers_def http_reach_def)

theorem transports_agree_witness:
  "client_PostJoin (grpc_reach (as_grpc demo_service)) ''g:1'' \<lparr>jq_ID = ''n2'', jq_RaftAddr = ''r:2''\<rparr> [''n1''] =
     (Inr \<lparr>jr_Accepted = True, jr_Leader = [], jr_Error = []\<rparr>, [''n2'', ''n1''])
   \<and> http_PostJoin (http_NewClient 0) (http_reach (as_http no_metrics demo_service)) ''h:1'' \<lparr>jq_ID = ''n2'', jq_RaftAddr = ''r:2''\<rparr> [''n1''] =
     ((\<lparr>jr_Accepted = True, jr_Leader = [], jr_Error = []\<rparr>, None), [''n2'', ''n1''])"
proof -
  have "texts_ok demo_service \<lparr>jq_ID = ''n2'', jq_RaftAddr = ''r:2''\<rparr> \<lparr>lq_ID = []\<rparr> \<lparr>wq_Op = [], wq_Data = []\<rparr>
      \<lparr>sq_Topic = [], sq_Data = []\<rparr> [''n1'']"
    by (simp add: texts_ok_def demo_service_def valid_utf8_all_ascii)
  from transports_agree [OF reach_ok(1,2) this, where errorf = "\<lambda>s. s"] show ?thesis
    by (simp add: demo_service_def)
qed


text \<open>A server that counts executions and answers the first with status 500.\<close>

definition failing_net :: "(nat \<times> nat) http_net" where
  "failing_net = \<lparr>x_NewRequest = (\<lambda>_. None),
     x_Do = (\<lambda>r b w. if b = [] then (Inl ''ContentLength with Body length 0'', [], (fst w, snd w + 1))
        else (Inr (http_reply 500 (Encode (enc_AppWriteResponse \<lparr>wr_Data = [], wr_Error = ''disk full''\<rparr>))), [],
              (fst w + 1, snd w + 1))),
     x_done = (\<lambda>_. None), x_Errorf = (\<lambda>s. s)\<rparr>"

lemma failing_body_once: "body_once failing_net fst"
  by (simp add: body_once_def failing_net_def)


text \<open>
  What such a call returns is the error of the last attempt, not the one the server gave.
\<close>

lemma server_error_lost:
  "snd (fst (http_PostAppWrite (http_NewClient 0) failing_net ''h:1'' \<lparr>wq_Op = ''put'', wq_Data = []\<rparr> (0, 0))) =
     Some ''ContentLength with Body length 0''"
  by (simp add: http_PostAppWrite_def http_post_def failing_net_def http_max_def numeral_3_eq_3 http_reply_def Let_def)

text \<open>
  Reading the status with retries. The first of at most three attempts that is answered with
  status 200 decides the call, if the context does not end while the client waits before it:
  its body is returned, and no further attempt is made. If no attempt is answered so, the call
  fails after exactly three attempts.
\<close>

theorem http_GetStatus_retries:
  fixes x :: "'w http_net"
  defines "r \<equiv> \<lambda>c addr. \<lparr>hq_Method = ''GET'', hq_URL = http_url c addr ''/status'', hq_Path = ''/status''\<rparr>"
  assumes "x_NewRequest x (http_url c addr ''/status'') = None" and "k \<le> 3"
    and "\<forall>j < k. \<not> get_ok x (r c addr) (get_world x (r c addr) w j) \<and> x_done x j = None"
  shows "(k < 3 \<and> get_ok x (r c addr) (get_world x (r c addr) w k) \<longrightarrow>
      (\<exists>resp. fst (x_Do x (r c addr) [] (get_world x (r c addr) w k)) = Inr resp
        \<and> http_GetStatus c x addr w =
            (Some (case hr_ReadErr resp of Some e \<Rightarrow> Inl e | None \<Rightarrow> Inr (hr_Body resp)),
             get_world x (r c addr) w (Suc k))))
    \<and> (k = 3 \<longrightarrow> (\<exists>e. http_GetStatus c x addr w = (Some (Inl e), get_world x (r c addr) w 3)))"
proof -
  let ?r = "r c addr"
  have g: "http_GetStatus c x addr w = get_loop x ?r 3 0 None w"
    using assms(2) by (simp add: http_GetStatus_def r_def http_max_def Let_def)
  have step: "get_world x ?r w (Suc j) = get_world x ?r (get_world x ?r w j) 1" for j
    by (induction j arbitrary: w) simp_all
  obtain e where e: "get_loop x ?r (k + (3 - k)) 0 None w =
      get_loop x ?r (3 - k) k (if k = 0 then None else Some e) (get_world x ?r w k)"
    using get_loop_skip [of k x ?r w 0 "3 - k" None] assms(4) by auto
  show ?thesis
  proof (intro conjI impI)
    assume h: "k < 3 \<and> get_ok x ?r (get_world x ?r w k)"
    then have "3 - k = Suc (2 - k)" by linarith
    with h show "\<exists>resp. fst (x_Do x ?r [] (get_world x ?r w k)) = Inr resp
        \<and> http_GetStatus c x addr w =
            (Some (case hr_ReadErr resp of Some e \<Rightarrow> Inl e | None \<Rightarrow> Inr (hr_Body resp)), get_world x ?r w (Suc k))"
      using get_loop_hit [of x ?r "get_world x ?r w k" "2 - k" k "if k = 0 then None else Some e"] e g assms(3)
      unfolding step by auto
  next
    assume "k = 3"
    then show "\<exists>e. http_GetStatus c x addr w = (Some (Inl e), get_world x ?r w 3)"
      using e g by simp
  qed
qed

definition flaky_net :: "nat http_net" where
  "flaky_net = \<lparr>x_NewRequest = (\<lambda>_. None),
     x_Do = (\<lambda>r b w. (if w = 0 then Inl ''refused'' else Inr (http_reply 200 ''up''), [], w + 1)),
     x_done = (\<lambda>_. None), x_Errorf = (\<lambda>s. s)\<rparr>"

theorem http_GetStatus_retries_witness: "http_GetStatus (http_NewClient 0) flaky_net ''h:1'' 0 = (Some (Inr ''up''), 2)"
  using http_GetStatus_retries [of flaky_net "http_NewClient 0" "''h:1''" 1 0]
  by (simp add: flaky_net_def get_ok_def http_reply_def)

end
