(* ===== verification/TlsConfig.thy ===== *)
theory TlsConfig
  imports Prelude
begin

text \<open>
  \<open>pkg/security/tlsconfig/tlsconfig.go\<close>: TLS configurations for servers and clients, and the
  certificate loader that rereads the key pair from disk. Reading files and key pairs is a
  parameter (\<open>tls_env\<close>), with certificates \<open>'c\<close> and pools \<open>'p\<close> of the standard library kept
  abstract. The loader is called by concurrent handshakes, so its parts (test of the cache,
  reading, storing) are separate steps.
\<close>

section \<open>Configurations\<close>

record tls_Options =
  t_Enable :: bool
  t_CAFile :: string
  t_CertFile :: string
  t_KeyFile :: string
  t_InsecureSkipVerify :: bool
  t_ServerName :: string

text \<open>\<open>cfg_Reload\<close> says that certificates come from the reloading callback of the configuration.\<close>

record ('c, 'p) tls_Config =
  cfg_Certificates :: "'c list"
  cfg_ClientCAs :: "'p option"
  cfg_RequireClientCert :: bool
  cfg_RootCAs :: "'p option"
  cfg_InsecureSkipVerify :: bool
  cfg_ServerName :: string
  cfg_Reload :: bool

record ('c, 'p) tls_env =
  te_LoadX509KeyPair :: "string \<Rightarrow> string \<Rightarrow> gerror + 'c"
  te_ReadFile :: "string \<Rightarrow> gerror + bytes"
  te_Pool :: "bytes \<Rightarrow> 'p"

definition tls_zero :: "('c, 'p) tls_Config" where
  "tls_zero = \<lparr>cfg_Certificates = [], cfg_ClientCAs = None, cfg_RequireClientCert = False, cfg_RootCAs = None,
     cfg_InsecureSkipVerify = False, cfg_ServerName = [], cfg_Reload = False\<rparr>"

definition tls_client_cas ::
  "('c, 'p) tls_env \<Rightarrow> string \<Rightarrow> ('c, 'p) tls_Config \<Rightarrow> gerror + ('c, 'p) tls_Config" where
  "tls_client_cas env file cfg =
     (if file \<noteq> []
      then (case te_ReadFile env file of
          Inl err \<Rightarrow> Inl err
        | Inr ca \<Rightarrow> Inr (cfg\<lparr>cfg_ClientCAs := Some (te_Pool env ca), cfg_RequireClientCert := True\<rparr>))
      else Inr cfg)"

definition tls_root_cas ::
  "('c, 'p) tls_env \<Rightarrow> string \<Rightarrow> ('c, 'p) tls_Config \<Rightarrow> gerror + ('c, 'p) tls_Config" where
  "tls_root_cas env file cfg =
     (if file \<noteq> []
      then (case te_ReadFile env file of Inl err \<Rightarrow> Inl err | Inr ca \<Rightarrow> Inr (cfg\<lparr>cfg_RootCAs := Some (te_Pool env ca)\<rparr>))
      else Inr cfg)"

definition tls_cert_required :: gerror where
  "tls_cert_required = ''tls: server cert/key required when TLS enabled''"

text \<open>A nil configuration with a nil error (TLS disabled) is \<open>Inr None\<close>.\<close>

definition tls_Server :: "('c, 'p) tls_env \<Rightarrow> tls_Options \<Rightarrow> gerror + ('c, 'p) tls_Config option" where
  "tls_Server env t =
     (if \<not> t_Enable t then Inr None
      else if t_CertFile t = [] \<or> t_KeyFile t = [] then Inl tls_cert_required
      else (case te_LoadX509KeyPair env (t_CertFile t) (t_KeyFile t) of
          Inl err \<Rightarrow> Inl err
        | Inr cert \<Rightarrow> map_sum id Some (tls_client_cas env (t_CAFile t) (tls_zero\<lparr>cfg_Certificates := [cert]\<rparr>))))"

definition tls_client_base :: "tls_Options \<Rightarrow> ('c, 'p) tls_Config" where
  "tls_client_base t =
     (let cfg = tls_zero\<lparr>cfg_InsecureSkipVerify := t_InsecureSkipVerify t\<rparr>
      in if t_ServerName t \<noteq> [] then cfg\<lparr>cfg_ServerName := t_ServerName t\<rparr> else cfg)"

definition tls_Client :: "('c, 'p) tls_env \<Rightarrow> tls_Options \<Rightarrow> gerror + ('c, 'p) tls_Config option" where
  "tls_Client env t =
     (if \<not> t_Enable t then Inr None
      else (case tls_root_cas env (t_CAFile t) (tls_client_base t) of
          Inl err \<Rightarrow> Inl err
        | Inr cfg \<Rightarrow>
            if t_CertFile t \<noteq> [] \<and> t_KeyFile t \<noteq> []
            then (case te_LoadX509KeyPair env (t_CertFile t) (t_KeyFile t) of
                Inl err \<Rightarrow> Inl err
              | Inr cert \<Rightarrow> Inr (Some (cfg\<lparr>cfg_Certificates := [cert]\<rparr>)))
            else Inr (Some cfg)))"

definition tls_ServerHotReload :: "('c, 'p) tls_env \<Rightarrow> tls_Options \<Rightarrow> gerror + ('c, 'p) tls_Config option" where
  "tls_ServerHotReload env t =
     (if \<not> t_Enable t then Inr None
      else if t_CertFile t = [] \<or> t_KeyFile t = [] then Inl tls_cert_required
      else map_sum id (\<lambda>cfg. Some (cfg\<lparr>cfg_Reload := True\<rparr>)) (tls_client_cas env (t_CAFile t) tls_zero))"

definition tls_ClientHotReload :: "('c, 'p) tls_env \<Rightarrow> tls_Options \<Rightarrow> gerror + ('c, 'p) tls_Config option" where
  "tls_ClientHotReload env t =
     (if \<not> t_Enable t then Inr None
      else map_sum id (\<lambda>cfg. Some (cfg\<lparr>cfg_Reload := True\<rparr>)) (tls_root_cas env (t_CAFile t) (tls_client_base t)))"

section \<open>The certificate loader\<close>

text \<open>The variables \<open>cached\<close> and \<open>lastLoad\<close>.\<close>

record 'c hot_cache =
  hc_cached :: "'c option"
  hc_lastLoad :: time

definition hot_cache0 :: "'c hot_cache" where
  "hot_cache0 = \<lparr>hc_cached = None, hc_lastLoad = zero_time\<rparr>"

definition hot_ttl :: duration where
  "hot_ttl = 10 * second"

text \<open>Under the read lock: the cached certificate if it is young enough.\<close>

definition hot_check :: "time \<Rightarrow> 'c hot_cache \<Rightarrow> 'c option" where
  "hot_check now h =
     (case hc_cached h of
        Some c \<Rightarrow> if time_sub now (hc_lastLoad h) < hot_ttl then Some c else None
      | None \<Rightarrow> None)"

text \<open>Under the write lock.\<close>

definition hot_store :: "'c \<Rightarrow> time \<Rightarrow> 'c hot_cache \<Rightarrow> 'c hot_cache" where
  "hot_store c now h = h\<lparr>hc_cached := Some c, hc_lastLoad := now\<rparr>"

text \<open>
  A whole call, not interleaved: \<open>t\<close> is the time of the test, \<open>t'\<close> that of storing; the client's
  loader (\<open>client\<close>) answers without a certificate when no files are configured.
\<close>

definition hot_load ::
  "bool \<Rightarrow> tls_Options \<Rightarrow> (string \<Rightarrow> string \<Rightarrow> gerror + 'c) \<Rightarrow> time \<Rightarrow> time \<Rightarrow> 'c hot_cache \<Rightarrow>
   (gerror + 'c option) \<times> 'c hot_cache" where
  "hot_load client tls loadPair t t' h =
     (if client \<and> (t_CertFile tls = [] \<or> t_KeyFile tls = []) then (Inr None, h)
      else (case hot_check t h of
          Some c \<Rightarrow> (Inr (Some c), h)
        | None \<Rightarrow>
            (case loadPair (t_CertFile tls) (t_KeyFile tls) of
               Inl err \<Rightarrow> (Inl err, h)
             | Inr c \<Rightarrow> (Inr (Some c), hot_store c t' h))))"

section \<open>Concurrent handshakes\<close>

text \<open>
  \<open>disk u\<close> is what reading the key pair at time \<open>u\<close> gives. A handshake that misses the cache
  reads the disk and stores later; any number may be under way (\<open>hy_reads\<close>, with the time of
  the read). \<open>hy_given\<close> lists the certificates handed to handshakes, with the time.
\<close>

record 'c hot_sys =
  hy_cache :: "'c hot_cache"
  hy_now :: time
  hy_reads :: "(time \<times> 'c) list"
  hy_given :: "(time \<times> 'c) list"

inductive hot_step :: "(time \<Rightarrow> gerror + 'c) \<Rightarrow> 'c hot_sys \<Rightarrow> 'c hot_sys \<Rightarrow> bool"
  for disk :: "time \<Rightarrow> gerror + 'c" where
  tick: "hy_now s \<le> t \<Longrightarrow> hot_step disk s (s\<lparr>hy_now := t\<rparr>)"
| hit: "hot_check (hy_now s) (hy_cache s) = Some c \<Longrightarrow>
    hot_step disk s (s\<lparr>hy_given := (hy_now s, c) # hy_given s\<rparr>)"
| miss: "disk (hy_now s) = Inr c \<Longrightarrow> hot_step disk s (s\<lparr>hy_reads := (hy_now s, c) # hy_reads s\<rparr>)"
| store: "hy_reads s = xs @ (u, c) # ys \<Longrightarrow>
    hot_step disk s (s\<lparr>hy_cache := hot_store c (hy_now s) (hy_cache s), hy_reads := xs @ ys,
      hy_given := (hy_now s, c) # hy_given s\<rparr>)"

definition hot_init :: "time \<Rightarrow> 'c hot_sys" where
  "hot_init t = \<lparr>hy_cache = hot_cache0, hy_now = t, hy_reads = [], hy_given = []\<rparr>"

text \<open>
  A certificate given at time \<open>t\<close> was read from the disk at a time \<open>u\<close>, and stored at a time \<open>v\<close>
  at most ten seconds before \<open>t\<close>.
\<close>

definition fresh_cert :: "(time \<Rightarrow> gerror + 'c) \<Rightarrow> time \<times> 'c \<Rightarrow> bool" where
  "fresh_cert disk x \<longleftrightarrow> (\<exists>u v. disk u = Inr (snd x) \<and> u \<le> v \<and> v \<le> fst x \<and> fst x - v < hot_ttl)"

definition hot_inv :: "(time \<Rightarrow> gerror + 'c) \<Rightarrow> 'c hot_sys \<Rightarrow> bool" where
  "hot_inv disk s \<longleftrightarrow>
     (\<forall>(u, c) \<in> set (hy_reads s). disk u = Inr c \<and> u \<le> hy_now s)
   \<and> (\<forall>c. hc_cached (hy_cache s) = Some c \<longrightarrow>
        (\<exists>u. disk u = Inr c \<and> u \<le> hc_lastLoad (hy_cache s)) \<and> hc_lastLoad (hy_cache s) \<le> hy_now s)
   \<and> (\<forall>x \<in> set (hy_given s). fresh_cert disk x)"

lemma time_sub_less: "u \<le> t \<Longrightarrow> time_sub t u < hot_ttl \<Longrightarrow> t - u < hot_ttl"
  by (auto simp: time_sub_def hot_ttl_def max_duration_def min_duration_def split: if_splits)

lemma hot_step_inv: "hot_step disk s s' \<Longrightarrow> hot_inv disk s \<Longrightarrow> hot_inv disk s'"
proof (induction rule: hot_step.induct)
  case (hit s c)
  then have "hc_cached (hy_cache s) = Some c" "time_sub (hy_now s) (hc_lastLoad (hy_cache s)) < hot_ttl"
    by (auto simp: hot_check_def split: option.splits if_splits)
  moreover obtain u where "disk u = Inr c" "u \<le> hc_lastLoad (hy_cache s)" "hc_lastLoad (hy_cache s) \<le> hy_now s"
    using hit.prems calculation(1) by (auto simp: hot_inv_def)
  ultimately have "fresh_cert disk (hy_now s, c)"
    using time_sub_less unfolding fresh_cert_def by auto
  then show ?case using hit.prems by (simp add: hot_inv_def)
next
  case (store s xs u c ys)
  then have "disk u = Inr c" "u \<le> hy_now s" by (auto simp: hot_inv_def)
  then have "fresh_cert disk (hy_now s, c)"
    by (simp add: fresh_cert_def) (rule exI [of _ u], simp, rule exI [of _ "hy_now s"], simp add: hot_ttl_def)
  then show ?case
    using store \<open>disk u = Inr c\<close> \<open>u \<le> hy_now s\<close> by (auto simp: hot_inv_def hot_store_def)
qed (auto simp: hot_inv_def intro: order_trans)

lemma hot_steps_inv:
  assumes "(hot_step disk)\<^sup>*\<^sup>* (hot_init t) s"
  shows "hot_inv disk s"
  using assms
proof (induction rule: rtranclp_induct)
  case base
  show ?case by (simp add: hot_inv_def hot_init_def hot_cache0_def)
qed (rule hot_step_inv)

text \<open>A call that is not interrupted is a run of these steps.\<close>

lemma hot_load_steps:
  assumes "hot_load False tls (\<lambda>_ _. disk (hy_now s)) (hy_now s) t' (hy_cache s) = (Inr (Some c), h')"
    and "hy_now s \<le> t'"
  shows "\<exists>s' t. (hot_step disk)\<^sup>*\<^sup>* s s' \<and> hy_cache s' = h' \<and> (t, c) \<in> set (hy_given s')"
proof (cases "hot_check (hy_now s) (hy_cache s)")
  case (Some x)
  then have "x = c" "h' = hy_cache s" using assms(1) by (simp_all add: hot_load_def)
  then show ?thesis
    using hot_step.hit [OF Some, of disk]
    by (intro exI [of _ "s\<lparr>hy_given := (hy_now s, x) # hy_given s\<rparr>"] exI [of _ "hy_now s"]) auto
next
  case None
  then have d: "disk (hy_now s) = Inr c" "h' = hot_store c t' (hy_cache s)"
    using assms(1) by (auto simp: hot_load_def split: sum.splits)
  let ?s1 = "s\<lparr>hy_reads := (hy_now s, c) # hy_reads s\<rparr>"
  let ?s2 = "?s1\<lparr>hy_now := t'\<rparr>"
  let ?s3 = "?s2\<lparr>hy_cache := hot_store c t' (hy_cache s), hy_reads := hy_reads s, hy_given := (t', c) # hy_given s\<rparr>"
  have "hot_step disk s ?s1" by (rule hot_step.miss) (rule d(1))
  moreover have "hot_step disk ?s1 ?s2" using hot_step.tick [of ?s1 t' disk] assms(2) by simp
  moreover have "hot_step disk ?s2 ?s3"
    using hot_step.store [of ?s2 "[]" "hy_now s" c "hy_reads s" disk] by simp
  ultimately have "(hot_step disk)\<^sup>*\<^sup>* s ?s3" by (meson rtranclp.rtrancl_into_rtrancl rtranclp.rtrancl_refl)
  then show ?thesis using d(2) by (intro exI [of _ ?s3] exI [of _ t']) simp
qed

section \<open>Properties\<close>



text \<open>
  The reloading configurations are the static ones, but for where the certificate comes from:
  with TLS on, the static server configuration is the reloading one with the certificate loaded
  now, and fails on the same inputs or when that load fails; likewise for a client with a key
  pair. A server with a CA file demands and verifies client certificates, and TLS off gives no
  configuration at all.
\<close>

theorem tls_static_and_reloading:
  assumes "t_CertFile t \<noteq> []" and "t_KeyFile t \<noteq> []"
  defines "cert \<equiv> \<lambda>env. te_LoadX509KeyPair env (t_CertFile t) (t_KeyFile t)"
  shows "(t_Enable t \<longrightarrow> tls_Server env t =
        (case cert env of Inl err \<Rightarrow> Inl err
         | Inr c \<Rightarrow> map_sum id (map_option (\<lambda>cfg. cfg\<lparr>cfg_Certificates := [c], cfg_Reload := False\<rparr>)) (tls_ServerHotReload env t)))
    \<and> (t_Enable t \<longrightarrow> tls_Client env t =
        (case tls_ClientHotReload env t of Inl err \<Rightarrow> Inl err
         | Inr cfg \<Rightarrow> map_sum id (\<lambda>c. map_option (\<lambda>cfg. cfg\<lparr>cfg_Certificates := [c], cfg_Reload := False\<rparr>) cfg) (cert env)))
    \<and> (\<forall>cfg. tls_ServerHotReload env t = Inr (Some cfg) \<and> t_CAFile t \<noteq> [] \<longrightarrow>
        cfg_RequireClientCert cfg \<and> cfg_ClientCAs cfg \<noteq> None)
    \<and> (\<not> t_Enable t \<longrightarrow> tls_Server env t = Inr None \<and> tls_Client env t = Inr None
        \<and> tls_ServerHotReload env t = Inr None \<and> tls_ClientHotReload env t = Inr None)"
  using assms
  by (auto simp: tls_Server_def tls_ServerHotReload_def tls_Client_def tls_ClientHotReload_def tls_client_cas_def
      tls_root_cas_def tls_client_base_def tls_zero_def Let_def split: sum.splits)

definition tls_demo :: tls_Options where
  "tls_demo = \<lparr>t_Enable = True, t_CAFile = ''ca.pem'', t_CertFile = ''c.pem'', t_KeyFile = ''k.pem'',
     t_InsecureSkipVerify = False, t_ServerName = ''node''\<rparr>"

definition env_demo :: "(string, bytes) tls_env" where
  "env_demo = \<lparr>te_LoadX509KeyPair = (\<lambda>c k. Inr (c @ k)), te_ReadFile = (\<lambda>f. Inr f), te_Pool = (\<lambda>b. b)\<rparr>"

theorem tls_static_and_reloading_witness:
  "tls_Server env_demo tls_demo =
     map_sum id (map_option (\<lambda>cfg. cfg\<lparr>cfg_Certificates := [''c.pemk.pem''], cfg_Reload := False\<rparr>)) (tls_ServerHotReload env_demo tls_demo)"
  using tls_static_and_reloading [of tls_demo env_demo] by (simp add: tls_demo_def env_demo_def)

end
