(* ===== verification/Discovery.thy ===== *)
theory Discovery
  imports GoStrings
begin

text \<open>
  \<open>pkg/discovery\<close>: the interface \<open>Discovery\<close> as the locale \<open>discovery\<close>, and its three
  implementations: a fixed list (\<open>static/static.go\<close>), a file or an environment variable with
  a cache (\<open>file/file.go\<close>), and DNS with a cache (\<open>dns/dns.go\<close>). What the operating system
  and the resolver answer is a record of functions, one value per call of \<open>Seeds\<close>.
\<close>

section \<open>The interface\<close>

text \<open>
  A poll returns seeds and may update the implementation's cache. No seed is empty, and a
  second poll in the same environment returns the same seeds.
\<close>

locale discovery =
  fixes seeds :: "'s \<Rightarrow> string list \<times> 's"
    and inv :: "'s \<Rightarrow> bool"
  assumes seeds_nonempty: "inv s \<Longrightarrow> x \<in> set (fst (seeds s)) \<Longrightarrow> x \<noteq> []"
    and inv_seeds: "inv s \<Longrightarrow> inv (snd (seeds s))"
    and seeds_again: "inv s \<Longrightarrow> fst (seeds (snd (seeds s))) = fst (seeds s)"
begin

lemma inv_polls: "inv s \<Longrightarrow> inv (((\<lambda>s. snd (seeds s)) ^^ n) s)"
  by (induction n) (auto intro: inv_seeds)

lemma polls_stable:
  "inv s \<Longrightarrow> fst (seeds (((\<lambda>s. snd (seeds s)) ^^ n) s)) = fst (seeds s)"
  by (induction n) (auto simp: seeds_again inv_polls)

end

text \<open>Sorting forgets the order a set was ranged over in.\<close>

lemma sort_perm: "mset xs = mset ys \<Longrightarrow> sort xs = sort ys"
  by (metis mset_sort properties_for_sort sorted_sort)

section \<open>Static seeds\<close>

record staticSeeds =
  static_seeds :: "string list"

definition static_Seeds :: "staticSeeds \<Rightarrow> string list" where
  "static_Seeds s = static_seeds s"

definition static_New :: "string list \<Rightarrow> staticSeeds" where
  "static_New seeds = \<lparr>static_seeds = filter (\<lambda>v. v \<noteq> []) (map TrimSpace seeds)\<rparr>"

definition static_Parse :: "string \<Rightarrow> string list" where
  "static_Parse csv =
     (if csv = [] then [] else filter (\<lambda>p. p \<noteq> []) (map TrimSpace (Split csv (CHR '',''))))"

interpretation static: discovery "\<lambda>s. (static_Seeds s, s)" "\<lambda>s. [] \<notin> set (static_seeds s)"
  by unfold_locales (auto simp: static_Seeds_def)

section \<open>File and environment\<close>

record file_Options =
  Path :: string
  Env :: string
  Refresh :: duration

record file_impl =
  fopts :: file_Options
  flast :: time
  fmtime :: time
  fcache :: "string list"

text \<open>
  The operating system during one call: environment variables, modification times (\<open>None\<close> is
  an error), glob matches, and the files, each either not openable or its bytes with a flag
  for a read error after them.
\<close>

record file_env =
  Getenv :: "string \<Rightarrow> string"
  Stat :: "string \<Rightarrow> time option"
  Glob :: "string \<Rightarrow> string list"
  Open :: "string \<Rightarrow> (bytes \<times> bool) option"
  Now :: time

definition file_New :: "file_Options \<Rightarrow> file_impl" where
  "file_New opts =
     \<lparr>fopts = (if Refresh opts \<le> 0 then opts\<lparr>Refresh := 5 * second\<rparr> else opts),
      flast = zero_time, fmtime = zero_time, fcache = []\<rparr>"

definition parseSeeds :: "string \<Rightarrow> string list" where
  "parseSeeds csv =
     (if csv = [] then []
      else sort (filter (\<lambda>p. p \<noteq> []) (map TrimSpace (Split csv (CHR '','')))))"

definition line_seeds :: "string \<Rightarrow> string list" where
  "line_seeds text =
     (let line = TrimSpace text in
      if line = [] \<or> HasPrefix line ''#'' then []
      else filter (\<lambda>p. p \<noteq> []) (map TrimSpace (Split line (CHR '',''))))"

definition loadFile :: "file_env \<Rightarrow> string \<Rightarrow> string list" where
  "loadFile e path =
     (case Open e path of
        None \<Rightarrow> []
      | Some (content, read_error) \<Rightarrow>
          (case scan_lines content of
             None \<Rightarrow> []
           | Some ls \<Rightarrow> if read_error then [] else sort (remdups (concat (map line_seeds ls)))))"

definition file_Seeds :: "file_env \<Rightarrow> file_impl \<Rightarrow> string list \<times> file_impl" where
  "file_Seeds e i =
     (let v = TrimSpace (Getenv e (Env (fopts i))) in
      if Env (fopts i) \<noteq> [] \<and> v \<noteq> [] then (parseSeeds v, i)
      else if Path (fopts i) = [] then ([], i)
      else (case Stat e (Path (fopts i)) of
          Some mt \<Rightarrow>
            (let i' = (if fmtime i < mt \<or> Refresh (fopts i) \<le> time_sub (Now e) (flast i)
                       then i\<lparr>fcache := loadFile e (Path (fopts i)), flast := Now e, fmtime := mt\<rparr>
                       else i)
             in (fcache i', i'))
        | None \<Rightarrow>
            (let ms = Glob e (Path (fopts i)) in
             if ms \<noteq> [] then
               (let out = sort (remdups (concat (map (loadFile e) ms)));
                    i' = i\<lparr>fcache := out, flast := Now e\<rparr>
                in (fcache i', i'))
             else (fcache i, i))))"

definition file_inv :: "file_impl \<Rightarrow> bool" where
  "file_inv i \<longleftrightarrow> 0 < Refresh (fopts i) \<and> [] \<notin> set (fcache i)
     \<and> sorted (fcache i) \<and> distinct (fcache i)"

lemma parseSeeds_nonempty: "x \<in> set (parseSeeds v) \<Longrightarrow> x \<noteq> []"
  by (auto simp: parseSeeds_def split: if_splits)

lemma line_seeds_nonempty: "x \<in> set (line_seeds l) \<Longrightarrow> x \<noteq> []"
  by (auto simp: line_seeds_def Let_def split: if_splits)

lemma loadFile_nonempty: "x \<in> set (loadFile e p) \<Longrightarrow> x \<noteq> []"
  by (auto simp: loadFile_def dest: line_seeds_nonempty split: option.splits prod.splits if_splits)

lemma loadFile_sorted: "sorted (loadFile e p)" and loadFile_distinct: "distinct (loadFile e p)"
  by (auto simp: loadFile_def split: option.splits prod.splits)

lemma file_New_inv: "file_inv (file_New opts)"
  by (auto simp: file_New_def file_inv_def)

lemma file_Seeds_inv: "file_inv i \<Longrightarrow> file_inv (snd (file_Seeds e i))"
  by (auto simp: file_Seeds_def file_inv_def Let_def loadFile_sorted loadFile_distinct
      dest: loadFile_nonempty split: option.splits)

interpretation filed: discovery "file_Seeds e" file_inv for e
proof unfold_locales
  fix i x
  assume i: "file_inv i"
  show "x \<in> set (fst (file_Seeds e i)) \<Longrightarrow> x \<noteq> []"
    using i by (auto simp: file_Seeds_def file_inv_def Let_def
        dest: parseSeeds_nonempty loadFile_nonempty split: option.splits if_splits)
  show "file_inv (snd (file_Seeds e i))" using i by (rule file_Seeds_inv)
  show "fst (file_Seeds e (snd (file_Seeds e i))) = fst (file_Seeds e i)"
    using i by (auto simp: file_Seeds_def file_inv_def Let_def split: option.splits)
qed

section \<open>DNS\<close>

record dns_Options =
  Names :: "string list"
  Port :: int
  DRefresh :: duration

record dns_impl =
  dopts :: dns_Options
  dlast :: time
  dcache :: "string list"

text \<open>
  The resolver: SRV targets with their 16-bit ports, and host addresses; \<open>None\<close> is an error.
\<close>

record resolver =
  LookupSRV :: "string \<Rightarrow> string \<Rightarrow> string \<Rightarrow> (string \<times> 16 word) list option"
  LookupHost :: "string \<Rightarrow> string list option"

definition dns_New :: "dns_Options \<Rightarrow> dns_impl" where
  "dns_New opts =
     (let opts = (if DRefresh opts \<le> 0 then opts\<lparr>DRefresh := 5 * second\<rparr> else opts);
          opts = (if Port opts = 0 then opts\<lparr>Port := 7946\<rparr> else opts)
      in \<lparr>dopts = opts, dlast = zero_time, dcache = []\<rparr>)"

definition parseSRVName :: "string \<Rightarrow> string \<times> string \<times> string" where
  "parseSRVName fqdn =
     (let parts = SplitN fqdn (CHR ''.'') 3 in
      if length parts < 3 then ([], [], [])
      else (TrimPrefix (parts ! 0) ''_'', TrimPrefix (parts ! 1) ''_'', parts ! 2))"

definition lookupSRV :: "resolver \<Rightarrow> string \<Rightarrow> string list" where
  "lookupSRV r fqdn =
     (let (svc, proto, domain) = parseSRVName fqdn in
      if svc = [] \<or> proto = [] \<or> domain = [] then []
      else (case LookupSRV r svc proto domain of
          None \<Rightarrow> []
        | Some addrs \<Rightarrow>
            map (\<lambda>(target, port). JoinHostPort (TrimSuffix target ''.'') (Itoa (uint port))) addrs))"

definition lookupHost :: "resolver \<Rightarrow> string \<Rightarrow> int \<Rightarrow> string list" where
  "lookupHost r host port =
     (case LookupHost r host of
        None \<Rightarrow> []
      | Some ips \<Rightarrow> map (\<lambda>ip. JoinHostPort ip (Itoa port)) ips)"

text \<open>
  \<open>out\<close> grows by the seeds not seen before; \<open>seen\<close> always holds exactly the elements of \<open>out\<close>.
\<close>

definition add_seen :: "string \<Rightarrow> string list \<Rightarrow> string list" where
  "add_seen hp out = (if hp \<in> set out then out else out @ [hp])"

definition resolve_name :: "resolver \<Rightarrow> int \<Rightarrow> string \<Rightarrow> string list \<Rightarrow> string list" where
  "resolve_name r port name0 out =
     (let name = TrimSpace name0 in
      if name = [] then out
      else if Contains name '':'' \<and> \<not> HasPrefix name ''_'' then add_seen name out
      else
        (let recs = (if HasPrefix name ''_'' \<and> Contains name ''._'' then lookupSRV r name else [])
         in if recs \<noteq> [] then fold add_seen recs out
            else fold add_seen (lookupHost r name port) out))"

definition resolveAll :: "resolver \<Rightarrow> dns_Options \<Rightarrow> string list" where
  "resolveAll r opts = sort (fold (resolve_name r (Port opts)) (Names opts) [])"

text \<open>\<open>t0\<close> is the clock when the cache is tested, \<open>t1\<close> when the result is stored.\<close>

definition dns_Seeds :: "resolver \<Rightarrow> time \<Rightarrow> time \<Rightarrow> dns_impl \<Rightarrow> string list \<times> dns_impl" where
  "dns_Seeds r t0 t1 d =
     (if time_sub t0 (dlast d) < DRefresh (dopts d) \<and> dcache d \<noteq> [] then (dcache d, d)
      else (let res = resolveAll r (dopts d); d' = d\<lparr>dcache := res, dlast := t1\<rparr> in (dcache d', d')))"

text \<open>The seeds one configured name contributes.\<close>

definition name_seeds :: "resolver \<Rightarrow> int \<Rightarrow> string \<Rightarrow> string list" where
  "name_seeds r port name0 =
     (let name = TrimSpace name0 in
      if name = [] then []
      else if Contains name '':'' \<and> \<not> HasPrefix name ''_'' then [name]
      else (let recs = (if HasPrefix name ''_'' \<and> Contains name ''._'' then lookupSRV r name else [])
            in if recs \<noteq> [] then recs else lookupHost r name port))"

lemma set_fold_add_seen [simp]: "set (fold add_seen xs out) = set out \<union> set xs"
  by (induction xs arbitrary: out) (auto simp: add_seen_def)

lemma distinct_fold_add_seen [simp]: "distinct out \<Longrightarrow> distinct (fold add_seen xs out)"
  by (induction xs arbitrary: out) (auto simp: add_seen_def)

lemma resolve_name_eq: "resolve_name r port n out = fold add_seen (name_seeds r port n) out"
  by (simp add: resolve_name_def name_seeds_def Let_def)

lemma resolve_names:
  "distinct out \<Longrightarrow> distinct (fold (resolve_name r port) ns out)"
  "set (fold (resolve_name r port) ns out) = set out \<union> (\<Union>n \<in> set ns. set (name_seeds r port n))"
  by (induction ns arbitrary: out) (auto simp: resolve_name_eq)

lemma name_seeds_nonempty: "x \<in> set (name_seeds r port n) \<Longrightarrow> x \<noteq> []"
  by (auto simp: name_seeds_def lookupSRV_def lookupHost_def Let_def
      split: if_splits option.splits prod.splits)

lemma resolveAll_nonempty: "x \<in> set (resolveAll r opts) \<Longrightarrow> x \<noteq> []"
  by (auto simp: resolveAll_def resolve_names dest: name_seeds_nonempty)

interpretation dns: discovery "dns_Seeds r t0 t1" "\<lambda>d. [] \<notin> set (dcache d)" for r t0 t1
proof unfold_locales
  fix d :: dns_impl and x
  assume d: "[] \<notin> set (dcache d)"
  show "x \<in> set (fst (dns_Seeds r t0 t1 d)) \<Longrightarrow> x \<noteq> []"
    using d by (auto simp: dns_Seeds_def Let_def dest: resolveAll_nonempty split: if_splits)
  show "[] \<notin> set (dcache (snd (dns_Seeds r t0 t1 d)))"
    using d by (auto simp: dns_Seeds_def Let_def dest: resolveAll_nonempty)
  show "fst (dns_Seeds r t0 t1 (snd (dns_Seeds r t0 t1 d))) = fst (dns_Seeds r t0 t1 d)"
    by (simp add: dns_Seeds_def Let_def)
qed

section \<open>Properties\<close>

text \<open>
  Round trip of the seed list: parsing a comma-separated list of clean seeds (not empty,
  no comma, no surrounding white space) gives the seeds back, and building the static
  discovery from them, as \<open>bootstrap\<close> does, serves exactly them.
\<close>

theorem static_parse_round_trip:
  assumes "\<forall>s \<in> set ss. s \<noteq> [] \<and> CHR '','' \<notin> set s \<and> trimmed s"
  shows "static_Parse (join_with (CHR '','') ss) = ss
    \<and> static_Seeds (static_New (static_Parse (join_with (CHR '','') ss))) = ss"
proof -
  have m: "map TrimSpace ss = ss" using assms by (intro map_idI) (simp add: TrimSpace_id)
  have f: "filter (\<lambda>v. v \<noteq> []) ss = ss" using assms by (simp add: filter_id_conv)
  have "static_Parse (join_with (CHR '','') ss) = ss"
  proof (cases "ss = []")
    case False
    have "Split (join_with (CHR '','') ss) (CHR '','') = ss"
      using False assms by (intro Split_join_with) auto
    moreover have "join_with (CHR '','') ss \<noteq> []"
      using False assms by (cases ss rule: remdups_adj.cases) auto
    ultimately show ?thesis using m f by (simp add: static_Parse_def)
  qed (simp add: static_Parse_def)
  then show ?thesis using m f by (simp add: static_Seeds_def static_New_def)
qed

theorem static_parse_round_trip_witness:
  "static_Parse ''a:1,b:2'' = [''a:1'', ''b:2'']
   \<and> static_Seeds (static_New (static_Parse ''a:1,b:2'')) = [''a:1'', ''b:2'']"
proof -
  have "trimmed ''a:1''" and "trimmed ''b:2''" by (simp_all add: trimmed_visible visible_def)
  then have clean: "\<forall>s \<in> set [''a:1'', ''b:2'']. s \<noteq> [] \<and> CHR '','' \<notin> set s \<and> trimmed s" by simp
  have csv: "join_with (CHR '','') [''a:1'', ''b:2''] = ''a:1,b:2''" by simp
  show ?thesis using static_parse_round_trip [OF clean] unfolding csv .
qed

text \<open>
  What a seed file means: if it can be read and has no over-long line, \<open>loadFile\<close> returns
  exactly the trimmed, non-empty comma-separated fields of its lines that are neither blank
  nor comments, sorted and without duplicates; otherwise it returns nothing.
\<close>

theorem loadFile_spec:
  "sorted (loadFile e p) \<and> distinct (loadFile e p) \<and> [] \<notin> set (loadFile e p) \<and>
   set (loadFile e p) =
     {TrimSpace f | f l ls c. Open e p = Some (c, False) \<and> scan_lines c = Some ls \<and> l \<in> set ls
        \<and> TrimSpace l \<noteq> [] \<and> \<not> HasPrefix (TrimSpace l) ''#''
        \<and> f \<in> set (Split (TrimSpace l) (CHR '','')) \<and> TrimSpace f \<noteq> []}"
proof -
  have "set (loadFile e p) =
     {TrimSpace f | f l ls c. Open e p = Some (c, False) \<and> scan_lines c = Some ls \<and> l \<in> set ls
        \<and> TrimSpace l \<noteq> [] \<and> \<not> HasPrefix (TrimSpace l) ''#''
        \<and> f \<in> set (Split (TrimSpace l) (CHR '','')) \<and> TrimSpace f \<noteq> []}" (is "_ = ?R")
  proof (cases "Open e p")
    case (Some cr)
    obtain c b where cr: "cr = (c, b)" by (cases cr)
    show ?thesis
      using Some cr by (cases "scan_lines c"; cases b)
        (auto simp: loadFile_def line_seeds_def Let_def split: if_splits)
  qed (simp add: loadFile_def)
  then show ?thesis using loadFile_sorted loadFile_distinct loadFile_nonempty by blast
qed

text \<open>
  How stale file discovery can be: when the environment variable does not override it and
  the file exists, a poll returns the file's current seeds unless the file is not newer than
  the cached one and the cache is younger than the refresh interval; the environment
  variable, when set and not blank, always wins.
\<close>

theorem file_Seeds_freshness:
  "(Env (fopts i) \<noteq> [] \<and> TrimSpace (Getenv e (Env (fopts i))) \<noteq> [] \<longrightarrow>
      file_Seeds e i = (parseSeeds (TrimSpace (Getenv e (Env (fopts i)))), i))
   \<and> (\<not> (Env (fopts i) \<noteq> [] \<and> TrimSpace (Getenv e (Env (fopts i))) \<noteq> []) \<and> Path (fopts i) \<noteq> []
        \<and> Stat e (Path (fopts i)) = Some mt \<longrightarrow>
      fst (file_Seeds e i) = loadFile e (Path (fopts i))
      \<or> fst (file_Seeds e i) = fcache i \<and> mt \<le> fmtime i
          \<and> time_sub (Now e) (flast i) < Refresh (fopts i))"
  by (auto simp: file_Seeds_def Let_def)

theorem file_Seeds_freshness_witness:
  "fst (file_Seeds \<lparr>Getenv = (\<lambda>_. []), Stat = (\<lambda>_. Some 5), Glob = (\<lambda>_. []),
        Open = (\<lambda>_. Some (''b:2,a:1'', False)), Now = 10\<rparr>
      (file_New \<lparr>Path = ''seeds'', Env = [], Refresh = 0\<rparr>)) = [''a:1'', ''b:2'']"
proof -
  let ?e = "\<lparr>Getenv = (\<lambda>_. []), Stat = (\<lambda>_. Some 5), Glob = (\<lambda>_. []),
        Open = (\<lambda>_. Some (''b:2,a:1'', False)), Now = 10\<rparr>"
  let ?i = "file_New \<lparr>Path = ''seeds'', Env = [], Refresh = 0\<rparr>"
  have "loadFile ?e ''seeds'' = [''a:1'', ''b:2'']"
    by (simp add: loadFile_def scan_lines_def line_seeds_def dropCR_def TrimSpace_visible
        visible_def HasPrefix_def Let_def)
  moreover have "fst (file_Seeds ?e ?i) = loadFile ?e ''seeds''"
    using file_Seeds_freshness [of ?i ?e 5] by (auto simp: file_New_def zero_time_def)
  ultimately show ?thesis by simp
qed

text \<open>
  What DNS discovery returns: the addresses all configured names contribute, sorted and
  without duplicates. A blank name contributes nothing; a \<open>host:port\<close> name itself; an SRV name
  its records, or its addresses when there is none; any other name its addresses.
\<close>

theorem dns_resolveAll_spec:
  "sorted (resolveAll r opts) \<and> distinct (resolveAll r opts)
   \<and> set (resolveAll r opts) = (\<Union>n \<in> set (Names opts). set (name_seeds r (Port opts) n))"
  by (simp add: resolveAll_def resolve_names)

text \<open>
  The DNS cache: with a non-empty cache younger than the refresh interval a poll neither
  resolves nor changes anything; otherwise it returns what the resolver says now, and a poll
  made before the refresh interval has passed returns the same, whatever the resolver says.
\<close>

theorem dns_Seeds_cache:
  assumes "time_sub t0 (dlast d) < DRefresh (dopts d) \<longrightarrow> dcache d = []"
    and "resolveAll r (dopts d) \<noteq> []" and "time_sub t2 t1 < DRefresh (dopts d)"
  shows "fst (dns_Seeds r t0 t1 d) = resolveAll r (dopts d)
    \<and> dns_Seeds r' t2 t3 (snd (dns_Seeds r t0 t1 d)) = dns_Seeds r t0 t1 d"
  using assms by (auto simp: dns_Seeds_def Let_def)

theorem dns_Seeds_cache_witness:
  "fst (dns_Seeds \<lparr>LookupSRV = (\<lambda>_ _ _. None), LookupHost = (\<lambda>_. Some [''1.2.3.4''])\<rparr> 0 1
      (dns_New \<lparr>Names = [''h''], Port = 0, DRefresh = 0\<rparr>)) = [''1.2.3.4:7946'']"
proof -
  let ?r = "\<lparr>LookupSRV = (\<lambda>_ _ _. None), LookupHost = (\<lambda>_. Some [''1.2.3.4''])\<rparr>"
  let ?d = "dns_New \<lparr>Names = [''h''], Port = 0, DRefresh = 0\<rparr>"
  have p: "show_nat 7946 = ''7946''" by (simp add: show_nat.simps digits)
  have r: "resolveAll ?r (dopts ?d) = [''1.2.3.4:7946'']"
    by (simp add: resolveAll_def dns_New_def resolve_name_def lookupHost_def add_seen_def
        TrimSpace_visible visible_def HasPrefix_def JoinHostPort_def Itoa_def p Let_def)
  have "dcache ?d = []" by (simp add: dns_New_def Let_def)
  then show ?thesis using dns_Seeds_cache [of 0 ?d ?r 2 1 ?r 3] r by (simp add: dns_New_def Let_def time_sub_def max_duration_def min_duration_def)
qed

text \<open>
  \<open>parseSRVName\<close> takes \<open>_service._proto.name\<close> apart for every service and protocol label
  without a dot, and every domain.
\<close>

theorem parseSRVName_parts:
  assumes "CHR ''.'' \<notin> set svc" and "CHR ''.'' \<notin> set proto"
  shows "parseSRVName (''_'' @ svc @ ''._'' @ proto @ ''.'' @ domain) = (svc, proto, domain)"
proof -
  have "takeWhile (\<lambda>x. x \<noteq> CHR ''.'') (CHR ''_'' # xs @ CHR ''.'' # r) = CHR ''_'' # xs"
    "dropWhile (\<lambda>x. x \<noteq> CHR ''.'') (CHR ''_'' # xs @ CHR ''.'' # r) = CHR ''.'' # r"
    if "CHR ''.'' \<notin> set xs" for xs r
    using that by (induction xs) auto
  then show ?thesis
    using assms by (simp add: parseSRVName_def numeral_3_eq_3 TrimPrefix_def HasPrefix_def Let_def)
qed

theorem parseSRVName_parts_witness:
  "parseSRVName ''_cluster._tcp.example.com'' = (''cluster'', ''tcp'', ''example.com'')"
  using parseSRVName_parts [of "''cluster''" "''tcp''" "''example.com''"] by simp

end
