(* ===== verification/Bootstrap.thy ===== *)
theory Bootstrap
  imports ReplStream ProgRel RaftNode Memberlist HttpJson TlsConfig Discovery
begin

text \<open>
  \<open>pkg/bootstrap/bootstrap.go\<close>: a node is put together from one configuration. \<open>Build\<close> makes
  every component with its own constructor (the models of the other theories) and hands them to
  \<open>cluster.New\<close>; \<open>Run\<close> also starts the cluster. \<open>pkg/transport/udp\<close>, the carrier of the Raft
  address, is here too.
\<close>

section \<open>The Raft address carrier\<close>

record udp_impl =
  u_addr :: string

definition udp_Addr :: "udp_impl \<Rightarrow> string" where
  "udp_Addr i = u_addr i"

definition udp_New :: "string \<Rightarrow> gerror + udp_impl" where
  "udp_New addr = Inr \<lparr>u_addr = addr\<rparr>"

section \<open>Configuration\<close>

text \<open>The logger and the three callbacks are flags that they are set.\<close>

record Config =
  cf_NodeID :: string
  cf_RaftAddr :: string
  cf_MemBind :: string
  cf_MemAdv :: string
  cf_MgmtAddr :: string
  cf_MgmtProto :: string
  cf_DiscoveryKind :: string
  cf_SeedsCSV :: string
  cf_DNSNamesCSV :: string
  cf_DNSPort :: int
  cf_DiscRefresh :: duration
  cf_FilePath :: string
  cf_FileEnv :: string
  cf_DataDir :: string
  cf_Bootstrap :: bool
  cf_TLSEnable :: bool
  cf_TLSCA :: string
  cf_TLSCert :: string
  cf_TLSKey :: string
  cf_TLSServerName :: string
  cf_TLSSkipVerify :: bool
  cf_Logger :: bool
  cf_AppHandlers :: "app_handlers option"
  cf_ReplWindow :: int
  cf_ReplRetry :: duration
  cf_ReplBufferDir :: string
  cf_OnLeaderChange :: bool
  cf_OnElectionStart :: bool
  cf_OnElectionEnd :: bool

section \<open>The components\<close>

datatype discovery_impl = DStatic staticSeeds | DDns dns_impl | DFile file_impl

definition build_discovery :: "Config \<Rightarrow> discovery_impl" where
  "build_discovery cfg =
     (if cf_DiscoveryKind cfg = ''dns'' then
        (let names = static_Parse (cf_DNSNamesCSV cfg);
             opts = \<lparr>Names = names, Port = cf_DNSPort cfg, DRefresh = 0\<rparr>;
             opts = (if cf_DiscRefresh cfg > 0 then opts\<lparr>DRefresh := cf_DiscRefresh cfg\<rparr> else opts)
         in DDns (dns_New opts))
      else if cf_DiscoveryKind cfg = ''file'' then
        (let opts = \<lparr>Path = cf_FilePath cfg, Env = cf_FileEnv cfg, Refresh = 0\<rparr>;
             opts = (if cf_DiscRefresh cfg > 0 then opts\<lparr>Refresh := cf_DiscRefresh cfg\<rparr> else opts)
         in DFile (file_New opts))
      else DStatic (static_New (static_Parse (cf_SeedsCSV cfg))))"

definition build_raft_options :: "Config \<Rightarrow> raft_Options" where
  "build_raft_options cfg =
     \<lparr>ro_NodeID = cf_NodeID cfg, ro_Logger = False, ro_Bootstrap = cf_Bootstrap cfg, ro_HeartbeatTimeout = 0,
      ro_ElectionTimeout = 0, ro_CommitTimeout = 0, ro_ApplyTimeout = 0, ro_BindAddr = cf_RaftAddr cfg,
      ro_DataDir = cf_DataDir cfg, ro_SnapshotsRetained = 0\<rparr>"

definition build_ml_options :: "Config \<Rightarrow> ml_Options" where
  "build_ml_options cfg =
     (let memMeta = (if cf_MgmtAddr cfg \<noteq> [] then gm_put ''mgmt'' (cf_MgmtAddr cfg) [] else [])
      in \<lparr>lo_NodeID = cf_NodeID cfg, lo_Bind = cf_MemBind cfg, lo_Advertise = cf_MemAdv cfg, lo_Meta = Some memMeta,
          lo_Logger = cf_Logger cfg, lo_ProbeInterval = 0, lo_ProbeTimeout = 0, lo_SuspicionMult = 0\<rparr>)"

definition build_tls_options :: "Config \<Rightarrow> tls_Options" where
  "build_tls_options cfg =
     \<lparr>t_Enable = True, t_CAFile = cf_TLSCA cfg, t_CertFile = cf_TLSCert cfg, t_KeyFile = cf_TLSKey cfg,
      t_InsecureSkipVerify = cf_TLSSkipVerify cfg, t_ServerName = cf_TLSServerName cfg\<rparr>"

text \<open>The server's and the client's TLS configuration; both nil when TLS is off.\<close>

definition build_tls ::
  "('c, 'p) tls_env \<Rightarrow> Config \<Rightarrow> gerror + (('c, 'p) tls_Config option \<times> ('c, 'p) tls_Config option)" where
  "build_tls env cfg =
     (if cf_TLSEnable cfg then
        (case tls_ServerHotReload env (build_tls_options cfg) of
           Inl err \<Rightarrow> Inl err
         | Inr s \<Rightarrow> (case tls_ClientHotReload env (build_tls_options cfg) of
               Inl err \<Rightarrow> Inl err
             | Inr c \<Rightarrow> Inr (s, c)))
      else Inr (None, None))"

datatype mgmt_api = ApiGrpc Server grpc_Client | ApiHttp http_Server http_Client

definition build_api :: "Config \<Rightarrow> ('c, 'p) tls_Config option \<Rightarrow> ('c, 'p) tls_Config option \<Rightarrow> mgmt_api" where
  "build_api cfg srvTLS cliTLS =
     (if cf_MgmtProto cfg = ''grpc'' then
        (let s = NewServer (cf_MgmtAddr cfg);
             s = (if srvTLS \<noteq> None then UseTLS True s else s);
             c = grpc_NewClient (3 * second);
             c = (if cliTLS \<noteq> None then grpc_UseTLS True c else c)
         in ApiGrpc s c)
      else
        (let s = http_NewServer (cf_MgmtAddr cfg);
             s = (if srvTLS \<noteq> None then http_server_UseTLS True s else s);
             c = http_NewClient (3 * second);
             c = (if cliTLS \<noteq> None then http_client_UseTLS True c else c)
         in ApiHttp s c))"

fun api_Addr :: "mgmt_api \<Rightarrow> string" where
  "api_Addr (ApiGrpc s c) = server_Addr s"
| "api_Addr (ApiHttp s c) = http_Addr s"

text \<open>Everything \<open>Build\<close> constructs before \<open>cluster.New\<close>.\<close>

record ('c, 'p, 'r, 'm) built =
  bt_Transport :: udp_impl
  bt_Discovery :: discovery_impl
  bt_Consensus :: "'r Node"
  bt_Membership :: "'m ml_impl"
  bt_srvTLS :: "('c, 'p) tls_Config option"
  bt_cliTLS :: "('c, 'p) tls_Config option"
  bt_api :: mgmt_api

definition build_parts :: "('c, 'p) tls_env \<Rightarrow> Config \<Rightarrow> gerror + ('c, 'p, 'r, 'm) built" where
  "build_parts env cfg0 =
     (let cfg = cfg0\<lparr>cf_Logger := True\<rparr>
      in case udp_New (cf_RaftAddr cfg) of
           Inl err \<Rightarrow> Inl err
         | Inr tr \<Rightarrow>
             (case node_New (build_raft_options cfg) of
                Inl err \<Rightarrow> Inl err
              | Inr cons \<Rightarrow>
                  (case ml_New (build_ml_options cfg) of
                     Inl err \<Rightarrow> Inl err
                   | Inr mem \<Rightarrow>
                       (case build_tls env cfg of
                          Inl err \<Rightarrow> Inl err
                        | Inr (s, c) \<Rightarrow>
                            Inr \<lparr>bt_Transport = tr, bt_Discovery = build_discovery cfg, bt_Consensus = cons,
                              bt_Membership = mem, bt_srvTLS = s, bt_cliTLS = c, bt_api = build_api cfg s c\<rparr>))))"

text \<open>
  The cluster sees a component through its interface, as the answers it gives over time. What
  these are depends on the libraries underneath (Raft, gossip, network, resolver), so they are
  a parameter \<open>wire\<close>; what the code fixes is filled in: a static seed list answers itself, the
  Raft node implements reconfiguration and leader notification, a server's address is the one
  it was made with.
\<close>

record ('r, 'm) wire =
  w_seeds :: "discovery_impl \<Rightarrow> trace \<Rightarrow> string list"
  w_consensus :: "'r Node \<Rightarrow> consensus"
  w_reconf :: "'r Node \<Rightarrow> reconfigurer"
  w_membership :: "'m ml_impl \<Rightarrow> membership"
  w_server :: "mgmt_api \<Rightarrow> rpc_server"
  w_client :: "mgmt_api \<Rightarrow> rpc_client"
  w_Clock :: "trace \<Rightarrow> time"

definition seeds_of :: "('r, 'm) wire \<Rightarrow> discovery_impl \<Rightarrow> trace \<Rightarrow> string list" where
  "seeds_of wr d = (case d of DStatic s \<Rightarrow> (\<lambda>_. static_Seeds s) | _ \<Rightarrow> w_seeds wr d)"

definition build_options :: "('r, 'm) wire \<Rightarrow> Config \<Rightarrow> ('c, 'p, 'r, 'm) built \<Rightarrow> Options" where
  "build_options wr cfg b =
     \<lparr>o_NodeID = cf_NodeID cfg, o_Transport = Some (udp_Addr (bt_Transport b)),
      o_Discovery = Some (seeds_of wr (bt_Discovery b)), o_Logger = True,
      o_Consensus = Some ((w_consensus wr (bt_Consensus b))\<lparr>c_Reconf := Some (w_reconf wr (bt_Consensus b)), c_Notifier := True\<rparr>),
      o_Membership = Some (w_membership wr (bt_Membership b)),
      o_RPCServer = Some ((w_server wr (bt_api b))\<lparr>s_Addr := (\<lambda>_. api_Addr (bt_api b))\<rparr>),
      o_RPCClient = Some (w_client wr (bt_api b)),
      o_AppHandlers = cf_AppHandlers cfg, o_ReplWindow = cf_ReplWindow cfg, o_ReplRetry = cf_ReplRetry cfg,
      o_BufferDir = cf_ReplBufferDir cfg, o_OnLeaderChange = cf_OnLeaderChange cfg,
      o_OnElectionStart = cf_OnElectionStart cfg, o_OnElectionEnd = cf_OnElectionEnd cfg, o_Clock = w_Clock wr\<rparr>"

section \<open>Build and Run\<close>

text \<open>A cluster is its options and its state; \<open>f\<close> is the file system it runs on.\<close>

definition Build ::
  "('r, 'm) wire \<Rightarrow> ('c, 'p) tls_env \<Rightarrow> fs \<Rightarrow> Config \<Rightarrow> gerror + (Options \<times> Cluster)" where
  "Build wr env f cfg =
     (case (build_parts env cfg :: gerror + ('c, 'p, 'r, 'm) built) of
        Inl err \<Rightarrow> Inl err
      | Inr b \<Rightarrow>
          (let o1 = build_options wr cfg b
           in case cluster_New o1 f of Inl err \<Rightarrow> Inl err | Inr cl \<Rightarrow> Inr (o1, cl)))"

text \<open>
  \<open>Run\<close> returns an error or nil; the second component is the cluster that exists afterwards,
  which the caller gets only with nil.
\<close>

definition Run ::
  "('r, 'm) wire \<Rightarrow> ('c, 'p) tls_env \<Rightarrow> fs \<Rightarrow> Config \<Rightarrow> gerror option \<times> (Options \<times> Cluster) option" where
  "Run wr env f cfg =
     (case Build wr env f cfg of
        Inl err \<Rightarrow> (Some err, None)
      | Inr (o1, cl) \<Rightarrow> (case run_state (Start o1) cl of (res, cl') \<Rightarrow> (res, Some (o1, cl'))))"


section \<open>Properties\<close>

text \<open>What reading the CA file gives; without a file there is nothing to read.\<close>

definition ca_error :: "('c, 'p) tls_env \<Rightarrow> Config \<Rightarrow> gerror option" where
  "ca_error env cfg =
     (if cf_TLSCA cfg = [] then None
      else (case te_ReadFile env (cf_TLSCA cfg) of Inl err \<Rightarrow> Some err | Inr _ \<Rightarrow> None))"

text \<open>The certificates, verification and reloading that a pair of TLS configurations must have.\<close>

definition tls_pair_ok :: "Config \<Rightarrow> ('c, 'p) tls_Config option \<Rightarrow> ('c, 'p) tls_Config option \<Rightarrow> bool" where
  "tls_pair_ok cfg s c =
     (case (s, c) of
        (Some s', Some c') \<Rightarrow> cf_TLSEnable cfg \<and> cfg_Reload s' \<and> cfg_Reload c'
          \<and> cfg_RequireClientCert s' = (cf_TLSCA cfg \<noteq> []) \<and> cfg_ClientCAs s' = cfg_RootCAs c'
          \<and> cfg_ServerName c' = cf_TLSServerName cfg \<and> cfg_InsecureSkipVerify c' = cf_TLSSkipVerify cfg
      | (None, None) \<Rightarrow> \<not> cf_TLSEnable cfg
      | _ \<Rightarrow> False)"

lemma build_tls_cases:
  "case build_tls env cfg of
     Inl err \<Rightarrow> cf_TLSEnable cfg
       \<and> Some err = (if cf_TLSCert cfg = [] \<or> cf_TLSKey cfg = [] then Some tls_cert_required else ca_error env cfg)
   | Inr (s, c) \<Rightarrow> tls_pair_ok cfg s c
       \<and> (cf_TLSEnable cfg \<longrightarrow> cf_TLSCert cfg \<noteq> [] \<and> cf_TLSKey cfg \<noteq> [] \<and> ca_error env cfg = None)"
  by (auto simp: build_tls_def build_tls_options_def ca_error_def tls_ServerHotReload_def tls_ClientHotReload_def
      tls_client_cas_def tls_root_cas_def tls_client_base_def tls_zero_def tls_pair_ok_def Let_def
      split: sum.splits option.splits)

lemma logger_irrelevant [simp]:
  "ca_error env (cfg\<lparr>cf_Logger := b\<rparr>) = ca_error env cfg"
  "tls_pair_ok (cfg\<lparr>cf_Logger := b\<rparr>) = tls_pair_ok cfg"
  "build_api (cfg\<lparr>cf_Logger := b\<rparr>) = build_api cfg"
  by (simp_all add: ca_error_def tls_pair_ok_def build_api_def fun_eq_iff split: option.splits)

lemma cluster_New_built:
  "cf_NodeID cfg \<noteq> [] \<Longrightarrow> cluster_New (build_options wr cfg b) f =
     Inr \<lparr>started = False, stopped = False, hadLeader = False, inProgress = False, crep = rep0, cdisk = f, hist = []\<rparr>"
  by (simp add: cluster_New_def Validate_def build_options_def)

lemma find_distinct: "distinct (map f xs) \<Longrightarrow> x \<in> set xs \<Longrightarrow> find (\<lambda>y. f y = f x) xs = Some x"
  by (induction xs) auto

lemmas build_defs = build_parts_def udp_New_def node_New_def build_raft_options_def ml_New_def build_ml_options_def Let_def

text \<open>
  C24. When a node can be built. \<open>Build\<close> fails exactly for an empty node ID, an empty membership
  address, TLS without certificate or key, and TLS with an unreadable CA file, checked in this
  order and each with its own error; the validation of \<open>cluster.New\<close> never fails after them. In
  every other case it returns a cluster that is not started and has made no calls.
\<close>

theorem Build_outcome:
  "case Build wr env f cfg of
     Inl err \<Rightarrow>
       Some err = (if cf_NodeID cfg = [] then Some ''raftcons: empty NodeID''
         else if cf_MemBind cfg = [] then Some ''memberlist: empty Bind address''
         else if \<not> cf_TLSEnable cfg then None
         else if cf_TLSCert cfg = [] \<or> cf_TLSKey cfg = [] then Some tls_cert_required
         else ca_error env cfg)
   | Inr (o1, cl) \<Rightarrow>
       cf_NodeID cfg \<noteq> [] \<and> cf_MemBind cfg \<noteq> []
     \<and> (if cf_TLSEnable cfg then cf_TLSCert cfg \<noteq> [] \<and> cf_TLSKey cfg \<noteq> [] \<and> ca_error env cfg = None else True)
     \<and> started cl = False \<and> stopped cl = False \<and> hist cl = [] \<and> cdisk cl = f"
  using build_tls_cases [where env = env and cfg = "cfg\<lparr>cf_Logger := True\<rparr>"]
  by (cases "cf_NodeID cfg = []") (auto simp: Build_def build_defs cluster_New_built split: sum.splits if_splits)

text \<open>
  C23. What is built fits together. The options of a built cluster are valid, and every optional
  component is there. The consensus engine can be reconfigured and reports leader changes. The
  Raft node, the membership layer and the cluster have the configured ID; Raft listens on the
  address this node joins with, and the management server has the configured address. Server
  and client speak the same protocol and both or neither use TLS; with a CA file the server
  demands client certificates of the same authority by which the client checks servers.
\<close>

theorem Build_consistent:
  fixes b :: "('c, 'p, 'r, 'm) built"
  assumes "build_parts env cfg = Inr b"
  shows "let o1 = build_options wr cfg b in Validate o1 = None \<and> Build wr env f cfg = Inr (o1, snd (projr (Build wr env f cfg)))
    \<and> (\<exists>k rs c m. o_Consensus o1 = Some k \<and> c_Reconf k \<noteq> None \<and> c_Notifier k \<and> o_RPCServer o1 = Some rs
        \<and> s_Addr rs h = cf_MgmtAddr cfg \<and> o_RPCClient o1 = Some c \<and> o_Membership o1 = Some m)
    \<and> o_NodeID o1 = cf_NodeID cfg \<and> ro_NodeID (nd_opts (bt_Consensus b)) = cf_NodeID cfg
    \<and> lo_NodeID (i_opts (bt_Membership b)) = cf_NodeID cfg
    \<and> o_Transport o1 = Some (ro_BindAddr (nd_opts (bt_Consensus b))) \<and> tls_pair_ok cfg (bt_srvTLS b) (bt_cliTLS b)
    \<and> (case bt_api b of
         ApiGrpc s c \<Rightarrow> cf_MgmtProto cfg = ''grpc'' \<and> tlsCfg s = cf_TLSEnable cfg \<and> gc_tls c = cf_TLSEnable cfg
       | ApiHttp s c \<Rightarrow> cf_MgmtProto cfg \<noteq> ''grpc'' \<and> hs_tls s = cf_TLSEnable cfg \<and> hc_isTLS c = cf_TLSEnable cfg)"
proof -
  have n: "cf_NodeID cfg \<noteq> []" using assms by (auto simp: build_defs split: if_splits)
  obtain s c where t: "build_tls env (cfg\<lparr>cf_Logger := True\<rparr>) = Inr (s, c)" "bt_srvTLS b = s" "bt_cliTLS b = c"
    "bt_api b = build_api cfg s c"
    using assms by (auto simp: build_defs split: if_splits sum.splits)
  have ok: "tls_pair_ok cfg s c" using build_tls_cases [where env = env and cfg = "cfg\<lparr>cf_Logger := True\<rparr>"] t(1) by simp
  then have "(s \<noteq> None) = cf_TLSEnable cfg" "(c \<noteq> None) = cf_TLSEnable cfg"
    by (auto simp: tls_pair_ok_def split: option.splits)
  then have api: "case bt_api b of
         ApiGrpc s c \<Rightarrow> cf_MgmtProto cfg = ''grpc'' \<and> tlsCfg s = cf_TLSEnable cfg \<and> gc_tls c = cf_TLSEnable cfg
       | ApiHttp s c \<Rightarrow> cf_MgmtProto cfg \<noteq> ''grpc'' \<and> hs_tls s = cf_TLSEnable cfg \<and> hc_isTLS c = cf_TLSEnable cfg"
    "api_Addr (bt_api b) = cf_MgmtAddr cfg"
    by (auto simp: t(4) build_api_def NewServer_def UseTLS_def grpc_NewClient_def grpc_UseTLS_def http_NewServer_def
        http_server_UseTLS_def http_NewClient_def http_client_UseTLS_def server_Addr_def http_Addr_def Let_def)
  have ids: "ro_NodeID (nd_opts (bt_Consensus b)) = cf_NodeID cfg" "lo_NodeID (i_opts (bt_Membership b)) = cf_NodeID cfg"
    "u_addr (bt_Transport b) = cf_RaftAddr cfg" "ro_BindAddr (nd_opts (bt_Consensus b)) = cf_RaftAddr cfg"
    using assms by (auto simp: build_defs split: if_splits sum.splits)
  have "Validate (build_options wr cfg b) = None" using n by (simp add: Validate_def build_options_def)
  moreover have "Build wr env f cfg = Inr (build_options wr cfg b, snd (projr (Build wr env f cfg)))"
    using assms by (simp add: Build_def Let_def cluster_New_built [OF n])
  ultimately show ?thesis
    using ok t api ids by (simp add: Let_def) (simp add: build_options_def udp_Addr_def)
qed


text \<open>A node with a static seed list, TLS and a CA file, on libraries that always answer.\<close>

definition cfg1 :: Config where
  "cfg1 = \<lparr>cf_NodeID = ''n1'', cf_RaftAddr = ''h:1'', cf_MemBind = ''h:7946'', cf_MemAdv = [], cf_MgmtAddr = ''h:2'',
     cf_MgmtProto = ''grpc'', cf_DiscoveryKind = [], cf_SeedsCSV = ''a:1, b:1'', cf_DNSNamesCSV = [], cf_DNSPort = 0,
     cf_DiscRefresh = 0, cf_FilePath = [], cf_FileEnv = [], cf_DataDir = [], cf_Bootstrap = True, cf_TLSEnable = True,
     cf_TLSCA = ''ca'', cf_TLSCert = ''c'', cf_TLSKey = ''k'', cf_TLSServerName = [], cf_TLSSkipVerify = False,
     cf_Logger = False, cf_AppHandlers = None, cf_ReplWindow = 0, cf_ReplRetry = 0, cf_ReplBufferDir = [],
     cf_OnLeaderChange = False, cf_OnElectionStart = False, cf_OnElectionEnd = False\<rparr>"

definition tls_env1 :: "(nat, bytes) tls_env" where
  "tls_env1 = \<lparr>te_LoadX509KeyPair = (\<lambda>_ _. Inr 0), te_ReadFile = (\<lambda>p. Inr p), te_Pool = (\<lambda>b. b)\<rparr>"

definition wire1 :: "(unit, unit) wire" where
  "wire1 = \<lparr>w_seeds = (\<lambda>_ _. []), w_consensus = (\<lambda>_. leader1),
     w_reconf = (\<lambda>_. \<lparr>rc_AddVoter = (\<lambda>_. None), rc_RemoveServer = (\<lambda>_. None)\<rparr>), w_membership = (\<lambda>_. members1),
     w_server = (\<lambda>_. server1), w_client = (\<lambda>_. client1 status1), w_Clock = (\<lambda>_. 0)\<rparr>"

definition built1 :: "(nat, bytes, unit, unit) built" where
  "built1 = projr (build_parts tls_env1 cfg1)"

definition fs1 :: fs where
  "fs1 = \<lparr>files = [], dirs = [], io_err = []\<rparr>"

lemma built1: "build_parts tls_env1 cfg1 = Inr built1"
  by (simp add: built1_def build_defs build_tls_def build_tls_options_def tls_ServerHotReload_def
      tls_ClientHotReload_def tls_client_cas_def tls_root_cas_def tls_env1_def cfg1_def)

theorem Build_consistent_witness:
  "Validate (build_options wire1 cfg1 built1) = None \<and> o_NodeID (build_options wire1 cfg1 built1) = ''n1''
   \<and> tls_pair_ok cfg1 (bt_srvTLS built1) (bt_cliTLS built1)"
  using Build_consistent [OF built1, of wire1 fs1 "[]"] by (simp add: Let_def cfg1_def)

text \<open>
  C32. The advertised management address. If gossip carries a built node's metadata and the
  metadata fits the library's limit, then every peer that lists the node once resolves its ID to
  exactly the address the node's management server was made with: joins, writes and status
  requests that are redirected to the leader go to the server \<open>Build\<close> made for it.
\<close>

theorem advertised_mgmt_address:
  fixes b :: "('c, 'p, 'r, 'm) built"
  assumes "build_parts env cfg = Inr b" and "ml_config q def (i_opts (bt_Membership b)) = Inr mc"
    and "valid_utf8 (cf_MgmtAddr cfg)" and "cf_MgmtAddr cfg \<noteq> []"
    and "int (length (DelegateMeta mc)) \<le> limit" and "mn_Meta n = NodeMeta (DelegateMeta mc) limit"
    and "mn_Name n = Name mc" and "n \<in> set ns" and "distinct (map mn_Name ns)"
    and "o_Membership peer = Some m" and "m_Members m (hist s @ [MemMembers]) = map member_of ns"
  shows "fst (run_state (lookupMemberAddr peer (cf_NodeID cfg)) s) = api_Addr (bt_api b)"
proof -
  have api: "api_Addr (bt_api b) = cf_MgmtAddr cfg"
    and meta: "lo_Meta (i_opts (bt_Membership b)) = Some [(''mgmt'', cf_MgmtAddr cfg)]"
    and i: "lo_NodeID (i_opts (bt_Membership b)) = cf_NodeID cfg"
    using assms(1,4)
    by (auto simp: build_defs build_api_def NewServer_def UseTLS_def http_NewServer_def
        http_server_UseTLS_def server_Addr_def http_Addr_def split: if_splits sum.splits)
  have "mn_Meta n = Marshal (enc_map (Some [(''mgmt'', cf_MgmtAddr cfg)]))"
    using assms(5,6) ml_config_meta [OF assms(2)] meta by (simp add: NodeMeta_def)
  then have "Meta (member_of n) = Some [(''mgmt'', cf_MgmtAddr cfg)]"
    using assms(3) by (simp add: member_of_def node_meta_enc valid_utf8_all_ascii)
  then have a: "mgmt_addr (member_of n) = cf_MgmtAddr cfg" using assms(4) by (simp add: mgmt_addr_def)
  have "Name mc = cf_NodeID cfg"
    using assms(2) i by (auto simp: ml_config_def Let_def split: sum.splits prod.splits if_splits)
  moreover have "ID (member_of y) = mn_Name y" for y by (simp add: member_of_def)
  ultimately have "find (\<lambda>x. ID x = cf_NodeID cfg) (map member_of ns) = Some (member_of n)"
    using assms(7-9) find_distinct [of ID "map member_of ns" "member_of n"] by (simp add: comp_def)
  then show ?thesis using assms(10,11) a api by (simp add: lookupMemberAddr_def)
qed

definition gossiped :: "bytes \<Rightarrow> ml_Node" where
  "gossiped meta = \<lparr>mn_Name = ''n1'', mn_Host = ''10.0.0.1'', mn_Port = 7946, mn_Meta = NodeMeta meta 512\<rparr>"

theorem advertised_mgmt_address_witness:
  "\<exists>meta. fst (run_state (lookupMemberAddr
       (opts1\<lparr>o_Membership := Some (members1\<lparr>m_Members := (\<lambda>_. [member_of (gossiped meta)])\<rparr>)\<rparr>) ''n1'') cluster1) = ''h:2''"
proof -
  have o: "i_opts (bt_Membership built1) = lo1\<lparr>lo_Meta := Some [(''mgmt'', ''h:2'')]\<rparr>" "api_Addr (bt_api built1) = ''h:2''"
    by (simp_all add: built1_def build_defs build_tls_def build_tls_options_def tls_ServerHotReload_def
      tls_ClientHotReload_def tls_client_cas_def tls_root_cas_def tls_env1_def cfg1_def build_api_def NewServer_def
      UseTLS_def server_Addr_def lo1_def)
  let ?mc = "(l_DefaultLANConfig lib1)\<lparr>Name := ''n1'', BindAddr := ''h'', BindPort := 7946,
     DelegateMeta := Marshal (enc_map (Some [(''mgmt'', ''h:2'')]))\<rparr>"
  have "ml_address q ''bind'' ''h:7946'' = Inr (''h'', 7946)" for q
    using ml_address_ok [of "''h''" 7946 q "''bind''"]
    by (simp add: JoinHostPort_def show_nat.simps digits)
  then have c: "ml_config (\<lambda>s. s) (l_DefaultLANConfig lib1) (i_opts (bt_Membership built1)) = Inr ?mc"
    by (simp add: ml_config_def lo1_def Let_def o)
  have l: "int (length (DelegateMeta ?mc)) \<le> 512"
    by (simp add: enc_map_def show_json.simps quote_def quote_body.simps esc_def)
  let ?n = "gossiped (DelegateMeta ?mc)"
  have v: "valid_utf8 (cf_MgmtAddr cfg1)" "cf_MgmtAddr cfg1 \<noteq> []" by (simp_all add: cfg1_def valid_utf8_all_ascii)
  have n: "mn_Meta ?n = NodeMeta (DelegateMeta ?mc) 512" "mn_Name ?n = Name ?mc" "?n \<in> set [?n]" "distinct (map mn_Name [?n])"
    by (simp_all add: gossiped_def)
  show ?thesis
    using advertised_mgmt_address [OF built1 c v l n, where s = cluster1
        and peer = "opts1\<lparr>o_Membership := Some (members1\<lparr>m_Members := (\<lambda>_. [member_of ?n])\<rparr>)\<rparr>"
        and m = "members1\<lparr>m_Members := (\<lambda>_. [member_of ?n])\<rparr>"] o(2)
    by (intro exI [of _ "DelegateMeta ?mc"]) (simp add: cfg1_def)
qed

section \<open>Run\<close>

text \<open>
  Running a node. When the node can be built, \<open>Run\<close> attempts to start membership, consensus and
  server, in this order, up to the first that fails, and returns that error or nil; with nil all
  three have started. When a start fails, what was started before it stays as it is: no stop or
  leave is called, and the caller, who gets no cluster, cannot make up for it.
\<close>

theorem Run_outcome:
  fixes b :: "('c, 'p, 'r, 'm) built"
  assumes "build_parts env cfg = Inr b"
  shows "\<exists>cl k m rs. Run wr env f cfg = (fst (Run wr env f cfg), Some (build_options wr cfg b, cl))
    \<and> o_Consensus (build_options wr cfg b) = Some k \<and> o_Membership (build_options wr cfg b) = Some m
    \<and> o_RPCServer (build_options wr cfg b) = Some rs
    \<and> start_outcome m k rs (hist cl) (fst (Run wr env f cfg)) \<and> set (hist cl) \<inter> stop_calls = {}"
proof -
  let ?o = "build_options wr cfg b"
  let ?s = "\<lparr>started = False, stopped = False, hadLeader = False, inProgress = False, crep = rep0, cdisk = f, hist = []\<rparr>"
  have n: "cf_NodeID cfg \<noteq> []" using assms by (auto simp: build_defs split: if_splits)
  have r: "Run wr env f cfg = (fst (run_state (Start ?o) ?s), Some (?o, snd (run_state (Start ?o) ?s)))"
    using assms by (simp add: Run_def Build_def Let_def cluster_New_built [OF n] split: prod.splits)
  obtain k m rs where c: "o_Consensus ?o = Some k" "o_Membership ?o = Some m" "o_RPCServer ?o = Some rs"
    by (simp add: build_options_def)
  have h: "new_calls (Start ?o) ?s = hist (snd (run_state (Start ?o) ?s))" by (simp add: new_calls_def)
  have "start_outcome m k rs (new_calls (Start ?o) ?s) (fst (run_state (Start ?o) ?s))"
    using c by (intro first_Start) simp_all
  moreover have "set (new_calls (Start ?o) ?s) \<inter> stop_calls = {}"
    using only_calls_new [OF Start_stops_nothing] by blast
  ultimately show ?thesis unfolding h using r c by auto
qed

theorem Run_outcome_witness:
  "\<exists>cl k m rs. Run wire1 tls_env1 fs1 cfg1 = (fst (Run wire1 tls_env1 fs1 cfg1), Some (build_options wire1 cfg1 built1, cl))
    \<and> start_outcome m k rs (hist cl) (fst (Run wire1 tls_env1 fs1 cfg1)) \<and> set (hist cl) \<inter> stop_calls = {}"
  using Run_outcome [OF built1, of wire1 fs1] by blast

end
