(* ===== verification/Cli.thy ===== *)
theory Cli
  imports Bootstrap
begin

text \<open>
  \<open>pkg/cli/cli.go\<close>: the commands \<open>run\<close>, \<open>status\<close>, \<open>join\<close> and \<open>leave\<close>. A command is a function of its
  flags, with the values the command line parser leaves in them; it returns an error or nil and
  what it wrote to standard output. The management clients run over the libraries given by
  \<open>cli_env\<close>, on a world \<open>'w\<close>.
\<close>

section \<open>The run command\<close>

record run_flags =
  rf_id :: string
  rf_raftAddr :: string
  rf_memBind :: string
  rf_memAdv :: string
  rf_joinCSV :: string
  rf_mgmtAddr :: string
  rf_mgmtProto :: string
  rf_discoveryKind :: string
  rf_dnsNames :: string
  rf_filePath :: string
  rf_fileEnv :: string
  rf_dnsPort :: int
  rf_discRefresh :: duration
  rf_tlsEnable :: bool
  rf_tlsSkip :: bool
  rf_traceEnable :: bool
  rf_doBootstrap :: bool
  rf_tlsCA :: string
  rf_tlsCert :: string
  rf_tlsKey :: string
  rf_tlsServerName :: string
  rf_dataDir :: string

definition run_defaults :: run_flags where
  "run_defaults =
     \<lparr>rf_id = [], rf_raftAddr = '':9520'', rf_memBind = '':7946'', rf_memAdv = [], rf_joinCSV = [],
      rf_mgmtAddr = '':17946'', rf_mgmtProto = ''http'', rf_discoveryKind = ''static'', rf_dnsNames = [],
      rf_filePath = [], rf_fileEnv = [], rf_dnsPort = 7946, rf_discRefresh = 5 * second, rf_tlsEnable = False,
      rf_tlsSkip = False, rf_traceEnable = False, rf_doBootstrap = False, rf_tlsCA = [], rf_tlsCert = [],
      rf_tlsKey = [], rf_tlsServerName = [], rf_dataDir = []\<rparr>"

definition run_config :: "run_flags \<Rightarrow> Config" where
  "run_config fl =
     \<lparr>cf_NodeID = rf_id fl, cf_RaftAddr = rf_raftAddr fl, cf_MemBind = rf_memBind fl, cf_MemAdv = rf_memAdv fl,
      cf_MgmtAddr = rf_mgmtAddr fl, cf_MgmtProto = rf_mgmtProto fl, cf_DiscoveryKind = rf_discoveryKind fl,
      cf_SeedsCSV = rf_joinCSV fl, cf_DNSNamesCSV = rf_dnsNames fl, cf_DNSPort = rf_dnsPort fl,
      cf_DiscRefresh = rf_discRefresh fl, cf_FilePath = rf_filePath fl, cf_FileEnv = rf_fileEnv fl,
      cf_DataDir = rf_dataDir fl, cf_Bootstrap = rf_doBootstrap fl, cf_TLSEnable = rf_tlsEnable fl,
      cf_TLSCA = rf_tlsCA fl, cf_TLSCert = rf_tlsCert fl, cf_TLSKey = rf_tlsKey fl,
      cf_TLSServerName = rf_tlsServerName fl, cf_TLSSkipVerify = rf_tlsSkip fl, cf_Logger = True,
      cf_AppHandlers = None, cf_ReplWindow = 0, cf_ReplRetry = 0, cf_ReplBufferDir = [],
      cf_OnLeaderChange = False, cf_OnElectionStart = False, cf_OnElectionEnd = False\<rparr>"

text \<open>
  \<open>life\<close> is what happens to the running cluster until a signal ends the context. Closing is
  deferred, and so done also then; \<open>Tracing\<close> adds the flag \<open>trace\<close>.
\<close>

definition run_RunE ::
  "('r, 'm) wire \<Rightarrow> ('c, 'p) tls_env \<Rightarrow> fs \<Rightarrow> (Cluster \<Rightarrow> Cluster) \<Rightarrow> run_flags \<Rightarrow>
   (gerror option \<times> bytes) \<times> (Options \<times> Cluster) option" where
  "run_RunE wr env f life fl =
     (if rf_id fl = [] then ((Some ''missing -id'', []), None)
      else (case Run wr env f (run_config fl) of
          (Some err, cl) \<Rightarrow> ((Some err, []), cl)
        | (None, Some (o1, cl)) \<Rightarrow>
            ((None, ''cluster running. Press Ctrl+C to exit.'' @ [CHR 0x0A]),
             Some (o1, snd (run_state (cluster_Close o1) (life cl))))
        | (None, None) \<Rightarrow> ((None, []), None)))"

section \<open>The management commands\<close>

record rpc_flags =
  fl_id :: string
  fl_addr :: string
  fl_mgmtProto :: string
  fl_timeout :: duration
  fl_tlsEnable :: bool
  fl_tlsSkip :: bool
  fl_tlsCA :: string
  fl_tlsCert :: string
  fl_tlsKey :: string
  fl_tlsServerName :: string

record join_flags = rpc_flags +
  fl_raftAddr :: string

definition leave_defaults :: rpc_flags where
  "leave_defaults =
     \<lparr>fl_id = [], fl_addr = ''127.0.0.1:17946'', fl_mgmtProto = ''http'', fl_timeout = 3 * second,
      fl_tlsEnable = False, fl_tlsSkip = False, fl_tlsCA = [], fl_tlsCert = [], fl_tlsKey = [], fl_tlsServerName = []\<rparr>"

definition join_defaults :: join_flags where
  "join_defaults = rpc_flags.extend leave_defaults \<lparr>fl_raftAddr = []\<rparr>"

text \<open>What the libraries do for a client and a time limit.\<close>

record 'w cli_env =
  v_grpc :: "duration \<Rightarrow> grpc_Client \<Rightarrow> 'w net"
  v_http :: "duration \<Rightarrow> http_Client \<Rightarrow> 'w http_net"

datatype cli_client = CliGrpc grpc_Client | CliHttp http_Client

definition cli_tls :: "('c, 'p) tls_env \<Rightarrow> 'z rpc_flags_scheme \<Rightarrow> gerror + ('c, 'p) tls_Config option" where
  "cli_tls env fl =
     (if fl_tlsEnable fl then
        (case tls_Client env
            \<lparr>t_Enable = True, t_CAFile = fl_tlsCA fl, t_CertFile = fl_tlsCert fl, t_KeyFile = fl_tlsKey fl,
             t_InsecureSkipVerify = fl_tlsSkip fl, t_ServerName = fl_tlsServerName fl\<rparr> of
           Inl err \<Rightarrow> Inl (''tls client config: '' @ err)
         | Inr c \<Rightarrow> Inr c)
      else Inr None)"

definition cli_client :: "'z rpc_flags_scheme \<Rightarrow> ('c, 'p) tls_Config option \<Rightarrow> cli_client" where
  "cli_client fl cliTLS =
     (if fl_mgmtProto fl = ''grpc'' then
        (let c = grpc_NewClient (fl_timeout fl)
         in CliGrpc (if cliTLS \<noteq> None then grpc_UseTLS True c else c))
      else
        (let c = http_NewClient (fl_timeout fl)
         in CliHttp (if cliTLS \<noteq> None then http_client_UseTLS True c else c)))"

text \<open>Both clients implement both calls, so the type assertion of \<open>leave\<close> always succeeds.\<close>

definition http_result :: "('r \<times> gerror option) \<times> 'w \<Rightarrow> (gerror + 'r) \<times> 'w" where
  "http_result = apfst (\<lambda>(r, err). case err of None \<Rightarrow> Inr r | Some e \<Rightarrow> Inl e)"

definition cli_PostJoin where
  "cli_PostJoin v t client addr req w =
     (case client of
        CliGrpc c \<Rightarrow> client_PostJoin (v_grpc v t c) addr req w
      | CliHttp c \<Rightarrow> http_result (http_PostJoin c (v_http v t c) addr req w))"

definition cli_PostLeave where
  "cli_PostLeave v t client addr req w =
     (case client of
        CliGrpc c \<Rightarrow> client_PostLeave (v_grpc v t c) addr req w
      | CliHttp c \<Rightarrow> http_result (http_PostLeave c (v_http v t c) addr req w))"

definition join_RunE ::
  "'w cli_env \<Rightarrow> ('c, 'p) tls_env \<Rightarrow> join_flags \<Rightarrow> 'w \<Rightarrow> (gerror option \<times> bytes) \<times> 'w" where
  "join_RunE v env fl w =
     (if fl_id fl = [] \<or> fl_raftAddr fl = []
      then ((Some ''missing required flags: -id and -raft-addr'', []), w)
      else (case cli_tls env fl of
          Inl err \<Rightarrow> ((Some err, []), w)
        | Inr cliTLS \<Rightarrow>
            (case cli_PostJoin v (fl_timeout fl) (cli_client fl cliTLS) (fl_addr fl)
                    \<lparr>jq_ID = fl_id fl, jq_RaftAddr = fl_raftAddr fl\<rparr> w of
               (Inl err, w') \<Rightarrow> ((Some (''join error: '' @ err), []), w')
             | (Inr resp, w') \<Rightarrow> ((None, Encode (enc_JoinResponse resp)), w'))))"

definition leave_RunE ::
  "'w cli_env \<Rightarrow> ('c, 'p) tls_env \<Rightarrow> rpc_flags \<Rightarrow> 'w \<Rightarrow> (gerror option \<times> bytes) \<times> 'w" where
  "leave_RunE v env fl w =
     (if fl_id fl = [] then ((Some ''missing required flag: -id'', []), w)
      else (case cli_tls env fl of
          Inl err \<Rightarrow> ((Some err, []), w)
        | Inr cliTLS \<Rightarrow>
            (case cli_PostLeave v (fl_timeout fl) (cli_client fl cliTLS) (fl_addr fl) \<lparr>lq_ID = fl_id fl\<rparr> w of
               (Inl err, w') \<Rightarrow> ((Some (''leave error: '' @ err), []), w')
             | (Inr resp, w') \<Rightarrow> ((None, Encode (enc_LeaveResponse resp)), w'))))"

text \<open>\<open>status\<close> has no choice of protocol and no TLS. The outer \<open>None\<close> of the client does not occur.\<close>

definition with_newline :: "bytes \<Rightarrow> bytes" where
  "with_newline data = (if data = [] \<or> last data \<noteq> CHR 0x0A then data @ [CHR 0x0A] else data)"

definition status_RunE ::
  "'w cli_env \<Rightarrow> string \<Rightarrow> duration \<Rightarrow> 'w \<Rightarrow> (gerror option \<times> bytes) \<times> 'w" where
  "status_RunE v addr timeout w =
     (let c = http_NewClient timeout
      in case http_GetStatus c (v_http v timeout c) addr w of
           (Some (Inl err), w') \<Rightarrow> ((Some (''status error: '' @ err), []), w')
         | (Some (Inr data), w') \<Rightarrow> ((None, with_newline data), w')
         | (None, w') \<Rightarrow> ((None, with_newline []), w'))"


section \<open>Commands against a running node\<close>

text \<open>The functions a started cluster gives its management server.\<close>

definition cluster_service :: "Options \<Rightarrow> Cluster service" where
  "cluster_service o1 =
     \<lparr>sv_status = run_state (statusLocalJSON o1), sv_join = (\<lambda>q. run_state (handleJoin o1 q)),
      sv_leave = (\<lambda>q. run_state (handleLeave o1 q)), sv_appWrite = (\<lambda>q. run_state (handleAppWrite o1 q)),
      sv_appSync = (\<lambda>q. run_state (handleAppSync o1 q))\<rparr>"

text \<open>
  The libraries connect a client to the server of a node at an address: over gRPC or HTTP,
  whichever the client speaks.
\<close>

definition connected :: "'w cli_env \<Rightarrow> duration \<Rightarrow> cli_client \<Rightarrow> string \<Rightarrow> 'w service \<Rightarrow> bool" where
  "connected v t client addr sv \<longleftrightarrow>
     (case client of
        CliGrpc c \<Rightarrow> delivers (v_grpc v t c) addr (as_grpc sv)
      | CliHttp c \<Rightarrow> (\<exists>metrics. http_delivers (v_http v t c) c addr (as_http metrics sv)))"

lemma http_result_ok [simp]: "http_result (apfst (\<lambda>r. (r, None)) x) = apfst Inr x"
  by (cases x) (simp add: http_result_def)

lemma cli_PostJoin_connected:
  assumes "connected v t client addr sv"
    and "list_all valid_utf8 [jq_ID jq, jq_RaftAddr jq, jr_Leader (fst (sv_join sv jq w)), jr_Error (fst (sv_join sv jq w))]"
  shows "cli_PostJoin v t client addr jq w = apfst Inr (sv_join sv jq w)"
proof (cases client)
  case (CliGrpc c)
  have "valid_result jr_Leader jr_Error (f_join (as_grpc sv) jq w)"
    using assms(2) by (auto simp: valid_result_def as_grpc_def apfst_def map_prod_def split: prod.splits)
  then have "client_PostJoin (v_grpc v t c) addr jq w = mgmt_Join (as_grpc sv) jq w"
    using assms CliGrpc by (intro join_call) (simp_all add: connected_def)
  then show ?thesis
    by (simp add: cli_PostJoin_def CliGrpc mgmt_Join_def as_grpc_def apfst_def map_prod_def split: prod.splits)
next
  case (CliHttp c)
  then obtain metrics where "http_delivers (v_http v t c) c addr (as_http metrics sv)"
    using assms(1) by (auto simp: connected_def)
  from http_answers(1) [OF this assms(2)] show ?thesis by (simp add: cli_PostJoin_def CliHttp)
qed

lemma cli_PostLeave_connected:
  assumes "connected v t client addr sv" and "list_all valid_utf8 [lq_ID lq, lr_Error (fst (sv_leave sv lq w))]"
  shows "cli_PostLeave v t client addr lq w = apfst Inr (sv_leave sv lq w)"
proof (cases client)
  case (CliGrpc c)
  have "valid_result lr_Error lr_Error (apfst Inr (sv_leave sv lq w) :: (gerror + LeaveResponse) \<times> _)"
    using assms(2) by (auto simp: valid_result_def apfst_def map_prod_def split: prod.splits)
  then have "client_PostLeave (v_grpc v t c) addr lq w = mgmt_Leave (as_grpc sv) lq w"
    using assms CliGrpc by (intro leave_call) (auto simp: connected_def as_grpc_def)
  then show ?thesis
    by (simp add: cli_PostLeave_def CliGrpc mgmt_Leave_def as_grpc_def apfst_def map_prod_def split: prod.splits)
next
  case (CliHttp c)
  then obtain metrics where "http_delivers (v_http v t c) c addr (as_http metrics sv)"
    using assms(1) by (auto simp: connected_def)
  from http_answers(2) [OF this assms(2)] show ?thesis by (simp add: cli_PostLeave_def CliHttp)
qed

text \<open>The errors of the join handler: its own messages, or those of the consensus engine.\<close>

definition answer_ok :: "Options \<Rightarrow> JoinRequest \<Rightarrow> Cluster \<Rightarrow> bool" where
  "answer_ok o1 q s \<longleftrightarrow> valid_utf8 (jr_Leader (fst (run_state (handleJoin o1 q) s)))
     \<and> valid_utf8 (jr_Error (fst (run_state (handleJoin o1 q) s)))"

lemma leave_error_utf8: "valid_utf8 (lr_Error (fst (run_state (handleLeave o1 q) s)))"
  by (auto simp: handleLeave_def valid_utf8_all_ascii split: prod.splits if_splits)

text \<open>
  The \<open>join\<close> command end to end. With an ID, a Raft address and usable TLS files, and libraries
  that connect its client to a node, the command (over gRPC or HTTP, with or without TLS) makes
  that node handle exactly one join request, with the given ID and address, and prints the
  node's answer as one line of JSON, accepted or not; the node changes as its join handler
  changes it. Without ID or address, or with unusable TLS files, it fails and contacts nobody.
\<close>

theorem cli_join_end_to_end:
  fixes fl :: join_flags
  assumes "\<And>t. cli_tls env fl = Inr t \<Longrightarrow> connected v (fl_timeout fl) (cli_client fl t) (fl_addr fl) (cluster_service o1)"
    and "valid_utf8 (fl_id fl)" and "valid_utf8 (fl_raftAddr fl)"
    and "answer_ok o1 \<lparr>jq_ID = fl_id fl, jq_RaftAddr = fl_raftAddr fl\<rparr> s"
  shows "join_RunE v env fl s =
    (if fl_id fl = [] \<or> fl_raftAddr fl = []
     then ((Some ''missing required flags: -id and -raft-addr'', []), s)
     else (case cli_tls env fl of
         Inl err \<Rightarrow> ((Some err, []), s)
       | Inr _ \<Rightarrow>
           (case run_state (handleJoin o1 \<lparr>jq_ID = fl_id fl, jq_RaftAddr = fl_raftAddr fl\<rparr>) s of
              (resp, s') \<Rightarrow> ((None, Encode (enc_JoinResponse resp)), s'))))"
proof (cases "cli_tls env fl")
  case (Inr t)
  let ?q = "\<lparr>jq_ID = fl_id fl, jq_RaftAddr = fl_raftAddr fl\<rparr>"
  have "cli_PostJoin v (fl_timeout fl) (cli_client fl t) (fl_addr fl) ?q s = apfst Inr (run_state (handleJoin o1 ?q) s)"
    using cli_PostJoin_connected [OF assms(1) [OF Inr], of ?q s] assms(2-4)
    by (simp add: cluster_service_def answer_ok_def)
  then show ?thesis by (simp add: join_RunE_def Inr split: prod.splits)
qed (simp add: join_RunE_def)

text \<open>
  The \<open>leave\<close> command end to end, in the same way: the node handles one leave request for the
  given ID, and its answer is printed.
\<close>

theorem cli_leave_end_to_end:
  fixes fl :: rpc_flags
  assumes "\<And>t. cli_tls env fl = Inr t \<Longrightarrow> connected v (fl_timeout fl) (cli_client fl t) (fl_addr fl) (cluster_service o1)"
    and "valid_utf8 (fl_id fl)"
  shows "leave_RunE v env fl s =
    (if fl_id fl = [] then ((Some ''missing required flag: -id'', []), s)
     else (case cli_tls env fl of
         Inl err \<Rightarrow> ((Some err, []), s)
       | Inr _ \<Rightarrow>
           (case run_state (handleLeave o1 \<lparr>lq_ID = fl_id fl\<rparr>) s of
              (resp, s') \<Rightarrow> ((None, Encode (enc_LeaveResponse resp)), s'))))"
proof (cases "cli_tls env fl")
  case (Inr t)
  have "cli_PostLeave v (fl_timeout fl) (cli_client fl t) (fl_addr fl) \<lparr>lq_ID = fl_id fl\<rparr> s =
      apfst Inr (run_state (handleLeave o1 \<lparr>lq_ID = fl_id fl\<rparr>) s)"
    using cli_PostLeave_connected [OF assms(1) [OF Inr], of "\<lparr>lq_ID = fl_id fl\<rparr>" s] assms(2)
    by (simp add: cluster_service_def leave_error_utf8)
  then show ?thesis by (simp add: leave_RunE_def Inr split: prod.splits)
qed (simp add: leave_RunE_def)


text \<open>
  The \<open>status\<close> command. Against a node that serves HTTP without TLS it prints the node's status
  as one line of JSON, which reads back as exactly that status; if every attempt fails it
  reports an error and prints nothing.
\<close>

theorem cli_status_end_to_end:
  assumes "http_delivers (v_http v t (http_NewClient t)) (http_NewClient t) addr (as_http metrics (cluster_service o1))"
  shows "case run_state (Status o1) s of
    (st, s') \<Rightarrow> status_RunE v addr t s = ((None, Encode (enc_status st)), s')
      \<and> (if status_ok st then parse_status (Encode (enc_status st)) = Some st else True)"
proof -
  obtain st s' where st: "run_state (Status o1) s = (st, s')" by (cases "run_state (Status o1) s")
  then have "run_state (statusLocalJSON o1) s = (Marshal (enc_status st), s')"
    by (simp add: statusLocalJSON_def)
  moreover have "with_newline (Marshal (enc_status st)) = Encode (enc_status st)"
    by (simp add: with_newline_def Encode_def enc_status_def show_json.simps)
  ultimately have "status_RunE v addr t s = ((None, Encode (enc_status st)), s')"
    using http_status_answered [OF assms, of s] by (simp add: status_RunE_def Let_def cluster_service_def)
  then show ?thesis
    using st by (simp add: parse_status_def Unmarshal_Encode statusMsg.enc_ok statusMsg.received)
qed

text \<open>
  The \<open>run\<close> command stops what it started. If it ends without an error then the node was built
  and started, and its last calls stop consensus, leave and stop membership, and stop the
  server, whatever happened in between, as long as nothing else stopped the node. Without an ID
  it fails before anything is built.
\<close>

theorem cli_run_closes:
  fixes wr :: "('r, 'm) wire" and env :: "('c, 'p) tls_env"
  assumes "run_RunE wr env f life fl = ((res, out), cl)" and "\<forall>c. stopped (life c) = stopped c"
  shows "(rf_id fl = [] \<longrightarrow> res = Some ''missing -id'' \<and> cl = None)
    \<and> (res = None \<longrightarrow> (\<exists>o1 c h. cl = Some (o1, c) \<and> Validate o1 = None \<and> stopped c
        \<and> hist c = h @ [ConsStop, MemLeave, MemStop, ServerStop]))"
proof (intro conjI impI)
  show "rf_id fl = [] \<Longrightarrow> res = Some ''missing -id''" "rf_id fl = [] \<Longrightarrow> cl = None"
    using assms(1) by (simp_all add: run_RunE_def)
next
  assume "res = None"
  then obtain o1 c where r: "Run wr env f (run_config fl) = (None, Some (o1, c))"
    and cl: "cl = Some (o1, snd (run_state (cluster_Close o1) (life c)))" and "rf_id fl \<noteq> []"
    using assms(1) by (auto simp: run_RunE_def Run_def split: if_splits option.splits sum.splits prod.splits)
  have n: "cf_NodeID (run_config fl) \<noteq> []" using \<open>rf_id fl \<noteq> []\<close> by (simp add: run_config_def)
  obtain b :: "('c, 'p, 'r, 'm) built" where o: "o1 = build_options wr (run_config fl) b"
    and st: "run_state (Start o1) \<lparr>started = False, stopped = False, hadLeader = False,
      inProgress = False, crep = rep0, cdisk = f, hist = []\<rparr> = (None, c)"
    using r by (auto simp: Run_def Build_def Let_def cluster_New_built [OF n] split: sum.splits prod.splits)
  have "\<not> stopped c"
    using Start_same_stopped [unfolded within_def same_stopped_def, rule_format, of o1
        "\<lparr>started = False, stopped = False, hadLeader = False, inProgress = False, crep = rep0, cdisk = f, hist = []\<rparr>"] st
    by simp
  then have "\<not> stopped (life c)" using assms(2) by simp
  then have "stopped (snd (run_state (cluster_Close o1) (life c)))
    \<and> hist (snd (run_state (cluster_Close o1) (life c))) = hist (life c) @ [ConsStop, MemLeave, MemStop, ServerStop]"
    by (simp add: cluster_Close_def Stop_def o build_options_def)
  moreover have "Validate o1 = None" using n by (simp add: o Validate_def build_options_def)
  ultimately show "\<exists>o1 c h. cl = Some (o1, c) \<and> Validate o1 = None \<and> stopped c
        \<and> hist c = h @ [ConsStop, MemLeave, MemStop, ServerStop]"
    using cl by blast
qed

section \<open>Concrete runs\<close>

definition reach_grpc :: "Cluster service \<Rightarrow> Cluster net" where
  "reach_grpc sv = \<lparr>n_dial = (\<lambda>_ _. None),
     n_invoke = (\<lambda>_ name body w. case map_of (Management_serviceDesc (as_grpc sv)) name of
        None \<Rightarrow> (Inl ''unimplemented'', w) | Some h \<Rightarrow> h body w)\<rparr>"

definition no_page :: "http_req \<Rightarrow> Cluster \<Rightarrow> http_resp \<times> Cluster" where
  "no_page r w = (http_Error ''none'' 404, w)"

definition reach_http :: "Cluster service \<Rightarrow> Cluster http_net" where
  "reach_http sv = \<lparr>x_NewRequest = (\<lambda>_. None),
     x_Do = (\<lambda>r b w. if hq_Method r = ''GET'' \<or> b \<noteq> []
        then (Inr (fst (http_mux (as_http no_page sv) r b w)), [], snd (http_mux (as_http no_page sv) r b w))
        else (Inl ''body used'', [], w)),
     x_done = (\<lambda>_. None), x_Errorf = (\<lambda>s. s)\<rparr>"

definition cli_env_to :: "Options \<Rightarrow> Cluster cli_env" where
  "cli_env_to o1 = \<lparr>v_grpc = (\<lambda>_ _. reach_grpc (cluster_service o1)), v_http = (\<lambda>_ _. reach_http (cluster_service o1))\<rparr>"

lemma cli_env_http: "http_delivers (v_http (cli_env_to o1) t c) c' addr (as_http no_page (cluster_service o1))"
  by (simp add: cli_env_to_def http_delivers_def reach_http_def)

lemma cli_env_connected: "connected (cli_env_to o1) t client addr (cluster_service o1)"
  using cli_env_http
  by (cases client) (auto simp: connected_def cli_env_to_def delivers_def reach_grpc_def intro: exI [of _ no_page])

definition join1 :: join_flags where
  "join1 = join_defaults\<lparr>fl_id := ''n3'', fl_raftAddr := ''r:3'', fl_mgmtProto := ''grpc''\<rparr>"

theorem cli_join_end_to_end_witness:
  "fst (join_RunE (cli_env_to opts1) tls_env1 join1 cluster1) =
     (None, Encode (enc_JoinResponse \<lparr>jr_Accepted = True, jr_Leader = [], jr_Error = []\<rparr>))"
proof -
  have h: "fst (run_state (handleJoin opts1 \<lparr>jq_ID = ''n3'', jq_RaftAddr = ''r:3''\<rparr>) cluster1) =
      \<lparr>jr_Accepted = True, jr_Leader = [], jr_Error = []\<rparr>"
    by (simp add: handleJoin_def leading_def opts1_def leader1_def)
  have f: "fl_id join1 = ''n3''" "fl_raftAddr join1 = ''r:3''" "cli_tls tls_env1 join1 = Inr None"
    by (simp_all add: join1_def join_defaults_def leave_defaults_def rpc_flags.defs cli_tls_def)
  then have "answer_ok opts1 \<lparr>jq_ID = fl_id join1, jq_RaftAddr = fl_raftAddr join1\<rparr> cluster1"
    by (simp add: answer_ok_def h)
  from cli_join_end_to_end [OF cli_env_connected [of opts1] _ _ this, of tls_env1] h f show ?thesis
    by (simp add: valid_utf8_all_ascii split: prod.splits)
qed

theorem cli_leave_end_to_end_witness:
  "fst (leave_RunE (cli_env_to opts1) tls_env1 (leave_defaults\<lparr>fl_id := ''n2''\<rparr>) cluster1) =
     (None, Encode (enc_LeaveResponse \<lparr>lr_Accepted = True, lr_Error = []\<rparr>))"
proof -
  let ?fl = "leave_defaults\<lparr>fl_id := ''n2''\<rparr>"
  have h: "fst (run_state (handleLeave opts1 \<lparr>lq_ID = ''n2''\<rparr>) cluster1) = \<lparr>lr_Accepted = True, lr_Error = []\<rparr>"
    by (simp add: handleLeave_def leading_def removeServer_def applyRemoveNode_def opts1_def leader1_def)
  have "valid_utf8 (fl_id ?fl)" "cli_tls tls_env1 ?fl = Inr None"
    by (simp_all add: leave_defaults_def valid_utf8_all_ascii cli_tls_def)
  then show ?thesis
    using cli_leave_end_to_end [OF cli_env_connected [of opts1], of ?fl tls_env1 cluster1] h by (simp split: prod.splits)
qed

theorem cli_status_end_to_end_witness:
  "\<exists>st s'. status_RunE (cli_env_to opts1) ''h:1'' 0 cluster1 = ((None, Encode (enc_status st)), s')"
  using cli_status_end_to_end [where v = "cli_env_to opts1" and t = 0 and addr = "''h:1''" and metrics = no_page and ?o1.0 = opts1
      and s = cluster1, OF cli_env_http [of opts1]]
  by (auto split: prod.splits)

theorem cli_run_closes_witness:
  "\<exists>o1 c h. snd (run_RunE wire1 tls_env1 fs1 id (run_defaults\<lparr>rf_id := ''n1''\<rparr>)) = Some (o1, c)
     \<and> hist c = h @ [ConsStop, MemLeave, MemStop, ServerStop]"
proof -
  let ?r = "run_RunE wire1 tls_env1 fs1 id (run_defaults\<lparr>rf_id := ''n1''\<rparr>)"
  have r: "?r = ((fst (fst ?r), snd (fst ?r)), snd ?r)" by simp
  have "fst (fst ?r) = None"
    by (simp add: run_RunE_def Run_def Build_def build_defs run_config_def run_defaults_def build_tls_def
        cluster_New_def Validate_def start_defs build_options_def wire1_def members1_def leader1_def server1_def
        seeds_of_def build_discovery_def static_New_def static_Parse_def static_Seeds_def split: prod.splits)
  then show ?thesis
    using cli_run_closes [OF r] by auto
qed

text \<open>
  The defaults of the \<open>run\<close> command: giving an ID is enough to build a node. It then advertises
  the address \<open>:17946\<close>, without a host, to its peers.
\<close>

lemma default_mgmt_addr:
  assumes "i \<noteq> []"
  shows "\<exists>b :: ('c, 'p, 'r, 'm) built. build_parts env (run_config (run_defaults\<lparr>rf_id := i\<rparr>)) = Inr b
    \<and> lo_Meta (i_opts (bt_Membership b)) = Some [(''mgmt'', '':17946'')]
    \<and> bt_Discovery b = DStatic \<lparr>static_seeds = []\<rparr>"
  using assms
  by (simp add: build_defs run_config_def run_defaults_def build_tls_def build_discovery_def static_New_def static_Parse_def)

end
