(* ===== verification/Wiring.thy ===== *)
theory Wiring
  imports Cli
begin

text \<open>
  The interfaces of the cluster implemented by the models of the components. The cluster knows
  a component by the answers it gives along the history of calls; here the answers are those of
  the Raft node and of the membership layer, whose state follows the same history: each call
  acts on it, and before each call the library underneath may change it in its own way
  (\<open>drift\<close>: elections, replication, gossip).
\<close>

section \<open>A component along the history\<close>

primrec comp_rev :: "(call \<Rightarrow> 'x \<Rightarrow> 'x) \<Rightarrow> (trace \<Rightarrow> 'x \<Rightarrow> 'x) \<Rightarrow> 'x \<Rightarrow> trace \<Rightarrow> 'x" where
  "comp_rev f drift x0 [] = x0"
| "comp_rev f drift x0 (c # h) = f c (drift (rev (c # h)) (comp_rev f drift x0 h))"

text \<open>The state after a history, and the state in which the last call of a history is answered.\<close>

definition comp_at :: "(call \<Rightarrow> 'x \<Rightarrow> 'x) \<Rightarrow> (trace \<Rightarrow> 'x \<Rightarrow> 'x) \<Rightarrow> 'x \<Rightarrow> trace \<Rightarrow> 'x" where
  "comp_at f drift x0 h = comp_rev f drift x0 (rev h)"

definition comp_ask :: "(call \<Rightarrow> 'x \<Rightarrow> 'x) \<Rightarrow> (trace \<Rightarrow> 'x \<Rightarrow> 'x) \<Rightarrow> 'x \<Rightarrow> trace \<Rightarrow> 'x" where
  "comp_ask f drift x0 h = drift h (comp_at f drift x0 (butlast h))"

lemma comp_at_simps [simp]:
  "comp_at f drift x0 [] = x0"
  "comp_at f drift x0 (h @ [c]) = f c (comp_ask f drift x0 (h @ [c]))"
  by (simp_all add: comp_at_def comp_ask_def)

text \<open>A predicate that the calls and the library keep holds along the history.\<close>

lemma comp_invariant:
  assumes "P x0" and "\<And>c x. P x \<Longrightarrow> P (f c x)" and "\<And>h x. P x \<Longrightarrow> P (drift h x)"
  shows "P (comp_at f drift x0 h)" "P (comp_ask f drift x0 h)"
proof -
  show at: "P (comp_at f drift x0 h)" for h
    using assms by (induction h rule: rev_induct) (simp_all add: comp_ask_def)
  show "P (comp_ask f drift x0 h)" using at assms(3) by (simp add: comp_ask_def)
qed

section \<open>The Raft node as the consensus engine\<close>

definition node_call :: "'r raft_env \<Rightarrow> 'r raft_api \<Rightarrow> call \<Rightarrow> 'r Node \<Rightarrow> 'r Node" where
  "node_call env api c n =
     (case c of
        ConsStart \<Rightarrow> snd (node_Start env n)
      | ConsApply cmd t \<Rightarrow> snd (node_Apply api cmd t n)
      | ConsAddVoter i a t \<Rightarrow> snd (node_AddVoter api i a t n)
      | ConsRemoveServer i t \<Rightarrow> snd (node_RemoveServer api i t n)
      | ConsStop \<Rightarrow> snd (node_Stop api n)
      | _ \<Rightarrow> n)"

definition raft_reconf ::
  "'r raft_env \<Rightarrow> 'r raft_api \<Rightarrow> (trace \<Rightarrow> 'r Node \<Rightarrow> 'r Node) \<Rightarrow> 'r Node \<Rightarrow> reconfigurer" where
  "raft_reconf env api drift n0 =
     (let ask = comp_ask (node_call env api) drift n0
      in \<lparr>rc_AddVoter = (\<lambda>h. case last h of ConsAddVoter i a t \<Rightarrow> fst (node_AddVoter api i a t (ask h)) | _ \<Rightarrow> None),
          rc_RemoveServer = (\<lambda>h. case last h of ConsRemoveServer i t \<Rightarrow> fst (node_RemoveServer api i t (ask h)) | _ \<Rightarrow> None)\<rparr>)"

definition raft_consensus ::
  "'r raft_env \<Rightarrow> 'r raft_api \<Rightarrow> (trace \<Rightarrow> 'r Node \<Rightarrow> 'r Node) \<Rightarrow> 'r Node \<Rightarrow> consensus" where
  "raft_consensus env api drift n0 =
     (let ask = comp_ask (node_call env api) drift n0
      in \<lparr>c_Start = (\<lambda>h. fst (node_Start env (ask h))),
          c_Apply = (\<lambda>h. case last h of ConsApply cmd t \<Rightarrow> fst (node_Apply api cmd t (ask h)) | _ \<Rightarrow> None),
          c_IsLeader = (\<lambda>h. node_IsLeader api (ask h)), c_Leader = (\<lambda>h. node_Leader api (ask h)),
          c_Term = (\<lambda>h. node_Term api (ask h)), c_Stop = (\<lambda>h. fst (node_Stop api (ask h))),
          c_Reconf = Some (raft_reconf env api drift n0), c_Notifier = True\<rparr>)"

section \<open>The gossip layer as the membership\<close>

definition ml_call :: "(string \<Rightarrow> string) \<Rightarrow> 'm ml_lib \<Rightarrow> call \<Rightarrow> 'm ml_impl \<Rightarrow> 'm ml_impl" where
  "ml_call q lib c m =
     (case c of
        MemStart \<Rightarrow> snd (ml_Start q lib m)
      | MemJoin seeds \<Rightarrow> snd (ml_Join lib seeds m)
      | MemLeave \<Rightarrow> ml_Leave lib m
      | MemStop \<Rightarrow> (case ml_Stop m of Some m' \<Rightarrow> m' | None \<Rightarrow> m)
      | _ \<Rightarrow> m)"

definition ml_membership ::
  "(string \<Rightarrow> string) \<Rightarrow> 'm ml_lib \<Rightarrow> (trace \<Rightarrow> 'm ml_impl \<Rightarrow> 'm ml_impl) \<Rightarrow> 'm ml_impl \<Rightarrow> membership" where
  "ml_membership q lib drift m0 =
     (let ask = comp_ask (ml_call q lib) drift m0
      in \<lparr>m_Start = (\<lambda>h. fst (ml_Start q lib (ask h))),
          m_Join = (\<lambda>h. case last h of MemJoin seeds \<Rightarrow> fst (ml_Join lib seeds (ask h)) | _ \<Rightarrow> None),
          m_Members = (\<lambda>h. ml_Members lib (ask h)), m_Leave = (\<lambda>_. None), m_Stop = (\<lambda>_. None)\<rparr>)"

section \<open>The node that \<open>Build\<close> assembles\<close>

text \<open>The libraries under a node, and how they act between its calls.\<close>

record ('r, 'm) platform =
  pf_raft :: "'r raft_env"
  pf_api :: "'r raft_api"
  pf_raft_drift :: "trace \<Rightarrow> 'r Node \<Rightarrow> 'r Node"
  pf_quote :: "string \<Rightarrow> string"
  pf_ml :: "'m ml_lib"
  pf_ml_drift :: "trace \<Rightarrow> 'm ml_impl \<Rightarrow> 'm ml_impl"
  pf_seeds :: "discovery_impl \<Rightarrow> trace \<Rightarrow> string list"
  pf_server :: "mgmt_api \<Rightarrow> rpc_server"
  pf_client :: "mgmt_api \<Rightarrow> rpc_client"
  pf_Clock :: "trace \<Rightarrow> time"

definition platform_wire :: "('r, 'm) platform \<Rightarrow> ('r, 'm) wire" where
  "platform_wire pf =
     \<lparr>w_seeds = pf_seeds pf, w_consensus = raft_consensus (pf_raft pf) (pf_api pf) (pf_raft_drift pf),
      w_reconf = raft_reconf (pf_raft pf) (pf_api pf) (pf_raft_drift pf),
      w_membership = ml_membership (pf_quote pf) (pf_ml pf) (pf_ml_drift pf),
      w_server = pf_server pf, w_client = pf_client pf, w_Clock = pf_Clock pf\<rparr>"

text \<open>The Raft node and the membership layer of a built node, after a history.\<close>

definition raft_at :: "('r, 'm) platform \<Rightarrow> ('c, 'p, 'r, 'm) built \<Rightarrow> trace \<Rightarrow> 'r Node" where
  "raft_at pf b = comp_at (node_call (pf_raft pf) (pf_api pf)) (pf_raft_drift pf) (bt_Consensus b)"

definition ml_at :: "('r, 'm) platform \<Rightarrow> ('c, 'p, 'r, 'm) built \<Rightarrow> trace \<Rightarrow> 'm ml_impl" where
  "ml_at pf b = comp_at (ml_call (pf_quote pf) (pf_ml pf)) (pf_ml_drift pf) (bt_Membership b)"


lemma raft_at_snoc:
  "raft_at pf b (h @ [c]) = node_call (pf_raft pf) (pf_api pf) c (pf_raft_drift pf (h @ [c]) (raft_at pf b h))"
  by (simp add: raft_at_def comp_ask_def)

lemma ml_at_snoc: "ml_at pf b (h @ [c]) = ml_call (pf_quote pf) (pf_ml pf) c (pf_ml_drift pf (h @ [c]) (ml_at pf b h))"
  by (simp add: ml_at_def comp_ask_def)

text \<open>What the consensus engine of a built node answers.\<close>

lemma built_consensus:
  "\<exists>k rc. o_Consensus (build_options (platform_wire pf) cfg b) = Some k \<and> c_Reconf k = Some rc
    \<and> (\<forall>h c. c_IsLeader k (h @ [c]) = node_IsLeader (pf_api pf) (pf_raft_drift pf (h @ [c]) (raft_at pf b h)))
    \<and> (\<forall>h i a t. rc_AddVoter rc (h @ [ConsAddVoter i a t]) =
        fst (node_AddVoter (pf_api pf) i a t (pf_raft_drift pf (h @ [ConsAddVoter i a t]) (raft_at pf b h))))
    \<and> (\<forall>h cmd t. c_Apply k (h @ [ConsApply cmd t]) =
        fst (node_Apply (pf_api pf) cmd t (pf_raft_drift pf (h @ [ConsApply cmd t]) (raft_at pf b h))))"
  by (simp add: build_options_def platform_wire_def raft_consensus_def raft_reconf_def raft_at_def comp_ask_def Let_def)

section \<open>Engines with voters\<close>

text \<open>
  What the join handler relies on of a consensus engine: it can be reconfigured, and after a
  successful \<open>AddVoter\<close> the voters include the new one. \<open>voters h\<close> are the voters after the history \<open>h\<close>.
\<close>

locale voter_engine =
  fixes k :: consensus and rc :: reconfigurer and voters :: "trace \<Rightarrow> string \<rightharpoonup> string"
  assumes reconfigurable: "c_Reconf k = Some rc"
    and voter_added: "rc_AddVoter rc (h @ [ConsAddVoter i a t]) = None \<Longrightarrow> voters (h @ [ConsAddVoter i a t]) i = Some a"
begin

lemma join_accepted:
  assumes "o_Consensus o1 = Some k"
  shows "jr_Accepted (fst (run_state (handleJoin o1 q) s)) \<longleftrightarrow> c_IsLeader k (hist s @ [ConsIsLeader])
    \<and> rc_AddVoter rc ((hist s @ [ConsIsLeader]) @ [ConsAddVoter (jq_ID q) (jq_RaftAddr q) (3 * second)]) = None"
  using assms reconfigurable by (auto simp: handleJoin_def prog_defs split: option.splits prod.splits)

lemma join_adds_voter:
  assumes "o_Consensus o1 = Some k" and "jr_Accepted (fst (run_state (handleJoin o1 q) s))"
  shows "voters ((hist s @ [ConsIsLeader]) @ [ConsAddVoter (jq_ID q) (jq_RaftAddr q) (3 * second)]) (jq_ID q)
    = Some (jq_RaftAddr q)"
  using join_accepted [OF assms(1)] assms(2) voter_added by blast

end

text \<open>The Raft node is such an engine, if the library's reconfiguration calls do what they report.\<close>

definition raft_voters :: "('r, 'm) platform \<Rightarrow> ('c, 'p, 'r, 'm) built \<Rightarrow> ('r \<Rightarrow> (string \<times> string) list) \<Rightarrow>
    trace \<Rightarrow> string \<rightharpoonup> string" where
  "raft_voters pf b conf h = (case nd_r (raft_at pf b h) of None \<Rightarrow> Map.empty | Some r \<Rightarrow> map_of (conf r))"

locale raft_platform =
  fixes pf :: "('r, 'm) platform" and b :: "('c, 'p, 'r, 'm) built" and conf :: "'r \<Rightarrow> (string \<times> string) list"
  assumes library: "reconfigures (pf_api pf) conf"
begin

lemma add_voter:
  assumes "fst (node_AddVoter (pf_api pf) i a t n) = None"
  shows "\<exists>r. nd_r (snd (node_AddVoter (pf_api pf) i a t n)) = Some r \<and> map_of (conf r) i = Some a"
proof -
  obtain r where "nd_r n = Some r" using assms by (auto simp: node_AddVoter_def split: option.splits)
  from node_AddVoter_conf [OF library this, of i a t] assms show ?thesis by (auto split: prod.splits)
qed

end

sublocale raft_platform \<subseteq> raft_engine: voter_engine
  "raft_consensus (pf_raft pf) (pf_api pf) (pf_raft_drift pf) (bt_Consensus b)"
  "raft_reconf (pf_raft pf) (pf_api pf) (pf_raft_drift pf) (bt_Consensus b)" "raft_voters pf b conf"
proof
  fix h i a t
  assume "rc_AddVoter (raft_reconf (pf_raft pf) (pf_api pf) (pf_raft_drift pf) (bt_Consensus b)) (h @ [ConsAddVoter i a t]) = None"
  then have "fst (node_AddVoter (pf_api pf) i a t (pf_raft_drift pf (h @ [ConsAddVoter i a t]) (raft_at pf b h))) = None"
    by (simp add: raft_reconf_def raft_at_def comp_ask_def Let_def)
  from add_voter [OF this] show "raft_voters pf b conf (h @ [ConsAddVoter i a t]) i = Some a"
    by (auto simp: raft_voters_def raft_at_snoc node_call_def)
qed (simp add: raft_consensus_def Let_def)

lemma built_engine:
  "o_Consensus (build_options (platform_wire pf) cfg b) =
     Some (raft_consensus (pf_raft pf) (pf_api pf) (pf_raft_drift pf) (bt_Consensus b))"
  by (simp add: build_options_def platform_wire_def raft_consensus_def Let_def)

lemma raft_consensus_IsLeader:
  "c_IsLeader (raft_consensus (pf_raft pf) (pf_api pf) (pf_raft_drift pf) (bt_Consensus b)) (h @ [c]) =
     node_IsLeader (pf_api pf) (pf_raft_drift pf (h @ [c]) (raft_at pf b h))"
  by (simp add: raft_consensus_def raft_at_def comp_ask_def Let_def)

lemma raft_reconf_AddVoter:
  "rc_AddVoter (raft_reconf (pf_raft pf) (pf_api pf) (pf_raft_drift pf) (bt_Consensus b)) (h @ [ConsAddVoter i a t]) =
     fst (node_AddVoter (pf_api pf) i a t (pf_raft_drift pf (h @ [ConsAddVoter i a t]) (raft_at pf b h)))"
  by (simp add: raft_reconf_def raft_at_def comp_ask_def Let_def)

context raft_platform
begin

lemma built_join:
  fixes s q cfg
  defines "h \<equiv> hist s @ [ConsIsLeader]" and "add \<equiv> ConsAddVoter (jq_ID q) (jq_RaftAddr q) (3 * second)"
    and "resp \<equiv> fst (run_state (handleJoin (build_options (platform_wire pf) cfg b) q) s)"
  shows "jr_Accepted resp \<longleftrightarrow> node_IsLeader (pf_api pf) (pf_raft_drift pf h (raft_at pf b (hist s)))
      \<and> fst (node_AddVoter (pf_api pf) (jq_ID q) (jq_RaftAddr q) (3 * second)
          (pf_raft_drift pf (h @ [add]) (raft_at pf b h))) = None"
    and "jr_Accepted resp \<Longrightarrow> raft_voters pf b conf (h @ [add]) (jq_ID q) = Some (jq_RaftAddr q)"
  unfolding resp_def h_def add_def
  using raft_engine.join_accepted [OF built_engine] raft_engine.join_adds_voter [OF built_engine]
  by (simp_all only: raft_consensus_IsLeader raft_reconf_AddVoter)

end

section \<open>Properties\<close>


text \<open>One call of \<open>Apply\<close> that reports success: where its entry is in what the state machine saw.\<close>

lemma node_Apply_success:
  assumes "applies_entry api n" and "op_ok x" and "nd_ms n = Some st" and "fst (node_Apply api (op_cmd x) t n) = None"
  shows "\<exists>pre post mid. nd_ms (snd (node_Apply api (op_cmd x) t n)) = Some (apply_log post mid)
    \<and> view mid = spec_apply x (view (apply_log pre st))"
proof -
  obtain r where r: "nd_r n = Some r" "rf_IsLeader api r"
    using assms(4) by (auto simp: node_Apply_def split: option.splits if_splits)
  let ?t = "if t \<le> 0 \<and> ro_ApplyTimeout (nd_opts n) > 0 then ro_ApplyTimeout (nd_opts n) else t"
  obtain res es r' where a: "rf_Apply api (op_bytes x) ?t r = (res, es, r')" by (cases "rf_Apply api (op_bytes x) ?t r")
  then have m: "nd_ms (snd (node_Apply api (op_cmd x) t n)) = Some (apply_log es st)"
    and "\<not> isl res" using r assms(3,4) by (auto simp: node_Apply_def fsm_entries_def Let_def split: sum.splits)
  then obtain resp where "rf_Apply api (op_bytes x) ?t r = (Inr resp, es, r')" using a by (cases res) simp_all
  then obtain pre post where "es = pre @ op_bytes x # post"
    using assms(1,3) r(1) unfolding applies_entry_def by blast
  then have "apply_log es st = apply_log post (apply_log [op_bytes x] (apply_log pre st))"
    by (simp add: replay_def)
  then show ?thesis using m view_apply_op [OF assms(2)] by metis
qed



section \<open>Closing\<close>

text \<open>The library does not close the membership layer and does not start an instance by itself.\<close>

definition ml_quiet :: "(trace \<Rightarrow> 'm ml_impl \<Rightarrow> 'm ml_impl) \<Rightarrow> bool" where
  "ml_quiet drift \<longleftrightarrow> (\<forall>h m. i_closed (drift h m) = i_closed m \<and> i_evts_closed (drift h m) = i_evts_closed m
     \<and> (i_ml m = None \<longrightarrow> i_ml (drift h m) = None))"

lemma ml_quietD:
  assumes "ml_quiet drift"
  shows "i_closed (drift h m) = i_closed m" "i_evts_closed (drift h m) = i_evts_closed m"
    "i_ml m = None \<Longrightarrow> i_ml (drift h m) = None"
  using assms by (simp_all add: ml_quiet_def)

definition ml_channel_ok :: "'m ml_impl \<Rightarrow> bool" where
  "ml_channel_ok m \<longleftrightarrow> i_evts_closed m = i_closed m"

lemma ml_call_channel_ok: "ml_channel_ok m \<Longrightarrow> ml_channel_ok (ml_call q lib c m)"
  by (auto simp: ml_channel_ok_def ml_call_def ml_Start_def ml_Join_def ml_Leave_def ml_Stop_def
      split: call.splits option.splits sum.splits prod.splits)

lemma ml_call_closed: "c \<noteq> MemStop \<Longrightarrow> i_closed (ml_call q lib c m) = i_closed m"
  by (auto simp: ml_call_def ml_Start_def ml_Join_def ml_Leave_def split: call.splits option.splits sum.splits prod.splits)

lemma ml_at_open:
  assumes "ml_quiet (pf_ml_drift pf)" and "\<not> i_closed (bt_Membership b)" and "MemStop \<notin> set h"
  shows "\<not> i_closed (ml_at pf b h)"
  using assms(3)
proof (induction h rule: rev_induct)
  case Nil
  then show ?case using assms(2) by (simp add: ml_at_def)
next
  case (snoc c h)
  then have "c \<noteq> MemStop" by auto
  then show ?case using snoc assms(1) by (simp add: ml_at_snoc ml_call_closed ml_quietD)
qed



section \<open>A platform\<close>

text \<open>
  Libraries that keep a list of servers, always lead, apply each entry at once and do nothing by
  themselves; and the node built from \<open>cfg1\<close> on them, after consensus was started.
\<close>

definition api2 :: "(string \<times> string) list raft_api" where
  "api2 = \<lparr>rf_IsLeader = (\<lambda>_. True), rf_LeaderWithID = (\<lambda>_. (''h:1'', ''n1'')), rf_Stats = (\<lambda>_ _. ''7''),
     rf_Apply = (\<lambda>d t r. (Inr (fst (fsm_Apply ApplyAddNode ApplyRemoveNode New d)), [d], r)),
     rf_Shutdown = (\<lambda>r. (None, r)), rf_GetConfiguration = (\<lambda>r. Inr (AList.clearjunk r)),
     rf_AddVoter = (\<lambda>i a t r. (None, AList.update i a r)), rf_RemoveServer = (\<lambda>i t r. (None, AList.delete i r))\<rparr>"

definition env2 :: "(string \<times> string) list raft_env" where
  "env2 = \<lparr>e_DefaultConfig = default_config, e_MkdirAll = (\<lambda>_. None), e_NewBoltStore = (\<lambda>_. None),
     e_NewFileSnapshotStore = (\<lambda>_ _. None), e_NewTCPTransport = (\<lambda>a. Inr a), e_NewInmemTransport = (\<lambda>a. a),
     e_NewRaft = (\<lambda>_ _. Inr []), e_BootstrapCluster = (\<lambda>xs r. (None, xs))\<rparr>"

definition pf2 :: "((string \<times> string) list, unit) platform" where
  "pf2 = \<lparr>pf_raft = env2, pf_api = api2, pf_raft_drift = (\<lambda>_ n. n), pf_quote = (\<lambda>s. s), pf_ml = lib1,
     pf_ml_drift = (\<lambda>_ m. m), pf_seeds = (\<lambda>_ _. []), pf_server = (\<lambda>_. server1), pf_client = (\<lambda>_. client1 status1),
     pf_Clock = (\<lambda>_. 0)\<rparr>"

definition built2 :: "(nat, bytes, (string \<times> string) list, unit) built" where
  "built2 = projr (build_parts tls_env1 cfg1)"

definition opts2 :: Options where
  "opts2 = build_options (platform_wire pf2) cfg1 built2"

definition cluster2 :: Cluster where
  "cluster2 = cluster1\<lparr>hist := [ConsStart]\<rparr>"

lemmas built2_defs = built2_def build_defs build_tls_def build_tls_options_def tls_ServerHotReload_def
  tls_ClientHotReload_def tls_client_cas_def tls_root_cas_def tls_env1_def cfg1_def

lemma built2: "build_parts tls_env1 cfg1 = Inr built2"
  by (simp add: built2_defs)

lemma api2_reconfigures: "reconfigures (pf_api pf2) AList.clearjunk"
  by (simp add: reconfigures_def pf2_def api2_def distinct_clearjunk map_of_clearjunk update_conv' delete_conv')

interpretation platform2: raft_platform pf2 built2 AList.clearjunk
  by unfold_locales (rule api2_reconfigures)

lemma fsm_error_any_state: "fst (fsm_Apply ApplyAddNode ApplyRemoveNode s d) = fst (fsm_Apply ApplyAddNode ApplyRemoveNode t d)"
  by (simp add: fsm_Apply_def ApplyAddNode_def ApplyRemoveNode_def split: prod.splits option.splits)

lemma api2_applies: "applies_entry (pf_api pf2) n"
  by (auto simp: applies_entry_def pf2_def api2_def replay_def intro!: exI [of _ "[]"] fsm_error_any_state)

lemma started2: "nd_r (raft_at pf2 built2 [ConsStart]) = Some [(''n1'', ''h:1'')]"
  by (simp add: raft_at_def comp_at_def pf2_def node_call_def node_Start_def built2_defs node_stores_def
      node_transport_def node_bootstrap_def env2_def raft_config_def raft_heartbeat_def default_config_def)

lemma running2: "ConsStop \<notin> set cs \<Longrightarrow> nd_r (raft_at pf2 built2 ([ConsStart] @ cs)) \<noteq> None"
proof (induction cs rule: rev_induct)
  case (snoc c cs)
  then have "nd_r (raft_at pf2 built2 ([ConsStart] @ cs)) \<noteq> None" "c \<noteq> ConsStop" by auto
  moreover have "raft_at pf2 built2 (([ConsStart] @ cs) @ [c]) = node_call env2 api2 c (raft_at pf2 built2 ([ConsStart] @ cs))"
    unfolding raft_at_snoc by (simp add: pf2_def)
  ultimately show ?case
    by (auto simp: node_call_def node_Start_def node_Apply_def node_AddVoter_def node_RemoveServer_def api2_def
        fsm_entries_def Let_def split: call.splits option.splits prod.splits)
qed (simp add: started2)

lemma lead2: "nd_r n \<noteq> None \<Longrightarrow> node_IsLeader (pf_api pf2) (pf_raft_drift pf2 h n)"
  by (auto simp: node_IsLeader_def pf2_def api2_def)

text \<open>The node accepts every join.\<close>

lemma lead2_started:
  "node_IsLeader (pf_api pf2) (pf_raft_drift pf2 h (raft_at pf2 built2 [ConsStart]))"
  "fst (node_AddVoter (pf_api pf2) i a t (pf_raft_drift pf2 h (raft_at pf2 built2 [ConsStart]))) = None"
  "raft_at pf2 built2 [ConsStart, ConsIsLeader] = raft_at pf2 built2 [ConsStart]"
  using started2 raft_at_snoc [of pf2 built2 "[ConsStart]" ConsIsLeader]
  by (simp_all add: node_IsLeader_def node_AddVoter_def pf2_def api2_def node_call_def)

lemma join2: "jr_Accepted (fst (run_state (handleJoin opts2 q) cluster2))" "answer_ok opts2 q cluster2"
proof -
  show acc: "jr_Accepted (fst (run_state (handleJoin opts2 q) cluster2))"
    unfolding opts2_def using platform2.built_join(1) lead2_started by (simp add: cluster2_def)
  then show "answer_ok opts2 q cluster2"
    unfolding answer_ok_def opts2_def
    by (auto simp: handleJoin_def leading_def build_options_def platform_wire_def cluster2_def split: option.splits prod.splits if_splits)
qed


definition join3 :: Event where
  "join3 = \<lparr>Type = EventJoin, Member = \<lparr>ID = ''n3'', Addr = ''c:1'', Meta = None\<rparr>, At = 5\<rparr>"



end
