(* ===== verification/Peers.thy ===== *)
theory Peers
  imports Wiring
begin

text \<open>
  Nodes that talk to each other: the RPC client of one node is the gRPC or HTTP client of
  \<open>pkg/transport\<close>, and what it reaches is the management service of another node, whose state
  follows the calls of the first. The other node may act on its own before each call (\<open>drift\<close>).
\<close>

section \<open>The client of a node\<close>

definition cli_GetStatus where
  "cli_GetStatus v t client addr w =
     (case client of
        CliGrpc c \<Rightarrow> client_GetStatus (v_grpc v t c) addr w
      | CliHttp c \<Rightarrow> apfst (\<lambda>r. case r of Some x \<Rightarrow> x | None \<Rightarrow> Inr []) (http_GetStatus c (v_http v t c) addr w))"

definition cli_PostAppWrite where
  "cli_PostAppWrite errorf v t client addr req w =
     (case client of
        CliGrpc c \<Rightarrow> client_PostAppWrite errorf (v_grpc v t c) addr req w
      | CliHttp c \<Rightarrow> http_result (http_PostAppWrite c (v_http v t c) addr req w))"

fun api_client :: "mgmt_api \<Rightarrow> cli_client" where
  "api_client (ApiGrpc s c) = CliGrpc c"
| "api_client (ApiHttp s c) = CliHttp c"

fun api_timeout :: "mgmt_api \<Rightarrow> duration" where
  "api_timeout (ApiGrpc s c) = gc_timeout c"
| "api_timeout (ApiHttp s c) = hc_timeout c"

text \<open>What a call of this node does to the other side, and the answers it gets.\<close>

definition rpc_call ::
  "(string \<Rightarrow> gerror) \<Rightarrow> 'w cli_env \<Rightarrow> duration \<Rightarrow> cli_client \<Rightarrow> call \<Rightarrow> 'w \<Rightarrow> 'w" where
  "rpc_call errorf v t client c w =
     (case c of
        ClientGetStatus a \<Rightarrow> snd (cli_GetStatus v t client a w)
      | ClientPostJoin a q \<Rightarrow> snd (cli_PostJoin v t client a q w)
      | ClientPostAppWrite a q \<Rightarrow> snd (cli_PostAppWrite errorf v t client a q w)
      | _ \<Rightarrow> w)"

definition peer_client ::
  "(string \<Rightarrow> gerror) \<Rightarrow> 'w cli_env \<Rightarrow> duration \<Rightarrow> cli_client \<Rightarrow> (trace \<Rightarrow> 'w \<Rightarrow> 'w) \<Rightarrow> 'w \<Rightarrow> rpc_client" where
  "peer_client errorf v t client drift w0 =
     (let ask = comp_ask (rpc_call errorf v t client) drift w0
      in \<lparr>k_GetStatus = (\<lambda>h. case last h of ClientGetStatus a \<Rightarrow> fst (cli_GetStatus v t client a (ask h)) | _ \<Rightarrow> Inl []),
          k_PostJoin = (\<lambda>h. case last h of ClientPostJoin a q \<Rightarrow> fst (cli_PostJoin v t client a q (ask h)) | _ \<Rightarrow> Inl []),
          k_PostAppWrite = (\<lambda>h. case last h of
              ClientPostAppWrite a q \<Rightarrow> fst (cli_PostAppWrite errorf v t client a q (ask h)) | _ \<Rightarrow> Inl [])\<rparr>)"

text \<open>The platform of a node whose client reaches other nodes.\<close>

definition with_peers ::
  "(string \<Rightarrow> gerror) \<Rightarrow> 'w cli_env \<Rightarrow> (trace \<Rightarrow> 'w \<Rightarrow> 'w) \<Rightarrow> 'w \<Rightarrow> ('r, 'm) platform \<Rightarrow> ('r, 'm) platform" where
  "with_peers errorf v drift w0 pf =
     pf\<lparr>pf_client := (\<lambda>api. peer_client errorf v (api_timeout api) (api_client api) drift w0)\<rparr>"

section \<open>Connected clients\<close>

lemma cli_GetStatus_connected:
  assumes "connected v t client addr sv"
  shows "cli_GetStatus v t client addr w = apfst Inr (sv_status sv w)"
proof (cases client)
  case (CliGrpc c)
  then show ?thesis
    using assms status_call [of "v_grpc v t c" addr "as_grpc sv" w]
    by (simp add: connected_def cli_GetStatus_def as_grpc_def)
next
  case (CliHttp c)
  then obtain metrics where "http_delivers (v_http v t c) c addr (as_http metrics sv)"
    using assms by (auto simp: connected_def)
  from http_status_answered [OF this] CliHttp show ?thesis
    by (cases "sv_status sv w") (simp add: cli_GetStatus_def)
qed

text \<open>The error of an application call comes back as an error of the gRPC call, in the HTTP response otherwise.\<close>

lemma cli_PostAppWrite_connected:
  assumes "connected v t client addr sv" and "valid_utf8 (wq_Op q)" and "valid_utf8 (wr_Error (fst (sv_appWrite sv q w)))"
  shows "cli_PostAppWrite errorf v t client addr q w =
    apfst (\<lambda>r. if (\<exists>c. client = CliGrpc c) \<and> wr_Error r \<noteq> [] then Inl (errorf (wr_Error r)) else Inr r) (sv_appWrite sv q w)"
proof (cases client)
  case (CliGrpc c)
  have "valid_result wr_Error wr_Error (apfst Inr (sv_appWrite sv q w) :: (gerror + AppWriteResponse) \<times> _)"
    using assms(3) by (auto simp: valid_result_def apfst_def map_prod_def split: prod.splits)
  then have "Invoke (v_grpc v t c) addr ''/cluster.v1.Management/AppWrite'' (enc_AppWriteRequest q)
      AppWriteResponse_fields zero_AppWriteResponse w = mgmt_AppWrite (as_grpc sv) q w"
    using assms(1,2) CliGrpc by (intro write_call) (auto simp: connected_def as_grpc_def)
  then show ?thesis
    by (cases "sv_appWrite sv q w")
      (simp add: cli_PostAppWrite_def CliGrpc client_PostAppWrite_def mgmt_AppWrite_def as_grpc_def)
next
  case (CliHttp c)
  then obtain metrics where "http_delivers (v_http v t c) c addr (as_http metrics sv)"
    using assms(1) by (auto simp: connected_def)
  from http_answers(3) [OF this, of q w] assms(2,3) CliHttp show ?thesis
    by (cases "sv_appWrite sv q w") (simp add: cli_PostAppWrite_def http_result_def)
qed

text \<open>The answers a peer gives, and its state after them.\<close>

lemma peer_client_simps:
  "k_GetStatus (peer_client errorf v t client drift w0) (h @ [ClientGetStatus a]) =
     fst (cli_GetStatus v t client a (comp_ask (rpc_call errorf v t client) drift w0 (h @ [ClientGetStatus a])))"
  "k_PostJoin (peer_client errorf v t client drift w0) (h @ [ClientPostJoin a q]) =
     fst (cli_PostJoin v t client a q (comp_ask (rpc_call errorf v t client) drift w0 (h @ [ClientPostJoin a q])))"
  "k_PostAppWrite (peer_client errorf v t client drift w0) (h @ [ClientPostAppWrite a wq]) =
     fst (cli_PostAppWrite errorf v t client a wq (comp_ask (rpc_call errorf v t client) drift w0 (h @ [ClientPostAppWrite a wq])))"
  by (simp_all add: peer_client_def Let_def)

section \<open>Finding the leader through a seed\<close>

lemma resolve_through_seed:
  assumes "seed \<noteq> []" and "connected v t client seed (cluster_service oA)"
    and "run_state (Status oA) (comp_ask (rpc_call errorf v t client) drift w0 (hist s @ [ClientGetStatus seed])) = (st, w)"
    and "status_ok st"
  shows "run_state (resolve_join oB (peer_client errorf v t client drift w0) seed) s =
    (Inr (if LeaderAddr st \<noteq> [] then LeaderAddr st else seed), s\<lparr>hist := hist s @ [ClientGetStatus seed]\<rparr>)"
proof -
  have "k_GetStatus (peer_client errorf v t client drift w0) (hist s @ [ClientGetStatus seed]) =
      Inr (Marshal (enc_status st))"
    using assms(3) unfolding peer_client_simps cli_GetStatus_connected [OF assms(2)]
    by (simp add: cluster_service_def statusLocalJSON_def run_state_bind)
  then show ?thesis
    using assms(1,4) by (simp add: resolve_join_def parse_status_enc)
qed

text \<open>The request a node sends to join, and the calls a leader makes of its engine to grant it.\<close>

definition join_request :: "Options \<Rightarrow> JoinRequest" where
  "join_request o1 = \<lparr>jq_ID = o_NodeID o1, jq_RaftAddr = (case o_Transport o1 of None \<Rightarrow> [] | Some a \<Rightarrow> a)\<rparr>"

definition join_calls :: "JoinRequest \<Rightarrow> trace" where
  "join_calls q = [ConsIsLeader, ConsAddVoter (jq_ID q) (jq_RaftAddr q) (3 * second)]"

section \<open>Properties\<close>


text \<open>
  C15. A write on a follower is the leader's write. Let a node \<open>B\<close> that does not lead know, from
  its consensus engine and its members, the management address of a leader \<open>A\<close>, over gRPC or
  HTTP. \<open>AppWrite\<close> on \<open>B\<close> then makes \<open>A\<close> handle exactly one write with the same operation and
  data: if \<open>A\<close> leads, its application handler runs once, and \<open>B\<close> returns exactly what it
  returned, bytes or error (an error that is not empty and, over gRPC, holds no \<open>%\<close>).
\<close>

theorem write_between_nodes:
  fixes s :: Cluster and errorf and v :: "Cluster cli_env" and t client op data
  defines "q \<equiv> \<lparr>wq_Op = op, wq_Data = data\<rparr>"
    and "route \<equiv> [ConsIsLeader, ConsLeader, MemMembers]" and "peer \<equiv> rpc_call errorf v t client"
  assumes "o_RPCClient oB = Some (peer_client errorf v t client drift A0)"
    and "o_Consensus oB = Some kB" and "\<not> c_IsLeader kB (hist s @ [ConsIsLeader])"
    and "c_Leader kB (hist s @ [ConsIsLeader, ConsLeader]) = Some (i, a)" and "o_Membership oB = Some mB"
    and "find (\<lambda>x. ID x = i) (m_Members mB (hist s @ route)) = Some mi" and "mgmt_addr mi = addr" and "addr \<noteq> []"
    and "connected v t client addr (cluster_service oA)" and "valid_utf8 op"
    and "o_Consensus oA = Some kA" and "o_AppHandlers oA = Some hA"
    and "A = comp_ask peer drift A0 (hist s @ route @ [ClientPostAppWrite addr q])"
    and "c_IsLeader kA (hist A @ [ConsIsLeader])"
    and "\<And>err. a_HandleWrite hA (hist A @ [ConsIsLeader, AppHandleWrite op data]) = Inl err \<Longrightarrow>
      err \<noteq> [] \<and> valid_utf8 err \<and> errorf err = err"
  shows "let (res, s') = run_state (AppWrite oB op data) s in
    res = Some (a_HandleWrite hA (hist A @ [ConsIsLeader, AppHandleWrite op data]))
    \<and> hist s' = hist s @ route @ [ClientPostAppWrite addr q]
    \<and> hist (comp_at peer drift A0 (hist s')) = hist A @ [ConsIsLeader, AppHandleWrite op data]"
proof -
  let ?h = "(hist s @ route) @ [ClientPostAppWrite addr q]"
  let ?r = "a_HandleWrite hA (hist A @ [ConsIsLeader, AppHandleWrite op data])"
  obtain resp A' where r: "run_state (handleAppWrite oA q) A = (resp, A')"
    by (cases "run_state (handleAppWrite oA q) A")
  have A: "resp = (case ?r of Inl err \<Rightarrow> \<lparr>wr_Data = [], wr_Error = err\<rparr> | Inr out \<Rightarrow> \<lparr>wr_Data = out, wr_Error = []\<rparr>)"
    "hist A' = hist A @ [ConsIsLeader, AppHandleWrite op data]"
    using r assms(14,15,17) by (auto simp: handleAppWrite_def leading_def q_def run_state_bind)
  have u: "valid_utf8 (wr_Error resp)" using A(1) assms(18) by (cases ?r) simp_all
  have c: "cli_PostAppWrite errorf v t client addr q A =
      (if (\<exists>c. client = CliGrpc c) \<and> wr_Error resp \<noteq> [] then Inl (errorf (wr_Error resp)) else Inr resp, A')"
    using cli_PostAppWrite_connected [OF assms(12), of q A errorf] assms(13) u r
    by (simp add: cluster_service_def q_def)
  have k: "comp_at peer drift A0 ?h = A'" "k_PostAppWrite (peer_client errorf v t client drift A0) ?h =
      (if (\<exists>c. client = CliGrpc c) \<and> wr_Error resp \<noteq> [] then Inl (errorf (wr_Error resp)) else Inr resp)"
    using c assms(16) unfolding peer_client_simps comp_at_simps by (simp_all add: peer_def rpc_call_def)
  have "run_state (AppWrite oB op data) s = (Some ?r, s\<lparr>hist := ?h\<rparr>)"
    using k(2) assms(4-11,18) A(1)
    by (cases ?r) (auto simp: AppWrite_def leading_def forward_addr_def leader_mgmt_def lookupMemberAddr_def run_state_bind
        route_def q_def split: list.splits)
  then show ?thesis using k(1) A(2) by simp
qed

section \<open>Two nodes\<close>

text \<open>
  The leader is the node of the platform \<open>pf2\<close>; the other node is a follower that knows it as
  \<open>n1\<close> at \<open>a:2\<close>, and whose gRPC client reaches it there.
\<close>

definition client_B :: cli_client where
  "client_B = CliGrpc (grpc_NewClient 0)"

definition opts_B :: Options where
  "opts_B = (opts_follower status1)\<lparr>o_Transport := Some ''r:2'',
     o_RPCClient := Some (peer_client (\<lambda>e. e) (cli_env_to opts2) 0 client_B (\<lambda>_ A. A) cluster2)\<rparr>"

lemma opts_B_simps [simp]:
  "o_NodeID opts_B = ''n2''" "o_Transport opts_B = Some ''r:2''"
  "o_RPCClient opts_B = Some (peer_client (\<lambda>e. e) (cli_env_to opts2) 0 client_B (\<lambda>_ A. A) cluster2)"
  "o_Consensus opts_B = Some (leader1\<lparr>c_IsLeader := (\<lambda>_. False)\<rparr>)" "o_Membership opts_B = Some members1"
  by (simp_all add: opts_B_def opts_follower_def opts1_def)


text \<open>A leader with an application, and the same follower pointed at it.\<close>

definition opts_A :: Options where
  "opts_A = opts1\<lparr>o_AppHandlers := Some \<lparr>a_HandleWrite = (\<lambda>_. Inl ''disk full''), a_HandleSync = (\<lambda>_. None)\<rparr>\<rparr>"

theorem write_between_nodes_witness:
  "fst (run_state (AppWrite (opts_B\<lparr>o_RPCClient := Some (peer_client (\<lambda>e. e) (cli_env_to opts_A) 0 client_B (\<lambda>_ A. A) cluster1)\<rparr>)
      ''put'' ''x'') cluster1) = Some (Inl ''disk full'')"
proof -
  let ?oB = "opts_B\<lparr>o_RPCClient := Some (peer_client (\<lambda>e. e) (cli_env_to opts_A) 0 client_B (\<lambda>_ A. A) cluster1)\<rparr>"
  have A: "comp_ask (rpc_call (\<lambda>e. e) (cli_env_to opts_A) 0 client_B) (\<lambda>_ A. A) cluster1
      ([ConsIsLeader, ConsLeader, MemMembers] @ [c]) = cluster1" for c
    by (simp add: comp_ask_def comp_at_def rpc_call_def)
  show ?thesis
    using write_between_nodes [where oB = ?oB and s = cluster1 and op = "''put''" and data = "''x''" and oA = opts_A and i = "''n1''"
        and a = "''r:1''" and kB = "leader1\<lparr>c_IsLeader := (\<lambda>_. False)\<rparr>" and kA = leader1 and mB = members1 and addr = "''a:2''"
        and mi = "\<lparr>ID = ''n1'', Addr = ''a:1'', Meta = Some [(''mgmt'', ''a:2'')]\<rparr>" and v = "cli_env_to opts_A" and t = 0
        and client = client_B and errorf = "\<lambda>e. e" and drift = "\<lambda>_ A. A" and ?A0.0 = cluster1 and A = cluster1
        and hA = "\<lparr>a_HandleWrite = (\<lambda>_. Inl ''disk full''), a_HandleSync = (\<lambda>_. None)\<rparr>",
        OF _ _ _ _ _ _ _ _ cli_env_connected]
      A
    by (simp add: leader1_def members1_def mgmt_addr_def opts_A_def opts1_def cluster1_def valid_utf8_all_ascii split: prod.splits)
qed

end
