(* ===== verification/GrpcDial.thy ===== *)
theory GrpcDial
  imports Bootstrap
begin

text \<open>
  How the gRPC server and client of \<open>pkg/transport/grpc\<close> are set up: the options \<open>Start\<close> gives
  the server (\<open>server.go\<close>), those \<open>dialCtx\<close> dials with (\<open>client.go\<close>), the codec
  (\<open>jsoncodec.go\<close>) and the names of all methods on both sides. \<open>can_talk\<close> states what the gRPC
  documentation asks of the two sets of options.
\<close>

section \<open>The codec\<close>

definition jsonCodec_Name :: string where
  "jsonCodec_Name = ''json''"

definition jsonCodec_Marshal :: "json \<Rightarrow> gerror + bytes" where
  "jsonCodec_Marshal v = Inr (Marshal v)"

definition jsonCodec_Unmarshal :: "'a decoder \<Rightarrow> bytes \<Rightarrow> 'a \<Rightarrow> 'a \<times> gerror option" where
  "jsonCodec_Unmarshal d b v = Unmarshal d b v"

section \<open>Options\<close>

datatype server_option =
    ForceServerCodec string
  | EnforcementPolicy duration bool
  | ServerKeepalive duration duration
  | ServerTLS

datatype dial_option =
    DefaultCallOptions string string
  | ConnectParams duration
  | ClientKeepalive duration duration bool
  | WithBlock
  | ClientTLS
  | ClientInsecure

definition server_options :: "Server \<Rightarrow> server_option list" where
  "server_options s =
     [ForceServerCodec jsonCodec_Name, EnforcementPolicy (5 * second) True, ServerKeepalive (30 * second) (10 * second)]
     @ (if tlsCfg s then [ServerTLS] else [])"

definition dial_options :: "grpc_Client \<Rightarrow> dial_option list" where
  "dial_options c =
     [DefaultCallOptions jsonCodec_Name ''json'', ConnectParams (500 * millisecond),
      ClientKeepalive (20 * second) (5 * second) True, WithBlock]
     @ (if gc_tls c then [ClientTLS] else [ClientInsecure])"

text \<open>\<open>dial\<close> is \<open>grpc.DialContext\<close>.\<close>

definition dialCtx :: "(string \<Rightarrow> dial_option list \<Rightarrow> 'd) \<Rightarrow> grpc_Client \<Rightarrow> string \<Rightarrow> 'd" where
  "dialCtx dial c target = dial target (dial_options c)"

section \<open>What the library asks\<close>

text \<open>
  Messages are read with the codec they were written with; both sides use TLS or neither; the
  client has exactly one kind of credentials; and it pings no more often than the server allows
  (otherwise the server closes the connection).
\<close>

definition same_codec :: "server_option list \<Rightarrow> dial_option list \<Rightarrow> bool" where
  "same_codec so co \<longleftrightarrow> (\<forall>a b t. ForceServerCodec a \<in> set so \<and> DefaultCallOptions b t \<in> set co \<longrightarrow> a = b \<and> t = a)"

definition pings_allowed :: "server_option list \<Rightarrow> dial_option list \<Rightarrow> bool" where
  "pings_allowed so co \<longleftrightarrow> (\<forall>t x idle m permit. ClientKeepalive t x idle \<in> set co \<and> EnforcementPolicy m permit \<in> set so \<longrightarrow>
     m \<le> t \<and> (idle \<longrightarrow> permit))"

definition can_talk :: "server_option list \<Rightarrow> dial_option list \<Rightarrow> bool" where
  "can_talk so co \<longleftrightarrow> same_codec so co \<and> pings_allowed so co
     \<and> (ClientTLS \<in> set co) \<noteq> (ClientInsecure \<in> set co) \<and> (ServerTLS \<in> set so \<longleftrightarrow> ClientTLS \<in> set co)"

lemma options_talk: "can_talk (server_options s) (dial_options c) \<longleftrightarrow> tlsCfg s = gc_tls c"
  by (auto simp: can_talk_def same_codec_def pings_allowed_def server_options_def dial_options_def jsonCodec_Name_def)

lemma map_sum_Inr: "map_sum f g x = Inr y \<longleftrightarrow> (\<exists>z. x = Inr z \<and> y = g z)"
  by (cases x) auto

lemma build_tls_set:
  assumes "build_tls env cfg = Inr (s, c)"
  shows "(s \<noteq> None \<longleftrightarrow> cf_TLSEnable cfg) \<and> (c \<noteq> None \<longleftrightarrow> cf_TLSEnable cfg)"
  using assms
  by (auto simp: build_tls_def tls_ServerHotReload_def tls_ClientHotReload_def build_tls_options_def map_sum_Inr
      split: if_splits sum.splits)

lemma built_api:
  assumes "build_parts env cfg = Inr b"
  shows "\<exists>s c. build_tls env (cfg\<lparr>cf_Logger := True\<rparr>) = Inr (s, c) \<and> bt_api b = build_api (cfg\<lparr>cf_Logger := True\<rparr>) s c"
  using assms by (auto simp: build_parts_def Let_def split: sum.splits)

lemma built_grpc:
  "build_parts env cfg = Inr b \<Longrightarrow> cf_MgmtProto cfg = ''grpc'' \<Longrightarrow> \<exists>s c. bt_api b = ApiGrpc s c"
  by (drule built_api) (auto simp: build_api_def Let_def)

section \<open>The methods of the server\<close>

definition Replication_serviceDesc ::
  "ranges \<Rightarrow> (string \<times> (bytes \<Rightarrow> Server \<Rightarrow> (gerror + bytes) \<times> Server)) list
     \<times> (string \<times> (pointer \<Rightarrow> gerror + bytes \<Rightarrow> (Server \<Rightarrow> Server) \<Rightarrow> Server \<Rightarrow> gerror option \<times> Server)) list" where
  "Replication_serviceDesc r =
     ([(''/cluster.v1.Replication/Ack'', Replication_Ack_Handler r None)],
      [(''/cluster.v1.Replication/Subscribe'', Replication_Subscribe_Handler)])"

text \<open>All names \<open>Start\<close> registers, and all the client calls.\<close>

definition registered_methods :: "'w mgmtImpl \<Rightarrow> ranges \<Rightarrow> string list" where
  "registered_methods m r =
     map fst (Management_serviceDesc m) @ map fst (fst (Replication_serviceDesc r)) @ map fst (snd (Replication_serviceDesc r))"

definition client_methods :: "string list" where
  "client_methods =
     [''/cluster.v1.Management/GetStatus'', ''/cluster.v1.Management/Join'', ''/cluster.v1.Management/Leave'',
      ''/cluster.v1.Management/AppWrite'', ''/cluster.v1.Management/AppSync'', ''/cluster.v1.Replication/Ack'',
      ''/cluster.v1.Replication/Subscribe'']"

section \<open>Properties\<close>



end
