(* ===== verification/Tracing.thy ===== *)
theory Tracing
  imports Cli
begin

text \<open>
  \<open>pkg/observability/tracing/tracing.go\<close>, and the spans that the management servers and the
  join and leave handlers open. OpenTelemetry is a library: creating the exporter may fail, and
  what is kept of a span is its start and its end. Both servers with tracing are the servers
  without it over a world that also holds the tracer.
\<close>

section \<open>The package\<close>

datatype span_event = SpanStart string | SpanEnd string

record tracer =
  enabled :: bool
  provider :: bool
  spans :: "span_event list"
  shutdowns :: nat

text \<open>\<open>new_err\<close> is what making the exporter returns; the shutdown function is a step of the tracer.\<close>

definition Setup :: "gerror option \<Rightarrow> bool \<Rightarrow> tracer \<Rightarrow> (gerror + (tracer \<Rightarrow> tracer)) \<times> tracer" where
  "Setup new_err enable g =
     (let g1 = g\<lparr>enabled := enable\<rparr>
      in if \<not> enable then (Inr (\<lambda>g. g), g1)
         else (case new_err of
             Some err \<Rightarrow> (Inl err, g1)
           | None \<Rightarrow> (Inr (\<lambda>g. g\<lparr>shutdowns := shutdowns g + 1\<rparr>), g1\<lparr>provider := True\<rparr>)))"

text \<open>The function returned ends the span it started, whatever was set up meanwhile.\<close>

definition StartSpan :: "string \<Rightarrow> tracer \<Rightarrow> (tracer \<Rightarrow> tracer) \<times> tracer" where
  "StartSpan name g =
     (if \<not> enabled g then ((\<lambda>g. g), g)
      else ((\<lambda>g. g\<lparr>spans := spans g @ [SpanEnd name]\<rparr>), g\<lparr>spans := spans g @ [SpanStart name]\<rparr>))"

section \<open>Functions with spans\<close>

type_synonym ('w, 'a) step = "'w \<Rightarrow> 'a \<times> 'w"

definition lifted :: "('w, 'a) step \<Rightarrow> ('w \<times> tracer, 'a) step" where
  "lifted f x = (case f (fst x) of (a, w) \<Rightarrow> (a, w, snd x))"

text \<open>\<open>ctx, end := tracing.StartSpan(ctx, name); defer end()\<close> around the rest of a function.\<close>

definition with_span :: "string \<Rightarrow> ('w \<times> tracer, 'a) step \<Rightarrow> ('w \<times> tracer, 'a) step" where
  "with_span name f x =
     (let (finish, g) = StartSpan name (snd x);
          (a, w, g') = f (fst x, g)
      in (a, w, finish g'))"

definition traced_service :: "'w service \<Rightarrow> ('w \<times> tracer) service" where
  "traced_service sv =
     \<lparr>sv_status = lifted (sv_status sv),
      sv_join = (\<lambda>q. with_span ''cluster.handleJoin'' (lifted (sv_join sv q))),
      sv_leave = (\<lambda>q. with_span ''cluster.handleLeave'' (lifted (sv_leave sv q))),
      sv_appWrite = (\<lambda>q. lifted (sv_appWrite sv q)), sv_appSync = (\<lambda>q. lifted (sv_appSync sv q))\<rparr>"

definition traced_grpc :: "('w \<times> tracer) mgmtImpl \<Rightarrow> ('w \<times> tracer) mgmtImpl" where
  "traced_grpc m =
     m\<lparr>f_status := with_span ''grpc.status'' (f_status m),
       f_join := (\<lambda>q. with_span ''grpc.join'' (f_join m q)),
       f_leave := map_option (\<lambda>f q. with_span ''grpc.leave'' (f q)) (f_leave m)\<rparr>"

definition traced_http :: "('w \<times> tracer) http_funcs \<Rightarrow> ('w \<times> tracer) http_funcs" where
  "traced_http f =
     f\<lparr>h_status := with_span ''http.status'' (h_status f),
       h_join := map_option (\<lambda>g q. with_span ''http.join'' (g q)) (h_join f),
       h_leave := map_option (\<lambda>g q. with_span ''http.leave'' (g q)) (h_leave f)\<rparr>"

section \<open>Transparency\<close>

text \<open>Spans that are properly nested: each is ended, after those opened inside it.\<close>

inductive nested :: "span_event list \<Rightarrow> bool" where
  nested_Nil [intro]: "nested []"
| nested_span [intro]: "nested a \<Longrightarrow> nested b \<Longrightarrow> nested (SpanStart n # a @ SpanEnd n # b)"

text \<open>One function does what another does, and besides opens and closes spans while tracing is enabled.\<close>

definition traces :: "('w \<times> tracer, 'a) step \<Rightarrow> ('w, 'a) step \<Rightarrow> bool" where
  "traces f' f \<longleftrightarrow> (\<forall>w g. \<exists>bs. f' (w, g) = (fst (f w), snd (f w), g\<lparr>spans := spans g @ bs\<rparr>)
     \<and> (if enabled g then nested bs else bs = []))"

named_theorems traced "functions that differ from others by spans only"

lemma tracesI:
  assumes "\<And>w g. \<exists>bs. f' (w, g) = (fst (f w), snd (f w), g\<lparr>spans := spans g @ bs\<rparr>)
    \<and> (if enabled g then nested bs else bs = [])"
  shows "traces f' f"
  using assms by (simp add: traces_def)

lemma tracesE:
  assumes "traces f' f"
  obtains bs where "f' (w, g) = (fst (f w), snd (f w), g\<lparr>spans := spans g @ bs\<rparr>)"
    "if enabled g then nested bs else bs = []"
  using assms unfolding traces_def by blast

lemma traces_lifted [traced]: "traces (lifted f) f"
  by (rule tracesI, rule exI [of _ "[]"]) (auto simp: lifted_def split: prod.splits)

lemma traces_span [traced]:
  assumes "traces f' f"
  shows "traces (with_span n f') f"
proof (rule tracesI)
  fix w and g :: tracer
  show "\<exists>bs. with_span n f' (w, g) = (fst (f w), snd (f w), g\<lparr>spans := spans g @ bs\<rparr>)
      \<and> (if enabled g then nested bs else bs = [])"
  proof (cases "enabled g")
    case True
    obtain bs where b: "f' (w, g\<lparr>spans := spans g @ [SpanStart n]\<rparr>) =
        (fst (f w), snd (f w), g\<lparr>spans := (spans g @ [SpanStart n]) @ bs\<rparr>)" "nested bs"
      using True by (rule_tac tracesE [OF assms, of w "g\<lparr>spans := spans g @ [SpanStart n]\<rparr>"]) auto
    then show ?thesis
      using True nested_span [OF b(2) nested_Nil, of n]
      by (intro exI [of _ "SpanStart n # bs @ [SpanEnd n]"]) (simp add: with_span_def StartSpan_def)
  next
    case False
    then show ?thesis by (rule_tac tracesE [OF assms, of w g]) (simp add: with_span_def StartSpan_def)
  qed
qed

lemma traces_const [traced]: "traces (\<lambda>x. (a, x)) (\<lambda>w. (a, w))"
  by (rule tracesI, rule exI [of _ "[]"]) auto

lemma traces_if [traced]:
  "(c \<Longrightarrow> traces a' a) \<Longrightarrow> (\<not> c \<Longrightarrow> traces b' b) \<Longrightarrow> traces (\<lambda>x. if c then a' x else b' x) (\<lambda>w. if c then a w else b w)"
  by (cases c) simp_all

lemma traces_map:
  assumes "traces f' f"
  shows "traces (\<lambda>x. apfst k (f' x)) (\<lambda>w. apfst k (f w))"
proof (rule tracesI)
  fix w and g :: tracer
  show "\<exists>bs. apfst k (f' (w, g)) = (fst (apfst k (f w)), snd (apfst k (f w)), g\<lparr>spans := spans g @ bs\<rparr>)
      \<and> (if enabled g then nested bs else bs = [])"
    by (rule_tac tracesE [OF assms, of w g]) auto
qed

text \<open>The handlers of both servers only map the answer of the function they call.\<close>

lemma case_sum_result:
  "(case p of (Inl e, w') \<Rightarrow> (a e, w') | (Inr r, w') \<Rightarrow> (b r, w')) = apfst (case_sum a b) p"
  by (auto split: prod.splits sum.splits)

lemma case_error_result:
  "(case p of ((r, Some e), w') \<Rightarrow> (a r e, w') | ((r, None), w') \<Rightarrow> (b r, w')) =
     apfst (\<lambda>(r, e). case e of Some e \<Rightarrow> a r e | None \<Rightarrow> b r) p"
  by (auto split: prod.splits option.splits)

lemma traces_unary [traced]:
  assumes "\<And>q. traces (f' q) (f q)"
  shows "traces (unary_handler info fs z enc None f' body) (unary_handler info fs z enc None f body)"
proof (cases "Unmarshal (dec_struct fs) body z")
  case (Pair q err)
  then show ?thesis
    using assms by (cases err)
      (auto simp: unary_handler_def [abs_def] case_sum_result intro!: traces_map traced)
qed

lemma traces_mgmt [traced]:
  "traces (f_status m') (f_status m) \<Longrightarrow> traces (mgmt_GetStatus m' u) (mgmt_GetStatus m u)"
  "traces (f_join m' q) (f_join m q) \<Longrightarrow> traces (mgmt_Join m' q) (mgmt_Join m q)"
  unfolding mgmt_GetStatus_def [abs_def] mgmt_Join_def [abs_def] case_sum_result by (auto intro!: traces_map)

text \<open>A function that may be missing, on both sides.\<close>

definition opt_traces :: "('q \<Rightarrow> ('w \<times> tracer, 'a) step) option \<Rightarrow> ('q \<Rightarrow> ('w, 'a) step) option \<Rightarrow> bool" where
  "opt_traces f' f = rel_option (\<lambda>a b. \<forall>q. traces (a q) (b q)) f' f"

lemma traces_mgmt_opt [traced]:
  "opt_traces (f_leave m') (f_leave m) \<Longrightarrow> traces (mgmt_Leave m' lq) (mgmt_Leave m lq)"
  "opt_traces (f_appWrite m') (f_appWrite m) \<Longrightarrow> traces (mgmt_AppWrite m' wq) (mgmt_AppWrite m wq)"
  "opt_traces (f_appSync m') (f_appSync m) \<Longrightarrow> traces (mgmt_AppSync m' sq) (mgmt_AppSync m sq)"
  unfolding opt_traces_def
  by (auto elim!: option.rel_cases simp: mgmt_Leave_def [abs_def] mgmt_AppWrite_def [abs_def] mgmt_AppSync_def [abs_def]
      case_sum_result intro!: traces_map traced)

lemma traces_post [traced]:
  assumes "opt_traces f' f"
  shows "traces (http_post_handler name fs z enc on_err f' r body) (http_post_handler name fs z enc on_err f r body)"
proof (cases "hq_Method r = ''POST''")
  case True
  obtain q err where d: "Decode (dec_struct fs) body z = (q, err)" by (cases "Decode (dec_struct fs) body z")
  from assms show ?thesis unfolding opt_traces_def
    by (rule option.rel_cases; cases err)
      (auto simp: True d http_post_handler_def [abs_def] case_error_result intro!: traces_map traced)
qed (auto simp: http_post_handler_def [abs_def] intro: traced)

text \<open>Two sets of functions given to a server, with and without spans.\<close>

definition grpc_traces :: "('w \<times> tracer) mgmtImpl \<Rightarrow> 'w mgmtImpl \<Rightarrow> bool" where
  "grpc_traces m' m \<longleftrightarrow> traces (f_status m') (f_status m) \<and> (\<forall>q. traces (f_join m' q) (f_join m q))
     \<and> opt_traces (f_leave m') (f_leave m) \<and> opt_traces (f_appWrite m') (f_appWrite m)
     \<and> opt_traces (f_appSync m') (f_appSync m)"

definition http_traces :: "('w \<times> tracer) http_funcs \<Rightarrow> 'w http_funcs \<Rightarrow> bool" where
  "http_traces f' f \<longleftrightarrow> traces (h_status f') (h_status f) \<and> opt_traces (h_join f') (h_join f)
     \<and> opt_traces (h_leave f') (h_leave f) \<and> opt_traces (h_appWrite f') (h_appWrite f)
     \<and> opt_traces (h_appSync f') (h_appSync f) \<and> (\<forall>r. traces (h_metrics f' r) (h_metrics f r))"

lemma opt_traces_Some [traced]: "(\<And>q. traces (f' q) (f q)) \<Longrightarrow> opt_traces (Some f') (Some f)"
  by (simp add: opt_traces_def)

lemma opt_traces_span:
  "opt_traces f' f \<Longrightarrow> opt_traces (map_option (\<lambda>g q. with_span n (g q)) f') f"
  unfolding opt_traces_def by (erule option.rel_cases) (auto intro: traced)

lemma traced_servers:
  "grpc_traces m' m \<Longrightarrow> grpc_traces (traced_grpc m') m" "http_traces f' f \<Longrightarrow> http_traces (traced_http f') f"
  by (auto simp: grpc_traces_def http_traces_def traced_grpc_def traced_http_def intro: traced opt_traces_span)

lemma traced_functions:
  "grpc_traces (as_grpc (traced_service sv)) (as_grpc sv)"
  "(\<And>r. traces (metrics' r) (metrics r)) \<Longrightarrow> http_traces (as_http metrics' (traced_service sv)) (as_http metrics sv)"
  by (auto simp: grpc_traces_def http_traces_def traced_service_def as_grpc_def as_http_def intro!: traced traces_map)

lemma traces_http_mux:
  assumes "http_traces f' f"
  shows "traces (http_mux f' r body) (http_mux f r body)"
proof -
  have "traces (http_status f' r body) (http_status f r body)"
    using assms unfolding http_status_def [abs_def] http_traces_def
    by (cases "hq_Method r = ''GET''") (auto simp: case_error_result intro!: traces_map traced)
  moreover have "traces (http_healthz r body) (http_healthz r body)"
    unfolding http_healthz_def [abs_def] by (cases "hq_Method r = ''GET''") (auto intro: traced)
  ultimately show ?thesis
    using assms unfolding http_mux_def [abs_def] http_traces_def http_join_def http_leave_def http_appwrite_def http_appsync_def
    by (intro traced) auto
qed

lemma traces_grpc_methods:
  assumes "grpc_traces m' m" and "map_of (Management_serviceDesc m) name = Some h"
  shows "\<exists>h'. map_of (Management_serviceDesc m') name = Some h' \<and> traces (h' body) (h body)"
  using assms unfolding Management_serviceDesc_def grpc_traces_def
  by (auto simp: Management_GetStatus_Handler_def Management_Join_Handler_def Management_Leave_Handler_def
      Management_AppWrite_Handler_def Management_AppSync_Handler_def intro!: traced split: if_splits)

section \<open>The run command with tracing\<close>

text \<open>
  A failed set-up is logged and the command goes on. The shutdown is deferred before the cluster
  is built, so it happens last, also when \<open>Run\<close> fails.
\<close>

definition run_RunE_traced where
  "run_RunE_traced new_err wr env f life fl g =
     (if rf_id fl = [] \<or> \<not> rf_traceEnable fl then (run_RunE wr env f life fl, g)
      else (case Setup new_err True g of
          (Inl err, g1) \<Rightarrow> (run_RunE wr env f life fl, g1)
        | (Inr shutdown, g1) \<Rightarrow> (run_RunE wr env f life fl, shutdown g1)))"

section \<open>Properties\<close>

text \<open>
  C14. Tracing changes nothing but the trace. For every request to the gRPC or the HTTP server of
  a cluster, well-formed or not, the server with tracing gives byte for byte the answer of the
  server without it and leaves the cluster in the same state; the spans it adds are properly
  nested, each ended exactly once whatever the handler returned, and there are none while
  tracing is disabled.
\<close>

theorem tracing_transparent:
  fixes sv :: "'w service" and g :: tracer
  defines "m \<equiv> as_grpc sv" and "m' \<equiv> traced_grpc (as_grpc (traced_service sv))"
    and "f \<equiv> \<lambda>metrics. as_http metrics sv"
    and "f' \<equiv> \<lambda>metrics. traced_http (as_http (\<lambda>r. lifted (metrics r)) (traced_service sv))"
  assumes "map_of (Management_serviceDesc m) name = Some h"
  shows "\<exists>h' bs bs'. map_of (Management_serviceDesc m') name = Some h'
    \<and> h' body (w, g) = (fst (h body w), snd (h body w), g\<lparr>spans := spans g @ bs\<rparr>)
    \<and> http_mux (f' metrics) r body (w, g) =
        (fst (http_mux (f metrics) r body w), snd (http_mux (f metrics) r body w), g\<lparr>spans := spans g @ bs'\<rparr>)
    \<and> nested bs \<and> nested bs' \<and> (\<not> enabled g \<longrightarrow> bs = [] \<and> bs' = [])"
proof -
  have "grpc_traces m' m" unfolding m_def m'_def by (intro traced_servers traced_functions)
  from traces_grpc_methods [OF this assms(5)] obtain h' where
    h': "map_of (Management_serviceDesc m') name = Some h'" "traces (h' body) (h body)" by blast
  have "http_traces (f' metrics) (f metrics)"
    unfolding f_def f'_def by (intro traced_servers traced_functions traced)
  from traces_http_mux [OF this] have hh: "traces (http_mux (f' metrics) r body) (http_mux (f metrics) r body)" .
  obtain bs where 1: "h' body (w, g) = (fst (h body w), snd (h body w), g\<lparr>spans := spans g @ bs\<rparr>)"
    "if enabled g then nested bs else bs = []" by (rule tracesE [OF h'(2)])
  obtain bs' where 2: "http_mux (f' metrics) r body (w, g) =
      (fst (http_mux (f metrics) r body w), snd (http_mux (f metrics) r body w), g\<lparr>spans := spans g @ bs'\<rparr>)"
    "if enabled g then nested bs' else bs' = []" by (rule tracesE [OF hh])
  show ?thesis
    using h'(1) 1 2 nested_Nil by (intro exI [of _ h'] exI [of _ bs] exI [of _ bs']) (auto split: if_splits)
qed

definition tracer_on :: tracer where
  "tracer_on = snd (Setup None True \<lparr>enabled = False, provider = False, spans = [], shutdowns = 0\<rparr>)"

text \<open>Joining through gRPC with tracing: two spans, the handler's inside the server's.\<close>

theorem tracing_transparent_witness:
  "\<exists>bs h'. map_of (Management_serviceDesc (traced_grpc (as_grpc (traced_service demo_service)))) ''/cluster.v1.Management/Join'' = Some h'
     \<and> fst (h' [] ([''n1''], tracer_on)) = fst (Management_Join_Handler (as_grpc demo_service) None [] [''n1''])
     \<and> snd (snd (h' [] ([''n1''], tracer_on))) = tracer_on\<lparr>spans := spans tracer_on @ bs\<rparr> \<and> nested bs"
proof -
  have "map_of (Management_serviceDesc (as_grpc demo_service)) ''/cluster.v1.Management/Join'' =
      Some (Management_Join_Handler (as_grpc demo_service) None)"
    by (simp add: Management_serviceDesc_def)
  from tracing_transparent [OF this, of "[]" "[''n1'']" tracer_on no_metrics "\<lparr>hq_Method = ''GET'', hq_URL = [], hq_Path = ''/status''\<rparr>"]
  obtain h' bs where "map_of (Management_serviceDesc (traced_grpc (as_grpc (traced_service demo_service))))
      ''/cluster.v1.Management/Join'' = Some h'"
    "h' [] ([''n1''], tracer_on) = (fst (Management_Join_Handler (as_grpc demo_service) None [] [''n1'']),
      snd (Management_Join_Handler (as_grpc demo_service) None [] [''n1'']), tracer_on\<lparr>spans := spans tracer_on @ bs\<rparr>)"
    "nested bs" by blast
  then show ?thesis by (intro exI [of _ bs] exI [of _ h']) simp
qed

lemma spans_of_a_join:
  "snd (snd (with_span ''grpc.join'' (with_span ''cluster.handleJoin'' (lifted f)) (w, tracer_on))) =
     tracer_on\<lparr>spans := [SpanStart ''grpc.join'', SpanStart ''cluster.handleJoin'', SpanEnd ''cluster.handleJoin'',
       SpanEnd ''grpc.join'']\<rparr>"
  by (simp add: with_span_def StartSpan_def lifted_def tracer_on_def Setup_def Let_def split: prod.splits)

text \<open>
  The run command does the same with and without tracing; the provider it set up, and only
  that, is shut down exactly once.
\<close>

lemma run_traced_spec:
  "fst (run_RunE_traced new_err wr env f life fl g) = run_RunE wr env f life fl"
  "shutdowns (snd (run_RunE_traced new_err wr env f life fl g)) =
     shutdowns g + (if rf_id fl \<noteq> [] \<and> rf_traceEnable fl \<and> new_err = None then 1 else 0)"
  by (auto simp: run_RunE_traced_def Setup_def Let_def split: option.splits)

text \<open>A set-up that fails leaves tracing enabled without a provider.\<close>

lemma failed_Setup_enabled: "enabled (snd (Setup (Some err) True g)) \<and> provider (snd (Setup (Some err) True g)) = provider g"
  by (simp add: Setup_def Let_def)

end
