(* ===== verification/Commands.thy ===== *)
theory Commands
  imports Tracing
begin

text \<open>
  The command tree of \<open>pkg/cli/cli.go\<close> and \<open>cmd/clusterctl\<close>: which commands there are, and how
  the flags of each are bound to its variables. The parser is the cobra library: of it only the
  documented effect of a flag is used, that binding sets the variable to its default and each
  occurrence on the command line sets it to the value given there.
\<close>

section \<open>Flags\<close>

datatype flag_value = FStr string | FBool bool | FInt int | FDur duration

text \<open>
  A flag of a command whose variables are \<open>'f\<close>: its name, its default, and the variable it is
  bound to, as a way to read and to set it. A value of another kind is rejected by the parser,
  so setting to it changes nothing.
\<close>

record 'f flag =
  fg_name :: string
  fg_default :: flag_value
  fg_get :: "'f \<Rightarrow> flag_value"
  fg_set :: "flag_value \<Rightarrow> 'f \<Rightarrow> 'f"

definition StringVar :: "('f \<Rightarrow> string) \<Rightarrow> (string \<Rightarrow> 'f \<Rightarrow> 'f) \<Rightarrow> string \<Rightarrow> string \<Rightarrow> 'f flag" where
  "StringVar get assign name value =
     \<lparr>fg_name = name, fg_default = FStr value, fg_get = (\<lambda>f. FStr (get f)),
      fg_set = (\<lambda>v f. case v of FStr x \<Rightarrow> assign x f | _ \<Rightarrow> f)\<rparr>"

definition BoolVar :: "('f \<Rightarrow> bool) \<Rightarrow> (bool \<Rightarrow> 'f \<Rightarrow> 'f) \<Rightarrow> string \<Rightarrow> bool \<Rightarrow> 'f flag" where
  "BoolVar get assign name value =
     \<lparr>fg_name = name, fg_default = FBool value, fg_get = (\<lambda>f. FBool (get f)),
      fg_set = (\<lambda>v f. case v of FBool x \<Rightarrow> assign x f | _ \<Rightarrow> f)\<rparr>"

definition IntVar :: "('f \<Rightarrow> int) \<Rightarrow> (int \<Rightarrow> 'f \<Rightarrow> 'f) \<Rightarrow> string \<Rightarrow> int \<Rightarrow> 'f flag" where
  "IntVar get assign name value =
     \<lparr>fg_name = name, fg_default = FInt value, fg_get = (\<lambda>f. FInt (get f)),
      fg_set = (\<lambda>v f. case v of FInt x \<Rightarrow> assign x f | _ \<Rightarrow> f)\<rparr>"

definition DurationVar :: "('f \<Rightarrow> duration) \<Rightarrow> (duration \<Rightarrow> 'f \<Rightarrow> 'f) \<Rightarrow> string \<Rightarrow> duration \<Rightarrow> 'f flag" where
  "DurationVar get assign name value =
     \<lparr>fg_name = name, fg_default = FDur value, fg_get = (\<lambda>f. FDur (get f)),
      fg_set = (\<lambda>v f. case v of FDur x \<Rightarrow> assign x f | _ \<Rightarrow> f)\<rparr>"

fun same_kind :: "flag_value \<Rightarrow> flag_value \<Rightarrow> bool" where
  "same_kind (FStr _) (FStr _) = True"
| "same_kind (FBool _) (FBool _) = True"
| "same_kind (FInt _) (FInt _) = True"
| "same_kind (FDur _) (FDur _) = True"
| "same_kind _ _ = False"

text \<open>Binding all flags, then the arguments from left to right; \<open>None\<close> is a rejected command line.\<close>

definition bind_flags :: "'f flag list \<Rightarrow> 'f \<Rightarrow> 'f" where
  "bind_flags fs z = fold (\<lambda>x. fg_set x (fg_default x)) fs z"

fun parse_args :: "'f flag list \<Rightarrow> (string \<times> flag_value) list \<Rightarrow> 'f \<Rightarrow> 'f option" where
  "parse_args fs [] f = Some f"
| "parse_args fs ((n, v) # args) f =
     (case find (\<lambda>x. fg_name x = n) fs of
        None \<Rightarrow> None
      | Some x \<Rightarrow> if same_kind v (fg_default x) then parse_args fs args (fg_set x v f) else None)"

section \<open>The commands\<close>

definition run_cmd_flags :: "run_flags flag list" where
  "run_cmd_flags =
     [StringVar rf_id (\<lambda>x. rf_id_update (\<lambda>_. x)) ''id'' [],
      StringVar rf_raftAddr (\<lambda>x. rf_raftAddr_update (\<lambda>_. x)) ''raft-addr'' '':9520'',
      StringVar rf_memBind (\<lambda>x. rf_memBind_update (\<lambda>_. x)) ''mem-bind'' '':7946'',
      StringVar rf_memAdv (\<lambda>x. rf_memAdv_update (\<lambda>_. x)) ''mem-adv'' [],
      StringVar rf_joinCSV (\<lambda>x. rf_joinCSV_update (\<lambda>_. x)) ''join'' [],
      StringVar rf_mgmtAddr (\<lambda>x. rf_mgmtAddr_update (\<lambda>_. x)) ''mgmt-addr'' '':17946'',
      StringVar rf_mgmtProto (\<lambda>x. rf_mgmtProto_update (\<lambda>_. x)) ''mgmt-proto'' ''http'',
      StringVar rf_discoveryKind (\<lambda>x. rf_discoveryKind_update (\<lambda>_. x)) ''discovery'' ''static'',
      StringVar rf_dnsNames (\<lambda>x. rf_dnsNames_update (\<lambda>_. x)) ''dns-names'' [],
      IntVar rf_dnsPort (\<lambda>x. rf_dnsPort_update (\<lambda>_. x)) ''dns-port'' 7946,
      DurationVar rf_discRefresh (\<lambda>x. rf_discRefresh_update (\<lambda>_. x)) ''disc-refresh'' (5 * second),
      StringVar rf_filePath (\<lambda>x. rf_filePath_update (\<lambda>_. x)) ''file-path'' [],
      StringVar rf_fileEnv (\<lambda>x. rf_fileEnv_update (\<lambda>_. x)) ''file-env'' [],
      BoolVar rf_tlsEnable (\<lambda>x. rf_tlsEnable_update (\<lambda>_. x)) ''tls-enable'' False,
      StringVar rf_tlsCA (\<lambda>x. rf_tlsCA_update (\<lambda>_. x)) ''tls-ca'' [],
      StringVar rf_tlsCert (\<lambda>x. rf_tlsCert_update (\<lambda>_. x)) ''tls-cert'' [],
      StringVar rf_tlsKey (\<lambda>x. rf_tlsKey_update (\<lambda>_. x)) ''tls-key'' [],
      BoolVar rf_tlsSkip (\<lambda>x. rf_tlsSkip_update (\<lambda>_. x)) ''tls-skip-verify'' False,
      StringVar rf_tlsServerName (\<lambda>x. rf_tlsServerName_update (\<lambda>_. x)) ''tls-server-name'' [],
      BoolVar rf_traceEnable (\<lambda>x. rf_traceEnable_update (\<lambda>_. x)) ''trace'' False,
      BoolVar rf_doBootstrap (\<lambda>x. rf_doBootstrap_update (\<lambda>_. x)) ''bootstrap'' False,
      StringVar rf_dataDir (\<lambda>x. rf_dataDir_update (\<lambda>_. x)) ''data'' []]"

record status_flags =
  sf_addr :: string
  sf_timeout :: duration

definition status_cmd_flags :: "status_flags flag list" where
  "status_cmd_flags =
     [StringVar sf_addr (\<lambda>x. sf_addr_update (\<lambda>_. x)) ''addr'' ''127.0.0.1:17946'',
      DurationVar sf_timeout (\<lambda>x. sf_timeout_update (\<lambda>_. x)) ''timeout'' (3 * second)]"

text \<open>What \<open>join\<close> and \<open>leave\<close> share, over any extension of the record.\<close>

definition rpc_cmd_flags :: "'z rpc_flags_scheme flag list" where
  "rpc_cmd_flags =
     [StringVar fl_addr (\<lambda>x. fl_addr_update (\<lambda>_. x)) ''addr'' ''127.0.0.1:17946'',
      StringVar fl_mgmtProto (\<lambda>x. fl_mgmtProto_update (\<lambda>_. x)) ''mgmt-proto'' ''http'',
      DurationVar fl_timeout (\<lambda>x. fl_timeout_update (\<lambda>_. x)) ''timeout'' (3 * second),
      BoolVar fl_tlsEnable (\<lambda>x. fl_tlsEnable_update (\<lambda>_. x)) ''tls-enable'' False,
      StringVar fl_tlsCA (\<lambda>x. fl_tlsCA_update (\<lambda>_. x)) ''tls-ca'' [],
      StringVar fl_tlsCert (\<lambda>x. fl_tlsCert_update (\<lambda>_. x)) ''tls-cert'' [],
      StringVar fl_tlsKey (\<lambda>x. fl_tlsKey_update (\<lambda>_. x)) ''tls-key'' [],
      BoolVar fl_tlsSkip (\<lambda>x. fl_tlsSkip_update (\<lambda>_. x)) ''tls-skip-verify'' False,
      StringVar fl_tlsServerName (\<lambda>x. fl_tlsServerName_update (\<lambda>_. x)) ''tls-server-name'' []]"

definition join_cmd_flags :: "join_flags flag list" where
  "join_cmd_flags =
     [StringVar fl_id (\<lambda>x. fl_id_update (\<lambda>_. x)) ''id'' [],
      StringVar fl_raftAddr (\<lambda>x. fl_raftAddr_update (\<lambda>_. x)) ''raft-addr'' []] @ rpc_cmd_flags"

definition leave_cmd_flags :: "rpc_flags flag list" where
  "leave_cmd_flags = StringVar fl_id (\<lambda>x. fl_id_update (\<lambda>_. x)) ''id'' [] # rpc_cmd_flags"

text \<open>The variables of each command before its flags are bound to them: Go's zero values.\<close>

definition run_zero :: run_flags where
  "run_zero =
     \<lparr>rf_id = [], rf_raftAddr = [], rf_memBind = [], rf_memAdv = [], rf_joinCSV = [],
      rf_mgmtAddr = [], rf_mgmtProto = [], rf_discoveryKind = [], rf_dnsNames = [],
      rf_filePath = [], rf_fileEnv = [], rf_dnsPort = 0, rf_discRefresh = 0, rf_tlsEnable = False,
      rf_tlsSkip = False, rf_traceEnable = False, rf_doBootstrap = False, rf_tlsCA = [], rf_tlsCert = [],
      rf_tlsKey = [], rf_tlsServerName = [], rf_dataDir = []\<rparr>"

definition status_zero :: status_flags where
  "status_zero = \<lparr>sf_addr = [], sf_timeout = 0\<rparr>"

definition leave_zero :: rpc_flags where
  "leave_zero =
     \<lparr>fl_id = [], fl_addr = [], fl_mgmtProto = [], fl_timeout = 0, fl_tlsEnable = False, fl_tlsSkip = False,
      fl_tlsCA = [], fl_tlsCert = [], fl_tlsKey = [], fl_tlsServerName = []\<rparr>"

definition join_zero :: join_flags where
  "join_zero = rpc_flags.extend leave_zero \<lparr>fl_raftAddr = []\<rparr>"

section \<open>The command tree\<close>

text \<open>
  What a process has around it: the libraries of a node and of the management clients, the files,
  the error of the trace exporter if it has one, and what happens to a node until a signal comes.
\<close>

record ('r, 'm, 'c, 'p, 'w) process =
  pc_wire :: "('r, 'm) wire"
  pc_tls :: "('c, 'p) tls_env"
  pc_fs :: fs
  pc_life :: "Cluster \<Rightarrow> Cluster"
  pc_cli :: "'w cli_env"
  pc_exporter :: "gerror option"
  pc_tracer :: tracer

datatype 'w effect = Ran "(Options \<times> Cluster) option" tracer | Called 'w

type_synonym 'w command_run = "'w \<Rightarrow> (gerror option \<times> bytes) \<times> 'w effect"
type_synonym arg_list = "(string \<times> flag_value) list"

datatype 'w command = Command
  (cmd_Use: string) (cmd_Short: string) (cmd_RunE: "(arg_list \<Rightarrow> 'w command_run option) option")
  (cmd_children: "'w command list")

definition with_flags :: "'f flag list \<Rightarrow> 'f \<Rightarrow> ('f \<Rightarrow> 'x) \<Rightarrow> arg_list \<Rightarrow> 'x option" where
  "with_flags fs z k args = map_option k (parse_args fs args (bind_flags fs z))"

definition NewRunCmd :: "('r, 'm, 'c, 'p, 'w) process \<Rightarrow> 'w command" where
  "NewRunCmd pc = Command ''run'' ''Run a cluster node''
     (Some (with_flags run_cmd_flags run_zero (\<lambda>fl w.
        case run_RunE_traced (pc_exporter pc) (pc_wire pc) (pc_tls pc) (pc_fs pc) (pc_life pc) fl (pc_tracer pc) of
          ((out, cl), g) \<Rightarrow> (out, Ran cl g)))) []"

definition NewStatusCmd :: "('r, 'm, 'c, 'p, 'w) process \<Rightarrow> 'w command" where
  "NewStatusCmd pc = Command ''status'' ''Fetch cluster status as JSON''
     (Some (with_flags status_cmd_flags status_zero (\<lambda>fl w.
        apsnd Called (status_RunE (pc_cli pc) (sf_addr fl) (sf_timeout fl) w)))) []"

definition NewJoinCmd :: "('r, 'm, 'c, 'p, 'w) process \<Rightarrow> 'w command" where
  "NewJoinCmd pc = Command ''join'' ''Request to add a node to the cluster''
     (Some (with_flags join_cmd_flags join_zero (\<lambda>fl w. apsnd Called (join_RunE (pc_cli pc) (pc_tls pc) fl w)))) []"

definition NewLeaveCmd :: "('r, 'm, 'c, 'p, 'w) process \<Rightarrow> 'w command" where
  "NewLeaveCmd pc = Command ''leave'' ''Request to remove a node from the cluster''
     (Some (with_flags leave_cmd_flags leave_zero (\<lambda>fl w. apsnd Called (leave_RunE (pc_cli pc) (pc_tls pc) fl w)))) []"

fun AddCommand :: "'w command \<Rightarrow> 'w command \<Rightarrow> 'w command" where
  "AddCommand c (Command u s r cs) = Command u s r (cs @ [c])"

definition AddAll :: "('r, 'm, 'c, 'p, 'w) process \<Rightarrow> 'w command \<Rightarrow> 'w command" where
  "AddAll pc root =
     AddCommand (NewLeaveCmd pc) (AddCommand (NewJoinCmd pc) (AddCommand (NewStatusCmd pc) (AddCommand (NewRunCmd pc) root)))"

definition NewClusterCommand :: "('r, 'm, 'c, 'p, 'w) process \<Rightarrow> 'w command" where
  "NewClusterCommand pc =
     (let parent = Command ''cluster'' ''cluster management commands'' None [];
          parent = AddCommand (NewRunCmd pc) parent;
          parent = AddCommand (NewStatusCmd pc) parent;
          parent = AddCommand (NewJoinCmd pc) parent;
          parent = AddCommand (NewLeaveCmd pc) parent
      in parent)"

definition newRoot :: "('r, 'm, 'c, 'p, 'w) process \<Rightarrow> 'w command" where
  "newRoot pc = AddAll pc (Command ''clusterctl'' ''go-cluster management CLI'' None [])"

text \<open>
  The library walks down the tree along the command names, then parses the flags of the command
  it reached and runs it. \<open>None\<close>: there is no such command, or the flags were rejected.
\<close>

fun Find_cmd :: "string list \<Rightarrow> 'w command \<Rightarrow> 'w command option" where
  "Find_cmd [] c = Some c"
| "Find_cmd (n # ns) c =
     (case find (\<lambda>d. cmd_Use d = n) (cmd_children c) of None \<Rightarrow> None | Some d \<Rightarrow> Find_cmd ns d)"

definition Execute_cmd :: "'w command \<Rightarrow> string list \<Rightarrow> arg_list \<Rightarrow> 'w command_run option" where
  "Execute_cmd root path args = Option.bind (Find_cmd path root) (\<lambda>c. Option.bind (cmd_RunE c) (\<lambda>run. run args))"

text \<open>
  \<open>main\<close> of \<open>clusterctl\<close>: the exit status, the line logged before exiting with 1, what was written
  to standard output, and the effect.
\<close>

definition exit_with :: "(gerror option \<times> bytes) \<times> 'w effect \<Rightarrow> int \<times> string \<times> bytes \<times> 'w effect" where
  "exit_with x = (case x of ((None, out), e) \<Rightarrow> (0, [], out, e) | ((Some err, out), e) \<Rightarrow> (1, err, out, e))"

definition clusterctl_main where
  "clusterctl_main pc path args w = map_option (\<lambda>run. exit_with (run w)) (Execute_cmd (newRoot pc) path args)"

text \<open>\<open>signalContext\<close>: the context ends when it is cancelled or the first of two signals arrives.\<close>

datatype os_signal = SIGINT | SIGTERM | SIGHUP | SIGUSR1

definition signal_ends :: "os_signal \<Rightarrow> bool" where
  "signal_ends s \<longleftrightarrow> s = SIGINT \<or> s = SIGTERM"

fun signalContext_done :: "bool \<Rightarrow> os_signal list \<Rightarrow> bool" where
  "signalContext_done cancelled [] = cancelled"
| "signalContext_done cancelled (s # ss) = (if signal_ends s then True else signalContext_done cancelled ss)"

definition accepted :: "'f flag list \<Rightarrow> arg_list \<Rightarrow> bool" where
  "accepted fs args \<longleftrightarrow> list_all (\<lambda>(n, v). \<exists>x\<in>set fs. fg_name x = n \<and> same_kind v (fg_default x)) args"

section \<open>Sets of flags\<close>

text \<open>
  What a command relies on of its flags: distinct names, each bound to a variable of its own, and
  no variable without a flag.
\<close>

locale flag_set =
  fixes fs :: "'f flag list"
  assumes names: "distinct (map fg_name fs)"
    and get_set: "x \<in> set fs \<Longrightarrow> same_kind v (fg_default x) \<Longrightarrow> fg_get x (fg_set x v f) = v"
    and get_other: "x \<in> set fs \<Longrightarrow> y \<in> set fs \<Longrightarrow> fg_name x \<noteq> fg_name y \<Longrightarrow> fg_get x (fg_set y v f) = fg_get x f"
    and every_variable: "list_all (\<lambda>x. fg_get x f = fg_get x g) fs \<Longrightarrow> f = g"
begin

lemma same_name: "x \<in> set fs \<Longrightarrow> y \<in> set fs \<Longrightarrow> fg_name x = fg_name y \<Longrightarrow> x = y"
  using names by (auto simp: distinct_map inj_on_def)

lemma bind_get:
  assumes "x \<in> set fs"
  shows "fg_get x (bind_flags fs z) = fg_default x"
proof -
  have "fg_get x (fold (\<lambda>y. fg_set y (fg_default y)) ys z) = (if x \<in> set ys then fg_default x else fg_get x z)"
    if "set ys \<subseteq> set fs" for ys
    using that
  proof (induction ys rule: rev_induct)
    case (snoc y ys)
    have k: "same_kind (fg_default y) (fg_default y)" by (cases "fg_default y") simp_all
    from snoc show ?case
      using assms get_set [of y "fg_default y"] k get_other [OF assms, of y] same_name [OF assms, of y]
      by (cases "fg_name x = fg_name y") auto
  qed simp
  then show ?thesis using assms by (simp add: bind_flags_def)
qed

text \<open>After parsing, a variable holds the last value given for its flag, or what it held before.\<close>

lemma parse_get:
  assumes "parse_args fs args f = Some f'" and "x \<in> set fs"
  shows "fg_get x f' = (case map_of (rev args) (fg_name x) of None \<Rightarrow> fg_get x f | Some v \<Rightarrow> v)"
  using assms(1)
proof (induction args arbitrary: f)
  case (Cons a args)
  obtain n v where a: "a = (n, v)" by (cases a)
  from Cons.prems obtain y where y: "find (\<lambda>x. fg_name x = n) fs = Some y" "same_kind v (fg_default y)"
    "parse_args fs args (fg_set y v f) = Some f'"
    by (auto simp: a split: option.splits if_splits)
  then have ym: "y \<in> set fs" "fg_name y = n" by (auto simp: find_Some_iff)
  have "fg_get x (fg_set y v f) = (if fg_name x = n then v else fg_get x f)"
    using get_set [OF ym(1) y(2)] get_other [OF assms(2) ym(1)] same_name [OF assms(2) ym(1)] ym(2) by auto
  then show ?case
    using Cons.IH [OF y(3)] by (auto simp: a map_add_def split: option.splits)
qed simp

lemma parse_bound:
  assumes "parse_args fs args (bind_flags fs z) = Some f" and "x \<in> set fs"
  shows "fg_get x f = (case map_of (rev args) (fg_name x) of None \<Rightarrow> fg_default x | Some v \<Rightarrow> v)"
  using parse_get [OF assms] bind_get [OF assms(2)] by (simp split: option.split)

lemma parse_all:
  assumes "parse_args fs args (bind_flags fs z) = Some f"
  shows "list_all (\<lambda>x. fg_get x f = (case map_of (rev args) (fg_name x) of None \<Rightarrow> fg_default x | Some v \<Rightarrow> v)) fs"
  using parse_bound [OF assms] by (simp add: list_all_iff)

text \<open>A command line is accepted when every argument names a flag and fits its kind.\<close>

lemma parse_accepted: "(\<exists>g. parse_args fs args f = Some g) \<longleftrightarrow> accepted fs args"
proof (induction args arbitrary: f)
  case (Cons a args)
  obtain n v where a: "a = (n, v)" by (cases a)
  show ?case
  proof (cases "find (\<lambda>x. fg_name x = n) fs")
    case None
    then have "\<not> (\<exists>x\<in>set fs. fg_name x = n)" by (auto simp: find_None_iff)
    with None show ?thesis by (auto simp: a accepted_def)
  next
    case (Some x)
    then have x: "x \<in> set fs" "fg_name x = n" by (auto simp: find_Some_iff)
    have "(\<exists>y\<in>set fs. fg_name y = n \<and> same_kind v (fg_default y)) \<longleftrightarrow> same_kind v (fg_default x)"
      using x same_name [OF x(1)] by metis
    then show ?thesis using Cons.IH by (auto simp: a Some accepted_def)
  qed
qed (simp add: accepted_def)

text \<open>The outcome does not depend on what the variables held before they were bound.\<close>

lemma bind_unique: "bind_flags fs z = bind_flags fs z'"
  by (rule every_variable) (simp add: bind_get list_all_iff)

end

lemmas flag_kinds = StringVar_def BoolVar_def IntVar_def DurationVar_def

lemma same_kind_iff [simp]:
  "same_kind v (FStr x) \<longleftrightarrow> (\<exists>y. v = FStr y)" "same_kind v (FBool b) \<longleftrightarrow> (\<exists>y. v = FBool y)"
  "same_kind v (FInt i) \<longleftrightarrow> (\<exists>y. v = FInt y)" "same_kind v (FDur d) \<longleftrightarrow> (\<exists>y. v = FDur y)"
  by (cases v; simp)+

interpretation status_set: flag_set status_cmd_flags
  by unfold_locales
    (auto simp: status_cmd_flags_def flag_kinds split: flag_value.split intro: status_flags.equality)

interpretation leave_set: flag_set leave_cmd_flags
  by unfold_locales
    (auto simp: leave_cmd_flags_def rpc_cmd_flags_def flag_kinds split: flag_value.split intro: rpc_flags.equality)

interpretation join_set: flag_set join_cmd_flags
  by unfold_locales
    (auto simp: join_cmd_flags_def rpc_cmd_flags_def flag_kinds split: flag_value.split intro: join_flags.equality)

interpretation run_set: flag_set run_cmd_flags
  by unfold_locales
    (auto simp: run_cmd_flags_def flag_kinds split: flag_value.split intro: run_flags.equality)

text \<open>Binding the flags gives the documented defaults.\<close>

lemma bound_defaults:
  "bind_flags run_cmd_flags z = run_defaults" "bind_flags leave_cmd_flags y = leave_defaults"
  "bind_flags join_cmd_flags x = join_defaults"
  by (simp_all add: bind_flags_def run_cmd_flags_def leave_cmd_flags_def join_cmd_flags_def rpc_cmd_flags_def flag_kinds
      run_defaults_def leave_defaults_def join_defaults_def rpc_flags.defs)

section \<open>The values of a command line\<close>

text \<open>The value given last for a flag on the command line, or its default.\<close>

definition arg_str :: "arg_list \<Rightarrow> string \<Rightarrow> string \<Rightarrow> string" where
  "arg_str args n d = (case map_of (rev args) n of Some (FStr x) \<Rightarrow> x | _ \<Rightarrow> d)"

definition arg_bool :: "arg_list \<Rightarrow> string \<Rightarrow> bool" where
  "arg_bool args n = (case map_of (rev args) n of Some (FBool x) \<Rightarrow> x | _ \<Rightarrow> False)"

definition arg_int :: "arg_list \<Rightarrow> string \<Rightarrow> int \<Rightarrow> int" where
  "arg_int args n d = (case map_of (rev args) n of Some (FInt x) \<Rightarrow> x | _ \<Rightarrow> d)"

definition arg_dur :: "arg_list \<Rightarrow> string \<Rightarrow> duration \<Rightarrow> duration" where
  "arg_dur args n d = (case map_of (rev args) n of Some (FDur x) \<Rightarrow> x | _ \<Rightarrow> d)"

definition run_args :: "arg_list \<Rightarrow> run_flags" where
  "run_args a =
     \<lparr>rf_id = arg_str a ''id'' [], rf_raftAddr = arg_str a ''raft-addr'' '':9520'', rf_memBind = arg_str a ''mem-bind'' '':7946'',
      rf_memAdv = arg_str a ''mem-adv'' [], rf_joinCSV = arg_str a ''join'' [], rf_mgmtAddr = arg_str a ''mgmt-addr'' '':17946'',
      rf_mgmtProto = arg_str a ''mgmt-proto'' ''http'', rf_discoveryKind = arg_str a ''discovery'' ''static'',
      rf_dnsNames = arg_str a ''dns-names'' [], rf_filePath = arg_str a ''file-path'' [], rf_fileEnv = arg_str a ''file-env'' [],
      rf_dnsPort = arg_int a ''dns-port'' 7946, rf_discRefresh = arg_dur a ''disc-refresh'' (5 * second),
      rf_tlsEnable = arg_bool a ''tls-enable'', rf_tlsSkip = arg_bool a ''tls-skip-verify'', rf_traceEnable = arg_bool a ''trace'',
      rf_doBootstrap = arg_bool a ''bootstrap'', rf_tlsCA = arg_str a ''tls-ca'' [], rf_tlsCert = arg_str a ''tls-cert'' [],
      rf_tlsKey = arg_str a ''tls-key'' [], rf_tlsServerName = arg_str a ''tls-server-name'' [], rf_dataDir = arg_str a ''data'' []\<rparr>"

definition status_args :: "arg_list \<Rightarrow> status_flags" where
  "status_args a = \<lparr>sf_addr = arg_str a ''addr'' ''127.0.0.1:17946'', sf_timeout = arg_dur a ''timeout'' (3 * second)\<rparr>"

definition leave_args :: "arg_list \<Rightarrow> rpc_flags" where
  "leave_args a =
     \<lparr>fl_id = arg_str a ''id'' [], fl_addr = arg_str a ''addr'' ''127.0.0.1:17946'', fl_mgmtProto = arg_str a ''mgmt-proto'' ''http'',
      fl_timeout = arg_dur a ''timeout'' (3 * second), fl_tlsEnable = arg_bool a ''tls-enable'', fl_tlsSkip = arg_bool a ''tls-skip-verify'',
      fl_tlsCA = arg_str a ''tls-ca'' [], fl_tlsCert = arg_str a ''tls-cert'' [], fl_tlsKey = arg_str a ''tls-key'' [],
      fl_tlsServerName = arg_str a ''tls-server-name'' []\<rparr>"

definition join_args :: "arg_list \<Rightarrow> join_flags" where
  "join_args a = rpc_flags.extend (leave_args a) \<lparr>fl_raftAddr = arg_str a ''raft-addr'' []\<rparr>"

lemma arg_values:
  "FStr x = (case map_of (rev a) n of None \<Rightarrow> FStr s | Some v \<Rightarrow> v) \<Longrightarrow> x = arg_str a n s"
  "FBool b = (case map_of (rev a) n of None \<Rightarrow> FBool False | Some v \<Rightarrow> v) \<Longrightarrow> b = arg_bool a n"
  "FInt i = (case map_of (rev a) n of None \<Rightarrow> FInt j | Some v \<Rightarrow> v) \<Longrightarrow> i = arg_int a n j"
  "FDur t = (case map_of (rev a) n of None \<Rightarrow> FDur d | Some v \<Rightarrow> v) \<Longrightarrow> t = arg_dur a n d"
  by (auto simp: arg_str_def arg_bool_def arg_int_def arg_dur_def split: option.splits flag_value.splits)

lemma run_parsed:
  assumes "parse_args run_cmd_flags args (bind_flags run_cmd_flags z) = Some fl"
  shows "fl = run_args args"
  using run_set.parse_all [OF assms, unfolded run_cmd_flags_def flag_kinds list.pred_inject append.simps flag.simps]
  by (elim conjE, intro run_flags.equality) (simp_all (no_asm) only: run_args_def run_flags.simps, (erule arg_values | rule unit_eq)+)

lemma status_parsed:
  assumes "parse_args status_cmd_flags args (bind_flags status_cmd_flags z) = Some fl"
  shows "fl = status_args args"
  using status_set.parse_all [OF assms, unfolded status_cmd_flags_def flag_kinds list.pred_inject append.simps flag.simps]
  by (elim conjE, intro status_flags.equality) (simp_all (no_asm) only: status_args_def status_flags.simps, (erule arg_values | rule unit_eq)+)

lemma leave_parsed:
  assumes "parse_args leave_cmd_flags args (bind_flags leave_cmd_flags z) = Some fl"
  shows "fl = leave_args args"
  using leave_set.parse_all [OF assms, unfolded leave_cmd_flags_def rpc_cmd_flags_def flag_kinds list.pred_inject append.simps flag.simps]
  by (elim conjE, intro rpc_flags.equality) (simp_all (no_asm) only: leave_args_def rpc_flags.simps, (erule arg_values | rule unit_eq)+)

lemma join_parsed:
  assumes "parse_args join_cmd_flags args (bind_flags join_cmd_flags z) = Some fl"
  shows "fl = join_args args"
  using join_set.parse_all [OF assms, unfolded join_cmd_flags_def rpc_cmd_flags_def flag_kinds list.pred_inject append.simps flag.simps]
  by (elim conjE, intro join_flags.equality) (simp_all (no_asm) only: join_args_def leave_args_def rpc_flags.defs join_flags.simps rpc_flags.simps, (erule arg_values | rule unit_eq)+)

lemma with_flags_accepted:
  assumes "\<And>g. parse_args fs args (bind_flags fs z) = Some g \<Longrightarrow> g = vals args"
    and "(\<exists>g. parse_args fs args (bind_flags fs z) = Some g) \<longleftrightarrow> accepted fs args"
  shows "with_flags fs z k args = (if accepted fs args then Some (k (vals args)) else None)"
  using assms by (cases "parse_args fs args (bind_flags fs z)") (auto simp: with_flags_def)

lemmas command_values = with_flags_accepted [OF run_parsed run_set.parse_accepted]
  with_flags_accepted [OF status_parsed status_set.parse_accepted]
  with_flags_accepted [OF join_parsed join_set.parse_accepted]
  with_flags_accepted [OF leave_parsed leave_set.parse_accepted]

lemma AddAll_children [simp]:
  "cmd_children (AddAll pc c) = cmd_children c @ [NewRunCmd pc, NewStatusCmd pc, NewJoinCmd pc, NewLeaveCmd pc]"
  "cmd_children (NewClusterCommand pc) = [NewRunCmd pc, NewStatusCmd pc, NewJoinCmd pc, NewLeaveCmd pc]"
  by (cases c; simp add: AddAll_def NewClusterCommand_def)+

lemma cmd_names [simp]:
  "cmd_Use (NewRunCmd pc) = ''run''" "cmd_Use (NewStatusCmd pc) = ''status''" "cmd_Use (NewJoinCmd pc) = ''join''"
  "cmd_Use (NewLeaveCmd pc) = ''leave''" "cmd_Use (NewClusterCommand pc) = ''cluster''"
  by (simp_all add: NewRunCmd_def NewStatusCmd_def NewJoinCmd_def NewLeaveCmd_def NewClusterCommand_def Let_def)

section \<open>Properties\<close>


text \<open>
  The context of \<open>run\<close> ends at the first interrupt or termination signal and not before, unless it
  is cancelled.
\<close>

lemma signalContext_spec: "signalContext_done cancelled ss \<longleftrightarrow> cancelled \<or> SIGINT \<in> set ss \<or> SIGTERM \<in> set ss"
  by (induction ss) (auto simp: signal_ends_def)

end
