(* ===== verification/Programs.thy ===== *)
theory Programs
  imports Commands
begin

text \<open>
  The programs beside \<open>clusterctl\<close>: \<open>cmd/memdemo\<close>, which shows the membership layer alone, and
  \<open>examples/library\<close>, a service that embeds a node. Both are built from the components as modelled
  in the other theories; \<open>memdemo\<close>, which has three goroutines over one membership instance, is
  given as a step relation.
\<close>

section \<open>memdemo\<close>

record demo_flags =
  df_id :: string
  df_bind :: string
  df_advertise :: string
  df_joinCSV :: string

definition memdemo_flags :: "demo_flags flag list" where
  "memdemo_flags =
     [StringVar df_id (\<lambda>x. df_id_update (\<lambda>_. x)) ''id'' ''node-1'',
      StringVar df_bind (\<lambda>x. df_bind_update (\<lambda>_. x)) ''bind'' '':7946'',
      StringVar df_advertise (\<lambda>x. df_advertise_update (\<lambda>_. x)) ''advertise'' [],
      StringVar df_joinCSV (\<lambda>x. df_joinCSV_update (\<lambda>_. x)) ''join'' []]"

definition splitCSV :: "string \<Rightarrow> string list" where
  "splitCSV s =
     (if s = [] then []
      else fold (\<lambda>p out. let p = TrimSpace p in if p \<noteq> [] then out @ [p] else out) (Split s (CHR '','')) [])"

text \<open>
  Up to the line printed: the instance that runs, the lines logged, or the error the program dies
  with.
\<close>

definition memdemo_start ::
  "(string \<Rightarrow> string) \<Rightarrow> 'm ml_lib \<Rightarrow> demo_flags \<Rightarrow> gerror + ('m ml_impl \<times> string list)" where
  "memdemo_start q lib fl =
     (case ml_New \<lparr>lo_NodeID = df_id fl, lo_Bind = df_bind fl, lo_Advertise = df_advertise fl, lo_Meta = None,
             lo_Logger = True, lo_ProbeInterval = 0, lo_ProbeTimeout = 0, lo_SuspicionMult = 0\<rparr> of
        Inl err \<Rightarrow> Inl err
      | Inr m \<Rightarrow>
          (case ml_Start q lib m of
             (Some err, m1) \<Rightarrow> Inl err
           | (None, m1) \<Rightarrow>
               if df_joinCSV fl \<noteq> [] then
                 (case ml_Join lib (splitCSV (df_joinCSV fl)) m1 of
                    (Some err, m2) \<Rightarrow> Inr (m2, [''join error: '' @ err])
                  | (None, m2) \<Rightarrow> Inr (m2, []))
               else Inr (m1, [])))"

text \<open>One line per event; \<open>rfc\<close> is the format \<open>time.RFC3339\<close>, which depends on the time zone.\<close>

fun event_name :: "EventType \<Rightarrow> string" where
  "event_name EventJoin = ''join''"
| "event_name EventLeave = ''leave''"
| "event_name EventFailed = ''failed''"

definition pad_right :: "nat \<Rightarrow> string \<Rightarrow> string" where
  "pad_right k s = s @ replicate (k - length s) (CHR '' '')"

definition event_line :: "(time \<Rightarrow> string) \<Rightarrow> Event \<Rightarrow> string" where
  "event_line rfc e =
     ''event: '' @ pad_right 6 (event_name (Type e)) @ '' id='' @ ID (Member e) @ '' addr='' @ Addr (Member e)
       @ '' at='' @ rfc (At e) @ [CHR 0x0A]"

text \<open>
  The running program: the instance, the lines printed, whether a signal came, how far \<open>main\<close> is, and
  whether the goroutine that \<open>Start\<close> left behind has stopped the instance. Two fields are for
  reasoning only: the events the channel accepted, and whether the library was asked to leave.
\<close>

datatype main_pc = MWait | MLeft | MExit

record 'm memdemo =
  md_m :: "'m ml_impl"
  md_out :: "string list"
  md_done :: bool
  md_pc :: main_pc
  md_watched :: bool
  md_sent :: "Event list"
  md_left :: bool

inductive md_step :: "(time \<Rightarrow> string) \<Rightarrow> 'm ml_lib \<Rightarrow> 'm memdemo \<Rightarrow> 'm memdemo \<Rightarrow> bool"
  for rfc :: "time \<Rightarrow> string" and lib :: "'m ml_lib" where
  md_gossip: "md_pc s \<noteq> MExit \<Longrightarrow> i_ml (md_m s) = Some x \<Longrightarrow> md_step rfc lib s (s\<lparr>md_m := (md_m s)\<lparr>i_ml := Some x'\<rparr>\<rparr>)"
| md_notify: "md_pc s \<noteq> MExit \<Longrightarrow> m' = ml_notify x (md_m s) \<Longrightarrow>
    md_step rfc lib s (s\<lparr>md_m := m', md_sent := md_sent s @ (if i_evts m' = i_evts (md_m s) then [] else [note_event x])\<rparr>)"
| md_print: "md_pc s \<noteq> MExit \<Longrightarrow> i_evts (md_m s) = e # es \<Longrightarrow>
    md_step rfc lib s (s\<lparr>md_m := (md_m s)\<lparr>i_evts := es\<rparr>, md_out := md_out s @ [event_line rfc e]\<rparr>)"
| md_signal: "md_pc s \<noteq> MExit \<Longrightarrow> signal_ends sig \<Longrightarrow> md_step rfc lib s (s\<lparr>md_done := True\<rparr>)"
| md_watch: "md_pc s \<noteq> MExit \<Longrightarrow> md_done s \<Longrightarrow> \<not> md_watched s \<Longrightarrow> ml_Stop (md_m s) = Some m' \<Longrightarrow>
    md_step rfc lib s (s\<lparr>md_m := m', md_watched := True\<rparr>)"
| md_leave: "md_pc s = MWait \<Longrightarrow> md_done s \<Longrightarrow>
    md_step rfc lib s (s\<lparr>md_m := ml_Leave lib (md_m s), md_pc := MLeft, md_left := (i_ml (md_m s) \<noteq> None)\<rparr>)"
| md_exit: "md_pc s = MLeft \<Longrightarrow> ml_Stop (md_m s) = Some m' \<Longrightarrow> md_step rfc lib s (s\<lparr>md_m := m', md_pc := MExit\<rparr>)"

inductive_cases md_stepE: "md_step rfc lib s t"

definition memdemo_init :: "'m ml_impl \<Rightarrow> 'm memdemo" where
  "memdemo_init m =
     \<lparr>md_m = m, md_out = [], md_done = False, md_pc = MWait, md_watched = False, md_sent = [], md_left = False\<rparr>"

section \<open>The embedding service\<close>

definition demo_HandleWrite :: "time \<Rightarrow> string \<Rightarrow> bytes \<Rightarrow> gerror + bytes" where
  "demo_HandleWrite now op req = Inr (''op='' @ op @ '' t='' @ Itoa (now div second) @ '' payload='' @ req)"

definition demo_HandleRead :: "string \<Rightarrow> bytes \<Rightarrow> gerror + bytes" where
  "demo_HandleRead op req = Inr ''read-not-impl''"

definition demo_HandleSync :: "string \<Rightarrow> bytes \<Rightarrow> gerror option \<times> string" where
  "demo_HandleSync topic data = (None, ''SYNC topic='' @ topic @ '' data='' @ data @ [CHR 0x0A])"

text \<open>The handlers as the cluster sees them: their answers to the call that ends a history.\<close>

definition demoHandlers :: "(trace \<Rightarrow> time) \<Rightarrow> app_handlers" where
  "demoHandlers clock =
     \<lparr>a_HandleWrite = (\<lambda>h. case last h of AppHandleWrite op req \<Rightarrow> demo_HandleWrite (clock h) op req | _ \<Rightarrow> Inr []),
      a_HandleSync = (\<lambda>h. case last h of AppHandleSync topic data \<Rightarrow> fst (demo_HandleSync topic data) | _ \<Rightarrow> None)\<rparr>"

definition library_config :: "(trace \<Rightarrow> time) \<Rightarrow> Config" where
  "library_config clock =
     \<lparr>cf_NodeID = ''svc-1'', cf_RaftAddr = '':9521'', cf_MemBind = '':7946'', cf_MemAdv = [], cf_MgmtAddr = '':17946'',
      cf_MgmtProto = [], cf_DiscoveryKind = ''static'', cf_SeedsCSV = ''127.0.0.1:7946'', cf_DNSNamesCSV = [],
      cf_DNSPort = 0, cf_DiscRefresh = 0, cf_FilePath = [], cf_FileEnv = [], cf_DataDir = [], cf_Bootstrap = True,
      cf_TLSEnable = False, cf_TLSCA = [], cf_TLSCert = [], cf_TLSKey = [], cf_TLSServerName = [],
      cf_TLSSkipVerify = False, cf_Logger = False, cf_AppHandlers = Some (demoHandlers clock), cf_ReplWindow = 0,
      cf_ReplRetry = 0, cf_ReplBufferDir = [], cf_OnLeaderChange = False, cf_OnElectionStart = False,
      cf_OnElectionEnd = False\<rparr>"

definition library_start ::
  "('r, 'm) wire \<Rightarrow> ('c, 'p) tls_env \<Rightarrow> fs \<Rightarrow> (trace \<Rightarrow> time) \<Rightarrow> gerror + (Options \<times> Cluster) option" where
  "library_start wr env f clock =
     (case Run wr env f (library_config clock) of
        (Some err, _) \<Rightarrow> Inl (''cluster bootstrap: '' @ err)
      | (None, cl) \<Rightarrow> Inr cl)"

text \<open>The endpoints. The outer \<open>None\<close> of a write is a panic in the cluster.\<close>

definition service_write :: "Options \<Rightarrow> http_resp option prog" where
  "service_write o1 = do {
     r \<leftarrow> AppWrite o1 ''demo'' ''hello'';
     ret (map_option (\<lambda>x. case x of Inl err \<Rightarrow> http_reply 500 err | Inr out \<Rightarrow> http_reply 200 out) r)
   }"

definition service_publish where
  "service_publish ops c cancel env n =
     map_option (\<lambda>(err, effs, n'). (case err of Some e \<Rightarrow> http_reply 500 e | None \<Rightarrow> http_reply 200 ''ok'', effs, n'))
       (Publish ops c cancel env ''demo.topic'' ''sync-data'' n)"

definition service_status :: "Options \<Rightarrow> http_resp prog" where
  "service_status o1 = do {
     s \<leftarrow> Status o1;
     ret (http_reply 200 (''leader='' @ LeaderID s @ '' term='' @ FormatUint (Term s) @ '' members=''
       @ Itoa (int (length (case SMembers s of None \<Rightarrow> [] | Some ms \<Rightarrow> ms))) @ [CHR 0x0A]))
   }"

definition service_healthz :: http_resp where
  "service_healthz = http_reply 200 ''ok''"

text \<open>\<open>examples/hello\<close>: the program divides by each loop index, none of which is zero.\<close>

definition hello_main :: "string list" where
  "hello_main =
     (''Hello and welcome, '' @ ''gopher'' @ ''!'') # map (\<lambda>i. ''i = '' @ Itoa (100 div int i)) [1..<6]"

section \<open>Lemmas\<close>

interpretation memdemo_set: flag_set memdemo_flags
  by unfold_locales
    (auto simp: memdemo_flags_def flag_kinds split: flag_value.split intro: demo_flags.equality)

text \<open>The copy of the function in \<open>memdemo\<close> does what discovery does.\<close>

lemma splitCSV_eq: "splitCSV s = static_Parse s"
proof -
  have "fold (\<lambda>p out. let p = TrimSpace p in if p \<noteq> [] then out @ [p] else out) ps out =
      out @ filter (\<lambda>p. p \<noteq> []) (map TrimSpace ps)" for ps out
    by (induction ps arbitrary: out) (simp_all add: Let_def)
  then show ?thesis by (simp add: splitCSV_def static_Parse_def)
qed

definition md_inv :: "(time \<Rightarrow> string) \<Rightarrow> 'm memdemo \<Rightarrow> bool" where
  "md_inv rfc s \<longleftrightarrow> ml_inv (md_m s) \<and> md_out s @ map (event_line rfc) (i_evts (md_m s)) = map (event_line rfc) (md_sent s)
     \<and> (md_watched s \<or> md_pc s = MExit \<longrightarrow> i_closed (md_m s)) \<and> (i_closed (md_m s) \<longrightarrow> i_ml (md_m s) = None)"

lemma ml_notify_evts:
  assumes "m' = ml_notify x m"
  shows "i_evts m' = i_evts m @ (if i_evts m' = i_evts m then [] else [note_event x])"
    and "i_ml m' = i_ml m" and "i_closed m' = i_closed m" and "ml_inv m \<Longrightarrow> ml_inv m'"
  using assms by (auto simp: ml_notify_emit ml_emit_def try_send_def ml_inv_def)

lemma ml_Stop_inv:
  assumes "ml_inv m"
  shows "ml_Stop m = Some m' \<Longrightarrow> ml_inv m' \<and> i_evts m' = i_evts m \<and> i_closed m' \<and> (i_closed m \<longrightarrow> m' = m) \<and> (\<not> i_closed m \<longrightarrow> i_ml m' = None)"
    and "ml_Stop m \<noteq> None"
  using assms by (auto simp: ml_Stop_def ml_inv_def)

lemma md_step_inv:
  assumes "md_step rfc lib s t" and "md_inv rfc s"
  shows "md_inv rfc t"
  using assms
proof (induction rule: md_step.induct)
  case (md_notify s m' x)
  note n = ml_notify_evts [OF md_notify(2)]
  have "map (event_line rfc) (i_evts m') = map (event_line rfc) (i_evts (md_m s))
      @ map (event_line rfc) (if i_evts m' = i_evts (md_m s) then [] else [note_event x])"
    by (subst n(1)) simp
  then show ?case using md_notify n by (simp add: md_inv_def)
next
  case (md_watch s m')
  then show ?case using ml_Stop_inv(1) [of "md_m s" m'] by (auto simp: md_inv_def)
next
  case (md_exit s m')
  then show ?case using ml_Stop_inv(1) [of "md_m s" m'] by (auto simp: md_inv_def)
qed (auto simp: md_inv_def ml_inv_def ml_Leave_def split: option.splits)

lemma memdemo_start_inv:
  assumes "memdemo_start q lib fl = Inr (m, logs)"
  shows "md_inv rfc (memdemo_init m)" and "i_ml m \<noteq> None" and "\<not> i_closed m"
  using assms
  by (auto simp: memdemo_start_def memdemo_init_def md_inv_def ml_inv_def ml_New_def ml_Start_def ml_Join_def
      split: sum.splits prod.splits option.splits if_splits)

lemma md_run_inv: "(md_step rfc lib)\<^sup>*\<^sup>* s t \<Longrightarrow> md_inv rfc s \<Longrightarrow> md_inv rfc t"
  by (induction rule: rtranclp_induct) (auto intro: md_step_inv)

lemma md_can_exit:
  assumes "md_inv rfc s" and "md_done s" and "md_pc s = MWait"
  shows "\<exists>t. (md_step rfc lib)\<^sup>*\<^sup>* s t \<and> md_pc t = MExit \<and> md_left t = (i_ml (md_m s) \<noteq> None)"
proof -
  let ?s1 = "s\<lparr>md_m := ml_Leave lib (md_m s), md_pc := MLeft, md_left := (i_ml (md_m s) \<noteq> None)\<rparr>"
  have 1: "md_step rfc lib s ?s1" using assms by (intro md_leave)
  have "ml_inv (md_m ?s1)" using md_step_inv [OF 1 assms(1)] by (simp add: md_inv_def)
  then obtain m' where m': "ml_Stop (md_m ?s1) = Some m'" using ml_Stop_inv(2) by blast
  then have "md_step rfc lib ?s1 (?s1\<lparr>md_m := m', md_pc := MExit\<rparr>)" by (intro md_exit) simp_all
  with 1 have "(md_step rfc lib)\<^sup>*\<^sup>* s (?s1\<lparr>md_m := m', md_pc := MExit\<rparr>)" by simp
  then show ?thesis by (intro exI conjI) (assumption, simp_all)
qed

text \<open>From every state the program can still end, once a signal comes.\<close>

lemma md_progress:
  assumes "md_inv rfc s"
  shows "\<exists>t. (md_step rfc lib)\<^sup>*\<^sup>* s t \<and> md_pc t = MExit"
proof (cases "md_pc s")
  case MWait
  have "md_step rfc lib s (s\<lparr>md_done := True\<rparr>)" using MWait by (intro md_signal [of _ SIGINT]) (simp_all add: signal_ends_def)
  moreover from this obtain t where "(md_step rfc lib)\<^sup>*\<^sup>* (s\<lparr>md_done := True\<rparr>) t" "md_pc t = MExit"
    using md_can_exit [OF md_step_inv [OF _ assms], of lib "s\<lparr>md_done := True\<rparr>" lib] MWait by auto
  ultimately show ?thesis by (blast intro: converse_rtranclp_into_rtranclp)
next
  case MLeft
  obtain m' where "ml_Stop (md_m s) = Some m'" using assms ml_Stop_inv(2) by (auto simp: md_inv_def)
  then have "md_step rfc lib s (s\<lparr>md_m := m', md_pc := MExit\<rparr>)" by (intro md_exit MLeft)
  then show ?thesis by (intro exI conjI) (rule r_into_rtranclp, assumption, simp)
qed blast

section \<open>Properties\<close>


definition demo1 :: demo_flags where
  "demo1 = \<lparr>df_id = ''n1'', df_bind = '':7946'', df_advertise = [], df_joinCSV = ''10.0.0.2:7946, ''\<rparr>"

definition demo_impl :: "unit ml_impl" where
  "demo_impl = impl1\<lparr>i_opts := lo1\<lparr>lo_Bind := '':7946'', lo_Meta := None\<rparr>, i_ml := Some ()\<rparr>"

lemma demo1_start: "memdemo_start (\<lambda>s. s) lib1 demo1 = Inr (demo_impl, [])"
proof -
  have "ml_address q what (JoinHostPort [] (show_nat 7946)) = Inr ([], 7946)" for q what
    using ml_address_ok [of "[]" 7946] by simp
  moreover have "JoinHostPort [] (show_nat 7946) = '':7946''" by (simp add: JoinHostPort_def show_nat.simps digits)
  ultimately have "ml_address q what '':7946'' = Inr ([], 7946)" for q what by simp
  then show ?thesis
    by (simp add: memdemo_start_def demo1_def ml_New_def ml_Start_def ml_config_def lib1_def ml_Join_def demo_impl_def
        impl1_def lo1_def Let_def)
qed


text \<open>
  The end of the context starts a race. When \<open>main\<close> is first, the library announces that the node
  leaves; when the goroutine of \<open>Start\<close> is first, it has shut the library down, \<open>Leave\<close> does nothing
  and returns no error, and the peers see a failed node instead.
\<close>

lemma memdemo_leave_race:
  assumes "memdemo_start q lib fl = Inr (m, logs)"
  shows "\<exists>s. (md_step rfc lib)\<^sup>*\<^sup>* (memdemo_init m) s \<and> md_pc s = MExit \<and> md_left s"
    and "\<exists>s. (md_step rfc lib)\<^sup>*\<^sup>* (memdemo_init m) s \<and> md_pc s = MExit \<and> \<not> md_left s"
proof -
  let ?s1 = "(memdemo_init m)\<lparr>md_done := True\<rparr>"
  note st = memdemo_start_inv [OF assms]
  have 1: "md_step rfc lib (memdemo_init m) ?s1"
    by (intro md_signal [of _ SIGTERM]) (simp_all add: signal_ends_def memdemo_init_def)
  have i1: "md_inv rfc ?s1" using md_step_inv [OF 1 st(1)] .
  from md_can_exit [OF i1, of lib] obtain t where "(md_step rfc lib)\<^sup>*\<^sup>* ?s1 t" "md_pc t = MExit" "md_left t"
    using st(2) by (auto simp: memdemo_init_def)
  with 1 show "\<exists>s. (md_step rfc lib)\<^sup>*\<^sup>* (memdemo_init m) s \<and> md_pc s = MExit \<and> md_left s"
    by (blast intro: converse_rtranclp_into_rtranclp)
  obtain m' where m': "ml_Stop m = Some m'" using ml_Stop_inv(2) [of m] st(1) by (auto simp: md_inv_def memdemo_init_def)
  let ?s2 = "?s1\<lparr>md_m := m', md_watched := True\<rparr>"
  have 2: "md_step rfc lib ?s1 ?s2" using m' by (intro md_watch) (simp_all add: memdemo_init_def)
  have i2: "md_inv rfc ?s2" using md_step_inv [OF 2 i1] .
  then have "i_ml (md_m ?s2) = None" by (simp add: md_inv_def)
  with md_can_exit [OF i2, of lib] obtain t where "(md_step rfc lib)\<^sup>*\<^sup>* ?s2 t" "md_pc t = MExit" "\<not> md_left t"
    by (auto simp: memdemo_init_def)
  with 1 2 show "\<exists>s. (md_step rfc lib)\<^sup>*\<^sup>* (memdemo_init m) s \<and> md_pc s = MExit \<and> \<not> md_left s"
    by (blast intro: converse_rtranclp_into_rtranclp)
qed

text \<open>
  The embedding service. Its configuration is always accepted, with the demo handlers; on the
  leader a write echoes the operation and the payload, elsewhere it forwards or answers 500.
\<close>

lemma service_builds:
  "\<exists>o1 cl. Build wr env f (library_config clock) = Inr (o1, cl) \<and> \<not> started cl
     \<and> o_AppHandlers o1 = Some (demoHandlers clock) \<and> o_NodeID o1 = ''svc-1''"
  by (simp add: Build_def build_defs build_tls_def library_config_def build_options_def cluster_New_def Validate_def)

lemma service_starts:
  "case library_start wr env f clock of
     Inl err \<Rightarrow> \<exists>o1 cl e. Build wr env f (library_config clock) = Inr (o1, cl) \<and> fst (run_state (Start o1) cl) = Some e
       \<and> err = ''cluster bootstrap: '' @ e
   | Inr cl \<Rightarrow> \<exists>o1 s. cl = Some (o1, s) \<and> o_AppHandlers o1 = Some (demoHandlers clock)
       \<and> cluster_LeaderCh o1 ch = Some ch"
proof -
  obtain o1 cl where b: "Build wr env f (library_config clock) = Inr (o1, cl)" "o_AppHandlers o1 = Some (demoHandlers clock)"
    using service_builds by blast
  then have "cluster_LeaderCh o1 ch = Some ch"
    by (auto simp: Build_def build_options_def cluster_LeaderCh_def Let_def split: sum.splits)
  then show ?thesis
    using b by (auto simp: library_start_def Run_def split: prod.splits option.splits)
qed

lemma service_write_leader:
  assumes "o_AppHandlers o1 = Some (demoHandlers clock)" and "fst (run_state (leading o1) s)"
  shows "\<exists>t. fst (run_state (service_write o1) s) = Some (http_reply 200 (''op=demo t='' @ Itoa (t div second) @ '' payload=hello''))"
  using assms
  by (auto simp: service_write_def AppWrite_def demoHandlers_def demo_HandleWrite_def run_state_bind
      split: prod.splits)

lemma hello_output: "hello_main = [''Hello and welcome, gopher!'', ''i = 100'', ''i = 50'', ''i = 33'', ''i = 25'', ''i = 20'']"
  by (simp add: hello_main_def upt_rec Itoa_def show_nat.simps digits One_nat_def [symmetric] del: One_nat_def)

end
