(* ===== verification/Logutil.thy ===== *)
theory Logutil
  imports GoJson
begin

text \<open>
  \<open>internal/logutil/logutil.go\<close>: log lines with a level, plain or as JSON. A logger of the standard
  library is its prefix and its flags, the text of which (time, file) is a parameter \<open>head\<close>; a
  call gives the line that is written. \<open>text\<close> is what \<open>fmt.Sprintf\<close> makes of format and arguments.
\<close>

section \<open>Loggers of the standard library\<close>

record Logger =
  lg_prefix :: string
  lg_flags :: int

text \<open>\<open>log.Logger\<close> writes prefix, header and message, and ends the line if the message does not.\<close>

definition Printf :: "(int \<Rightarrow> string) \<Rightarrow> Logger \<Rightarrow> string \<Rightarrow> bytes" where
  "Printf head l text =
     lg_prefix l @ head (lg_flags l) @ text @ (if text = [] \<or> last text \<noteq> CHR 0x0A then [CHR 0x0A] else [])"

section \<open>The package\<close>

definition log_init :: "(string \<Rightarrow> string) \<Rightarrow> bool" where
  "log_init getenv \<longleftrightarrow> getenv ''CLUSTER_LOG_JSON'' = ''1'' \<or> getenv ''CLUSTER_LOG_FORMAT'' = ''json''"

definition log_prefix :: "Logger \<Rightarrow> Logger option \<Rightarrow> string \<Rightarrow> Logger" where
  "log_prefix dfl l p = (let l' = (case l of None \<Rightarrow> dfl | Some x \<Rightarrow> x) in \<lparr>lg_prefix = p, lg_flags = lg_flags l'\<rparr>)"

definition SetJSON :: "bool \<Rightarrow> bool \<Rightarrow> bool" where
  "SetJSON enabled jsonMode = enabled"

text \<open>A map is encoded with its keys in order.\<close>

definition log_event :: "string \<Rightarrow> string \<Rightarrow> string \<Rightarrow> json" where
  "log_event ts level msg = JObj [(''level'', JStr level), (''msg'', JStr msg), (''ts'', JStr ts)]"

definition logf ::
  "(int \<Rightarrow> string) \<Rightarrow> Logger \<Rightarrow> bool \<Rightarrow> string \<Rightarrow> Logger option \<Rightarrow> string \<Rightarrow> string \<Rightarrow> bytes" where
  "logf head dfl jsonMode ts l level text =
     (if jsonMode
      then Printf head (case l of None \<Rightarrow> dfl | Some x \<Rightarrow> x) (Marshal (log_event ts level text) @ [CHR 0x0A])
      else if level = ''info'' then Printf head (log_prefix dfl l ''INFO '') text
      else if level = ''warn'' then Printf head (log_prefix dfl l ''WARN '') text
      else Printf head (log_prefix dfl l ''ERROR '') text)"

definition Infof where "Infof head dfl jsonMode ts l text = logf head dfl jsonMode ts l ''info'' text"
definition Warnf where "Warnf head dfl jsonMode ts l text = logf head dfl jsonMode ts l ''warn'' text"
definition Errorf where "Errorf head dfl jsonMode ts l text = logf head dfl jsonMode ts l ''error'' text"

section \<open>Properties\<close>

lemma log_event_ok: "list_all valid_utf8 [ts, level, msg] \<Longrightarrow> json_ok (log_event ts level msg)"
  by (simp add: log_event_def valid_utf8_all_ascii)

text \<open>
  Structured lines can be read back: in JSON mode, after the logger's own prefix and header comes
  one JSON object with exactly the level, the message and the time, whatever characters the
  message has, as long as it is valid UTF-8.
\<close>

theorem structured_log_round_trip:
  assumes "list_all valid_utf8 [ts, text]"
  shows "\<exists>body. Infof head dfl True ts l text =
      lg_prefix (case l of None \<Rightarrow> dfl | Some x \<Rightarrow> x) @ head (lg_flags (case l of None \<Rightarrow> dfl | Some x \<Rightarrow> x)) @ body
    \<and> json_parse body = Some (log_event ts ''info'' text)"
proof -
  have "json_ok (log_event ts ''info'' text)" using assms by (intro log_event_ok) (simp add: valid_utf8_all_ascii)
  then have "json_parse (Marshal (log_event ts ''info'' text) @ [CHR 0x0A]) = Some (log_event ts ''info'' text)"
    using parse_value_show [of "log_event ts ''info'' text" "[CHR 0x0A]"]
    by (simp add: json_parse_def num_end_def is_digit_def is_ws_def)
  then show ?thesis by (auto simp: Infof_def logf_def Printf_def)
qed

theorem structured_log_round_trip_witness:
  "\<exists>body. Infof (\<lambda>_. ''09:00 '') \<lparr>lg_prefix = [], lg_flags = 3\<rparr> True ''t'' None ''a\"b'' = ''09:00 '' @ body
    \<and> json_parse body = Some (log_event ''t'' ''info'' ''a\"b'')"
  using structured_log_round_trip [of "''t''" "''a\"b''" "\<lambda>_. ''09:00 ''" "\<lparr>lg_prefix = [], lg_flags = 3\<rparr>" None]
  by (simp add: valid_utf8_all_ascii)

text \<open>Plain lines: the logger's own prefix is replaced by the level.\<close>

lemma plain_log_drops_prefix:
  "Errorf head dfl False ts (Some l) text = Errorf head dfl False ts (Some (l\<lparr>lg_prefix := p\<rparr>)) text"
  by (simp add: Errorf_def logf_def log_prefix_def)

end
