(* ===== verification/Spec2Isabelle.thy ===== *)
theory Spec2Isabelle
  imports Delivery Peers GrpcDial Programs Logutil
begin

text \<open>
  A verification library for \<^bold>\<open>go-cluster\<close>, a Go library for clusters of nodes with a gossip
  membership layer, Raft consensus, a management API and leader-driven replication of application
  messages. Paths are below \<open>src/pkg\<close>, unless they start with \<open>cmd\<close> or \<open>examples\<close>.

  \<^bold>\<open>The program.\<close> A node is assembled by \<open>bootstrap.Build\<close> from one configuration: a discovery
  backend gives seed addresses; the membership layer (hashicorp/memberlist) gossips who is there,
  with each node's management address as metadata; the consensus node (hashicorp/raft) elects a
  leader and replicates a log whose entries a state machine applies to the membership state; a
  management server and client speak gRPC or HTTP. The facade \<open>cluster.Cluster\<close> drives them: it
  starts and stops them, turns gossip events into log entries while it leads, answers join, leave,
  status and application requests, publishes messages to subscribers with acknowledgements, resends
  what is not acknowledged, and reports elections and member changes on an event bus. The command
  line starts a node or talks to one.

  \<^bold>\<open>The Go language and its library.\<close>
  \<^item> \<open>Prelude\<close>: Go strings and byte slices are byte lists; a Go map is an association list sorted by
    key (locale \<open>go_map\<close>), and an iteration order is an explicit permutation; errors are their
    messages; times are integers in nanoseconds; a panic is \<open>None\<close>; a send that may drop is
    \<open>try_send\<close>.
  \<^item> \<open>GoStrings\<close>, \<open>GoPath\<close>, \<open>GoBase64\<close>, \<open>GoJson\<close>: the functions of \<open>strings\<close>, \<open>strconv\<close>, \<open>net\<close>, \<open>filepath\<close>,
    \<open>os\<close> and \<open>encoding/json\<close> that the program calls, with the JSON text parser and printer and the
    round trip between them.

  \<^bold>\<open>Components\<close>, each with its state as a record, one definition per operation, and its lemmas:
  \<^item> \<open>Membership\<close> (\<open>membership/membership.go\<close>), \<open>MemberState\<close> (\<open>state\<close>; interface as locale
    \<open>membership_state\<close>), \<open>Fsm\<close> (\<open>consensus/raft/fsm.go\<close>): members, the replicated membership and its
    state machine. Snapshots round trip, replay refines the abstract commands, a snapshot and the
    rest of the log equal the whole log, and the state keeps its invariant whatever is committed.
  \<^item> \<open>RaftNode\<close> (\<open>consensus/raft/raft.go\<close>, \<open>options.go\<close>): the consensus node over the Raft library.
  \<^item> \<open>Memberlist\<close> (\<open>membership/memberlist\<close>): the gossip layer, its event channel under concurrency, and
    metadata.
  \<^item> \<open>Discovery\<close> (\<open>discovery\<close>; locale \<open>discovery\<close>): static, file and DNS seeds.
  \<^item> \<open>EventBus\<close> (\<open>cluster/events.go\<close>), \<open>Metrics\<close> (\<open>observability/metrics\<close>).
  \<^item> \<open>Transport\<close> (\<open>transport/rpc.go\<close>; locale \<open>wire_format\<close>): messages and their JSON forms.
  \<^item> \<open>GrpcServer\<close>, \<open>GrpcMgmt\<close>, \<open>ConnMgr\<close> (\<open>transport/grpc\<close>; locale \<open>replication_server\<close>): the gRPC server
    with subscribers and acknowledgements, both services with their handlers, the client and its
    connection cache as interleaved steps. \<open>GrpcDial\<close>: the codec, the options both sides set and the
    registered services; two nodes with the same TLS setting can talk, and every call of the client
    has a handler.
  \<^item> \<open>HttpJson\<close> (\<open>transport/httpjson\<close>): routes, client and retries; it agrees with gRPC.
  \<^item> \<open>TlsConfig\<close> (\<open>security/tlsconfig\<close>): configurations and the reloading certificate cache.
  \<^item> \<open>Replication\<close>, \<open>DiskBuffer\<close>, \<open>ReplStream\<close> (\<open>cluster/cluster.go\<close>,
    \<open>transport/grpc/replication_client.go\<close>): \<open>Publish\<close> with its window, the retry loop, the buffer on
    disk and its recovery, and the follower's subscription loop. \<open>Delivery\<close> composes them into one
    system, a leader, its streams, any number of followers and the acknowledgements on their way,
    as an inductive step relation: it refines the leader's own steps (locale \<open>server_simulation\<close>),
    delivers in order and at least once over streams that last, and loses a message over one
    that breaks.
  \<^item> \<open>Cluster\<close> (\<open>cluster/cluster.go\<close>, \<open>options.go\<close>, \<open>status.go\<close>): the facade. Handlers are programs in the
    state monad over the node's state and the history of the calls it makes; what a component
    answers is a function of that history, which covers every behaviour over time. \<open>ProgRel\<close> (locale
    \<open>prog_rel\<close>) proves from the text of a program which calls it can make.
  \<^item> \<open>Logutil\<close> (\<open>internal/logutil\<close>): log lines; structured ones can be read back.
  \<^item> \<open>Bootstrap\<close> (\<open>bootstrap\<close>, \<open>transport/udp\<close>), \<open>Cli\<close> (\<open>cli\<close>): assembling, running and commanding a node.
    \<open>Commands\<close> (\<open>cli\<close>, \<open>cmd/clusterctl\<close>; locale \<open>flag_set\<close>): the flags of each command, the command tree and
    what a command line sets.
  \<^item> \<open>Tracing\<close> (\<open>observability/tracing\<close> and its callers): spans around the handlers, which change nothing
    else. The other theories leave them out; this one puts them back and proves both versions equal.
  \<^item> \<open>Programs\<close> (\<open>cmd/memdemo\<close>, \<open>examples\<close>): the membership demo with its goroutines as a step relation, and
    the service that embeds a node.
  \<^item> \<open>Wiring\<close>: the interfaces of the facade implemented by the models of the Raft node and the
    membership layer (locale \<open>voter_engine\<close> for what a join relies on, with \<open>raft_platform\<close> as its
    sublocale for the Raft node), and the properties that span components: a \<open>join\<close> command ends in the Raft
    configuration, a gossip event in the replicated state, closing releases what was started.
    \<open>Peers\<close> connects the client of one such node to the service of another: joining a cluster and
    forwarding a write, from one facade through either protocol to the other.

  \<^bold>\<open>Libraries\<close> are parameters: records of functions for hashicorp/raft (\<open>raft_env\<close>, \<open>raft_api\<close>),
  memberlist (\<open>ml_lib\<close>), the gRPC runtime (\<open>net\<close>), \<open>net/http\<close> (\<open>http_net\<close>), TLS files (\<open>tls_env\<close>), the resolver
  and the operating system. What is relied on is a named hypothesis, and a witness shows that it
  can hold: \<open>applies_entry\<close> (a successful \<open>Apply\<close> has reached the state machine), \<open>reconfigures\<close> (voter
  changes do what they report), \<open>delivers\<close> and \<open>http_delivers\<close> (requests reach the handlers),
  \<open>body_once\<close> (a request body that was read is not sent again), \<open>ml_quiet\<close> (a stopped instance is not
  revived).

  \<^bold>\<open>Loops.\<close> Loops over data are structural recursions. \<open>resend\<close> and \<open>window_wait\<close>, which may not end, are
  partial functions into options; when they return is proved (\<open>resend_loop\<close>, \<open>publish_returns_iff\<close>).
  Endless service loops are modelled by their body: one event, one tick, one round. The HTTP
  client's three attempts are the bound of the code.

  \<^bold>\<open>Not modelled.\<close> What components write to the log, which they never read; how cobra splits a
  command line into flags and values (a command line is modelled from there on) and its help
  texts; the moving of bytes by gRPC, HTTP, gossip and Raft, and the export of spans; the empty
  methods of the memberlist delegate; the memory races of maps that the code shares without a
  lock. A nil and an empty byte slice are the same.
\<close>

end
